(* ===== verification/Prelude.thy ===== *)
theory Prelude
  imports Main "HOL-Library.Word" "HOL-Library.AList" "HOL-Library.Multiset"
begin

text \<open>
  Shared vocabulary of the development: machine integers and byte strings, the
  \<open>Poll\<close> type of asynchronous Rust, the reasons for which the program panics, and the
  representation of \<open>HashMap\<close> and \<open>HashSet\<close>.

  A \<open>HashMap\<close> is an association list with distinct keys, updated by
  \<open>AList.update\<close> and \<open>AList.delete\<close>; a \<open>HashSet\<close> is a distinct list updated by
  \<open>List.insert\<close> and \<open>removeAll\<close>. Lengths are then list lengths. Rust iterates over
  either in an unspecified order: where the program's behaviour depends on that order, the
  model takes the order as an argument and its theorems hold for every permutation.
\<close>

section \<open>Types\<close>

type_synonym u8 = "8 word"
type_synonym u16 = "16 word"
type_synonym u32 = "32 word"
type_synonym i32 = "32 word"
type_synonym u64 = "64 word"
type_synonym bytes = "u8 list"

text \<open>Result of polling an asynchronous operation (\<open>std::task::Poll\<close>).\<close>

datatype 'a poll = Ready 'a | Pending

text \<open>
  The ways the modelled code panics. A function that may panic returns a value of
  \<open>panic + 'a\<close>, with \<open>Inl\<close> for the panic.
\<close>

datatype panic =
    IndexOutOfBounds nat nat  \<comment> \<open>index, length\<close>
  | UnwrapNone string
  | SliceNotCharBoundary nat
  | Unreachable string
  | AssertFailed string

type_synonym ('k, 'v) hash_map = "('k \<times> 'v) list"
type_synonym 'a hash_set = "'a list"

text \<open>Keys of a hash map in its iteration order, and the well-formedness of the representation.\<close>

abbreviation keys :: "('k, 'v) hash_map \<Rightarrow> 'k list" where
  "keys m \<equiv> map fst m"

abbreviation values_of :: "('k, 'v) hash_map \<Rightarrow> 'v list" where
  "values_of m \<equiv> map snd m"

abbreviation wf_map :: "('k, 'v) hash_map \<Rightarrow> bool" where
  "wf_map m \<equiv> distinct (keys m)"

text \<open>\<open>HashMap::remove\<close>, \<open>HashSet::remove\<close>, \<open>HashSet::extend\<close>.\<close>

abbreviation map_remove :: "'k \<Rightarrow> ('k, 'v) hash_map \<Rightarrow> ('k, 'v) hash_map" where
  "map_remove k m \<equiv> AList.delete k m"

abbreviation set_remove :: "'a \<Rightarrow> 'a hash_set \<Rightarrow> 'a hash_set" where
  "set_remove x s \<equiv> removeAll x s"

definition set_extend :: "'a hash_set \<Rightarrow> 'a list \<Rightarrow> 'a hash_set" where
  "set_extend s xs = fold List.insert xs s"

text \<open>\<open>entry(k).and_modify(f).or_insert(v)\<close>.\<close>

definition map_entry :: "'k \<Rightarrow> ('v \<Rightarrow> 'v) \<Rightarrow> 'v \<Rightarrow> ('k, 'v) hash_map \<Rightarrow> ('k, 'v) hash_map" where
  "map_entry k f v m =
     AList.update k (case map_of m k of None \<Rightarrow> v | Some old \<Rightarrow> f old) m"

text \<open>A hash container's iteration order, or a shuffle: some rearrangement of the elements.\<close>

definition permuting :: "('a list \<Rightarrow> 'a list) \<Rightarrow> bool" where
  "permuting p \<longleftrightarrow> (\<forall>xs. mset (p xs) = mset xs)"

text \<open>
  Proof collections: facts on the containers (\<open>container_simps\<close>), and for each component the
  facts that unfold one of its operations (\<open>step_simps\<close>) or keep its invariant
  (\<open>inv_intros\<close>).
\<close>

named_theorems container_simps
named_theorems step_simps
named_theorems inv_intros

section \<open>Hash containers\<close>

lemma length_update [container_simps]:
  "length (AList.update k v m) = (if k \<in> fst ` set m then length m else Suc (length m))"
  by (induction m) auto

lemma length_update_le: "length (AList.update k v m) \<le> Suc (length m)"
  by (simp add: length_update)

lemma length_map_remove_le: "length (map_remove k m) \<le> length m"
  by (simp add: AList.length_delete_le)

lemma keys_update [container_simps]:
  "fst ` set (AList.update k v m) = insert k (fst ` set m)"
  by (simp add: dom_update)

lemma keys_map_remove [container_simps]: "fst ` set (map_remove k m) = fst ` set m - {k}"
  by (simp add: AList.delete_keys [symmetric] flip: set_map) (auto simp: AList.delete_eq)

lemma wf_map_update [simp, intro]: "wf_map m \<Longrightarrow> wf_map (AList.update k v m)"
  by (rule distinct_update)

lemma wf_map_remove [simp, intro]: "wf_map m \<Longrightarrow> wf_map (map_remove k m)"
  by (rule distinct_delete)

lemma map_of_eq_Some_keys: "map_of m k = Some v \<Longrightarrow> k \<in> fst ` set m"
  by (metis domI dom_map_of_conv_image_fst)

lemma map_of_eq_None_keys: "map_of m k = None \<longleftrightarrow> k \<notin> fst ` set m"
  by (simp add: map_of_eq_None_iff)

lemma map_of_map_entry [container_simps]:
  "map_of (map_entry k f v m) k' =
     (if k' = k then Some (case map_of m k of None \<Rightarrow> v | Some old \<Rightarrow> f old) else map_of m k')"
  by (simp add: map_entry_def update_conv')

lemma keys_map_entry [container_simps]:
  "fst ` set (map_entry k f v m) = insert k (fst ` set m)"
  by (simp add: map_entry_def keys_update)

lemma wf_map_entry [simp, intro]: "wf_map m \<Longrightarrow> wf_map (map_entry k f v m)"
  by (simp add: map_entry_def)

lemma length_set_insert [container_simps]:
  "length (List.insert x s) = (if x \<in> set s then length s else Suc (length s))"
  by (simp add: List.insert_def)

lemma set_set_extend [simp]: "set (set_extend s xs) = set s \<union> set xs"
  by (induction xs arbitrary: s) (auto simp: set_extend_def)

lemma distinct_set_extend [simp, intro]: "distinct s \<Longrightarrow> distinct (set_extend s xs)"
  by (induction xs arbitrary: s) (auto simp: set_extend_def)

lemma permuting_facts:
  assumes "permuting p"
  shows permuting_set: "set (p xs) = set xs"
    and permuting_length: "length (p xs) = length xs"
    and permuting_distinct: "distinct (p xs) = distinct xs"
proof -
  from assms have eq: "mset (p xs) = mset xs"
    by (simp add: permuting_def)
  from eq show "set (p xs) = set xs" by (rule mset_eq_setD)
  from eq show "length (p xs) = length xs" by (rule mset_eq_length)
  from eq show "distinct (p xs) = distinct xs" by (rule mset_eq_imp_distinct_iff)
qed

lemma permuting_id [simp]: "permuting (\<lambda>xs. xs)"
  by (simp add: permuting_def)

lemma permuting_rev [simp]: "permuting rev"
  by (simp add: permuting_def)

section \<open>Lists\<close>

text \<open>
  Reading one position of a vector: Rust panics out of range, so the model's accessors return
  \<open>None\<close> there.
\<close>

definition nth_opt :: "'a list \<Rightarrow> nat \<Rightarrow> 'a option" where
  "nth_opt xs i = (if i < length xs then Some (xs ! i) else None)"

lemma nth_opt_Some [simp]: "i < length xs \<Longrightarrow> nth_opt xs i = Some (xs ! i)"
  by (simp add: nth_opt_def)

lemma nth_opt_None [simp]: "length xs \<le> i \<Longrightarrow> nth_opt xs i = None"
  by (simp add: nth_opt_def)

lemma nth_opt_eq_Some_iff: "nth_opt xs i = Some x \<longleftrightarrow> i < length xs \<and> xs ! i = x"
  by (auto simp: nth_opt_def)

lemma nth_opt_eq_None_iff: "nth_opt xs i = None \<longleftrightarrow> length xs \<le> i"
  by (auto simp: nth_opt_def)

end
