(* ===== verification/Event_Source.thy ===== *)
theory Event_Source
  imports Prelude
begin

text \<open>
  The interface the connection handler and the network behaviour share with the swarm that
  polls them: operations append to a queue of events, and a poll that finds the queue non-empty
  hands out its first event. What a poll does on an empty queue is left open.
\<close>

locale event_source =
  fixes emit :: "'e \<Rightarrow> 's \<Rightarrow> 's"
    and deliver :: "'s \<Rightarrow> ('e \<times> 's) option"
    and queue :: "'s \<Rightarrow> 'e list"
  assumes queue_emit: "queue (emit e s) = queue s @ [e]"
    and deliver_first:
      "queue s = e # es \<Longrightarrow> \<exists>s'. deliver s = Some (e, s') \<and> queue s' = es"
begin

text \<open>Polling \<open>n\<close> times.\<close>

fun drain :: "nat \<Rightarrow> 's \<Rightarrow> 'e list" where
  "drain 0 s = []"
| "drain (Suc n) s = (case deliver s of None \<Rightarrow> [] | Some (e, s') \<Rightarrow> e # drain n s')"

lemma drain_take: "n \<le> length (queue s) \<Longrightarrow> drain n s = take n (queue s)"
proof (induction n arbitrary: s)
  case (Suc n)
  then obtain e es where q: "queue s = e # es"
    by (cases "queue s") auto
  with deliver_first obtain s' where "deliver s = Some (e, s')" "queue s' = es"
    by blast
  with Suc q show ?case by simp
qed simp

lemma queue_emits: "queue (fold emit es s) = queue s @ es"
  by (induction es arbitrary: s) (simp_all add: queue_emit)

text \<open>Events reach the swarm in the order in which they were emitted, none lost.\<close>

lemma emitted_in_order:
  "drain (length (queue s) + length es) (fold emit es s) = queue s @ es"
  by (simp add: drain_take queue_emits)

end

end
