(* ===== verification/Rust_Str.thy ===== *)
theory Rust_Str
  imports Prelude "HOL-Library.Sublist"
begin

text \<open>
  The methods of Rust's \<open>str\<close> that the program uses. A Rust string is its UTF-8 byte
  sequence, one \<open>char\<close> of HOL per byte, so \<open>length\<close> is \<open>str::len\<close> and positions are
  byte offsets. Slicing at an offset inside a multi-byte character panics
  (\<open>str_slice_to\<close>).
\<close>

section \<open>Searching\<close>

text \<open>\<open>str::find\<close>: offset of the first occurrence.\<close>

fun str_find :: "string \<Rightarrow> string \<Rightarrow> nat option" where
  "str_find [] pat = (if pat = [] then Some 0 else None)"
| "str_find (c # cs) pat =
     (if prefix pat (c # cs) then Some 0 else map_option Suc (str_find cs pat))"

text \<open>\<open>str::rfind\<close>: offset of the last occurrence.\<close>

fun str_rfind :: "string \<Rightarrow> string \<Rightarrow> nat option" where
  "str_rfind [] pat = (if pat = [] then Some 0 else None)"
| "str_rfind (c # cs) pat =
     (case str_rfind cs pat of
        Some i \<Rightarrow> Some (Suc i)
      | None \<Rightarrow> if prefix pat (c # cs) then Some 0 else None)"

definition str_contains :: "string \<Rightarrow> string \<Rightarrow> bool" where
  "str_contains s pat \<longleftrightarrow> str_find s pat \<noteq> None"

section \<open>Trimming and splitting\<close>

text \<open>\<open>str::trim_start_matches\<close>: strips the pattern from the front as often as it occurs.\<close>

function trim_start_matches :: "string \<Rightarrow> string \<Rightarrow> string" where
  "trim_start_matches pat s =
     (if pat \<noteq> [] \<and> prefix pat s then trim_start_matches pat (drop (length pat) s) else s)"
  by pat_completeness auto
termination
  by (relation "measure (\<lambda>(pat, s). length s)") (auto simp: prefix_def)

text \<open>\<open>str::strip_prefix\<close>.\<close>

definition strip_prefix :: "string \<Rightarrow> string \<Rightarrow> string option" where
  "strip_prefix pat s = (if prefix pat s then Some (drop (length pat) s) else None)"

text \<open>\<open>str::split\<close> on one character: one piece more than there are separators.\<close>

fun split_char :: "char \<Rightarrow> string \<Rightarrow> string list" where
  "split_char c [] = [[]]"
| "split_char c (x # xs) =
     (if x = c then [] # split_char c xs
      else (x # hd (split_char c xs)) # tl (split_char c xs))"

text \<open>\<open>s.rsplit(pat).next()\<close>: what follows the last occurrence, or all of \<open>s\<close>.\<close>

definition rsplit_first :: "string \<Rightarrow> string \<Rightarrow> string" where
  "rsplit_first s pat =
     (case str_rfind s pat of Some i \<Rightarrow> drop (i + length pat) s | None \<Rightarrow> s)"

text \<open>\<open>parts.join(sep)\<close>.\<close>

definition join_with :: "string \<Rightarrow> string list \<Rightarrow> string" where
  "join_with sep parts =
     (case parts of [] \<Rightarrow> [] | p # ps \<Rightarrow> p @ concat (map (\<lambda>q. sep @ q) ps))"

text \<open>\<open>str::trim\<close>: the characters with the Unicode property \<open>White_Space\<close>, as UTF-8.\<close>

definition white_space :: "string list" where
  "white_space = map (map char_of)
     [[9 :: nat], [10], [11], [12], [13], [32], [0xC2, 0x85], [0xC2, 0xA0], [0xE1, 0x9A, 0x80],
      [0xE2, 0x80, 0x80], [0xE2, 0x80, 0x81], [0xE2, 0x80, 0x82], [0xE2, 0x80, 0x83],
      [0xE2, 0x80, 0x84], [0xE2, 0x80, 0x85], [0xE2, 0x80, 0x86], [0xE2, 0x80, 0x87],
      [0xE2, 0x80, 0x88], [0xE2, 0x80, 0x89], [0xE2, 0x80, 0x8A], [0xE2, 0x80, 0xA8],
      [0xE2, 0x80, 0xA9], [0xE2, 0x80, 0xAF], [0xE2, 0x81, 0x9F], [0xE3, 0x80, 0x80]]"

function strip_any :: "string list \<Rightarrow> string \<Rightarrow> string" where
  "strip_any pats s =
     (case List.find (\<lambda>w. w \<noteq> [] \<and> prefix w s) pats of
        None \<Rightarrow> s
      | Some w \<Rightarrow> strip_any pats (drop (length w) s))"
  by pat_completeness auto

termination
  by (relation "measure (\<lambda>(_, s). length s)") (auto simp: find_Some_iff prefix_def)

definition str_trim :: "string \<Rightarrow> string" where
  "str_trim s = rev (strip_any (map rev white_space) (rev (strip_any white_space s)))"

declare strip_any.simps [simp del]

section \<open>Slicing\<close>

text \<open>
  \<open>str::is_char_boundary\<close>: an offset at either end, or at a byte that does not continue a
  character (continuation bytes are \<open>0x80\<close> to \<open>0xBF\<close>).
\<close>

definition is_char_boundary :: "string \<Rightarrow> nat \<Rightarrow> bool" where
  "is_char_boundary s i \<longleftrightarrow>
     i = 0 \<or> i = length s
     \<or> (i < length s \<and> \<not> (128 \<le> (of_char (s ! i) :: nat) \<and> (of_char (s ! i) :: nat) < 192))"

text \<open>\<open>&s[..i]\<close>.\<close>

definition str_slice_to :: "string \<Rightarrow> nat \<Rightarrow> panic + string" where
  "str_slice_to s i =
     (if is_char_boundary s i then Inr (take i s) else Inl (SliceNotCharBoundary i))"

section \<open>Formatting\<close>

text \<open>Decimal digits of an unsigned number, as \<open>{}\<close> prints it.\<close>

fun show_nat :: "nat \<Rightarrow> string" where
  "show_nat n =
     (if n < 10 then [char_of (48 + n)] else show_nat (n div 10) @ [char_of (48 + n mod 10)])"

declare trim_start_matches.simps [simp del]
declare show_nat.simps [simp del]

section \<open>Facts\<close>

lemma str_find_Some:
  "str_find s pat = Some i \<Longrightarrow>
     i + length pat \<le> length s \<and> take (length pat) (drop i s) = pat"
proof (induction s arbitrary: i)
  case Nil
  then show ?case by (simp split: if_splits)
next
  case (Cons c cs)
  show ?case
  proof (cases "prefix pat (c # cs)")
    case True
    with Cons.prems have "i = 0" by simp
    with True show ?thesis
      by (metis add_0 drop0 prefix_length_le append_eq_conv_conj prefix_def)
  next
    case False
    with Cons.prems obtain j where "str_find cs pat = Some j" "i = Suc j" by auto
    with Cons.IH show ?thesis by auto
  qed
qed

lemma str_find_None: "str_find s pat = None \<longleftrightarrow> \<not> sublist pat s"
  by (induction s) (auto simp: sublist_Cons_right)

lemma str_contains_iff: "str_contains s pat \<longleftrightarrow> sublist pat s"
  by (simp add: str_contains_def str_find_None)

lemma str_contains_set: "str_contains s pat \<Longrightarrow> set pat \<subseteq> set s"
  by (simp add: str_contains_iff set_mono_sublist)

lemma str_rfind_None: "str_rfind s pat = None \<longleftrightarrow> \<not> sublist pat s"
  by (induction s) (auto simp: sublist_Cons_right split: option.splits)

lemma str_rfind_Some:
  "str_rfind s pat = Some i \<Longrightarrow>
     i \<le> length s \<and> prefix pat (drop i s) \<and> (\<forall>j. i < j \<longrightarrow> j < length s \<longrightarrow> \<not> prefix pat (drop j s))"
proof (induction s arbitrary: i)
  case Nil
  then show ?case by (simp split: if_splits)
next
  case (Cons c cs)
  show ?case
  proof (cases "str_rfind cs pat")
    case (Some k)
    with Cons.prems have "i = Suc k" by simp
    with Cons.IH [OF Some] show ?thesis
      by (auto simp: drop_Cons split: nat.splits)
  next
    case None
    with Cons.prems have i: "i = 0" and p: "prefix pat (c # cs)"
      by (auto split: if_splits)
    from None have "\<not> sublist pat cs" by (simp add: str_rfind_None)
    then have "\<not> prefix pat (drop j cs)" for j
      by (metis prefix_imp_sublist sublist_drop sublist_order.order.trans)
    with i p show ?thesis
      by (auto simp: drop_Cons split: nat.splits)
  qed
qed

lemma trim_start_matches_id: "\<not> prefix pat s \<Longrightarrow> trim_start_matches pat s = s"
  by (simp add: trim_start_matches.simps)

lemma trim_start_matches_strips:
  "pat \<noteq> [] \<Longrightarrow> trim_start_matches pat (pat @ s) = trim_start_matches pat s"
  by (subst trim_start_matches.simps) simp

lemma trim_start_matches_result:
  "pat \<noteq> [] \<Longrightarrow> \<not> prefix pat (trim_start_matches pat s) \<and> suffix (trim_start_matches pat s) s"
proof (induction pat s rule: trim_start_matches.induct)
  case (1 pat s)
  show ?case
  proof (cases "prefix pat s")
    case True
    with 1 have "\<not> prefix pat (trim_start_matches pat (drop (length pat) s))"
      and "suffix (trim_start_matches pat (drop (length pat) s)) (drop (length pat) s)"
      by auto
    with True 1(2) show ?thesis
      by (auto simp: trim_start_matches.simps [of pat s] intro: suffix_order.trans suffix_drop)
  next
    case False
    with 1(2) show ?thesis by (simp add: trim_start_matches_id)
  qed
qed

lemma trim_start_matches_idem:
  "trim_start_matches pat (trim_start_matches pat s) = trim_start_matches pat s"
proof (cases "pat = []")
  case True
  then show ?thesis by (simp add: trim_start_matches.simps)
next
  case False
  then show ?thesis
    using trim_start_matches_result trim_start_matches_id by blast
qed

lemma split_char_nonempty [simp]: "split_char c s \<noteq> []"
  by (cases s) auto

lemma split_char_last_no_sep: "c \<notin> set (last (split_char c s))"
proof (induction s)
  case Nil
  then show ?case by simp
next
  case (Cons x xs)
  then show ?case
    by (cases "split_char c xs") auto
qed

lemma split_char_append_sep: "split_char c (s @ c # t) = split_char c s @ split_char c t"
  by (induction s) (auto simp: hd_append)

lemma split_char_no_sep: "c \<notin> set s \<Longrightarrow> split_char c s = [s]"
  by (induction s) auto

lemma split_char_join:
  assumes "ps \<noteq> []" and "\<And>p. p \<in> set ps \<Longrightarrow> c \<notin> set p"
  shows "split_char c (join_with [c] ps) = ps"
  using assms
proof (induction ps)
  case (Cons p ps)
  show ?case
  proof (cases ps)
    case Nil
    with Cons.prems show ?thesis by (simp add: join_with_def split_char_no_sep)
  next
    case (Cons q qs)
    then have "join_with [c] (p # ps) = p @ c # join_with [c] ps"
      by (simp add: join_with_def)
    with Cons Cons.IH Cons.prems show ?thesis
      by (simp add: split_char_append_sep split_char_no_sep)
  qed
qed simp

lemma strip_any_id:
  assumes "\<And>w. w \<in> set pats \<Longrightarrow> w \<noteq> [] \<Longrightarrow> hd w \<notin> set s"
  shows "strip_any pats s = s"
proof -
  have "\<not> prefix w s" if "w \<in> set pats" "w \<noteq> []" for w
    using assms [OF that] that(2) by (cases w) (auto simp: prefix_def)
  then have "List.find (\<lambda>w. w \<noteq> [] \<and> prefix w s) pats = None"
    by (auto simp: find_None_iff)
  then show ?thesis
    by (subst strip_any.simps) simp
qed

text \<open>Text in letters and digits has nothing to trim.\<close>

lemma str_trim_id:
  assumes "\<And>c. c \<in> set s \<Longrightarrow> of_char c \<in> {33 ..< 128 :: nat}"
  shows "str_trim s = s"
proof -
  have ends: "(of_char (hd w) :: nat) \<notin> {33 ..< 128} \<and> (of_char (last w) :: nat) \<notin> {33 ..< 128}"
    if "w \<in> set white_space" for w
    using that by (auto simp: white_space_def)
  have "strip_any white_space s = s"
    using assms ends by (intro strip_any_id) blast
  moreover have "strip_any (map rev white_space) (rev s) = rev s"
  proof (rule strip_any_id)
    fix w assume "w \<in> set (map rev white_space)" and "w \<noteq> []"
    then obtain v where "v \<in> set white_space" "w = rev v" "hd w = last v"
      by (metis (no_types, lifting) hd_rev imageE list.set_map)
    then show "hd w \<notin> set (rev s)"
      using ends assms by fastforce
  qed
  ultimately show ?thesis
    by (simp add: str_trim_def)
qed

lemma is_char_boundary_ascii:
  assumes "i \<le> length s" and "i < length s \<Longrightarrow> (of_char (s ! i) :: nat) < 128"
  shows "is_char_boundary s i"
  using assms by (auto simp: is_char_boundary_def)

end
