(* ===== verification/Handshake.thy ===== *)
theory Handshake
  imports Rust_Str
begin

text \<open>
  The two-way handshake of a notification substream (\<open>notifications/upgrades/handshake.rs\<close>):
  the inbound and outbound upgrades that exchange length-prefixed handshakes, and the state
  machine of an inbound substream, which answers with our own handshake before it yields
  messages. The raw socket (\<open>AsyncRead + AsyncWrite\<close>), the varint functions and the framed
  socket (\<open>Framed<_, UviBytes>\<close>) are third-party code: they are the operations of
  \<open>stream_ops\<close> and \<open>framed_ops\<close>, over any type of socket states.
\<close>

section \<open>Errors and sockets\<close>

datatype io_error = IoError string

datatype read_error = ReadIo io_error | ReadDecode string | ReadOther

datatype handshake_error = Io io_error | TooLarge nat nat | VarintDecode string

definition handshake_error_of_read :: "read_error \<Rightarrow> handshake_error" where
  "handshake_error_of_read err =
     (case err of
        ReadIo e \<Rightarrow> Io e
      | ReadDecode e \<Rightarrow> VarintDecode e
      | ReadOther \<Rightarrow> Io (IoError ''InvalidData''))"

definition MAX_HANDSHAKE_SIZE :: nat where
  "MAX_HANDSHAKE_SIZE = 1024"

text \<open>Operations of the raw socket.\<close>

record 's stream_ops =
  st_read_usize :: "'s \<Rightarrow> (read_error + nat) \<times> 's"
  st_read_exact :: "nat \<Rightarrow> 's \<Rightarrow> (io_error + bytes) \<times> 's"
  st_write_all :: "bytes \<Rightarrow> 's \<Rightarrow> (io_error + unit) \<times> 's"
  st_flush :: "'s \<Rightarrow> (io_error + unit) \<times> 's"

text \<open>Operations of the framed socket: its \<open>Sink\<close> and \<open>Stream\<close> sides.\<close>

record 'k framed_ops =
  fr_poll_ready :: "'k \<Rightarrow> (io_error + unit) poll \<times> 'k"
  fr_start_send :: "bytes \<Rightarrow> 'k \<Rightarrow> (io_error + unit) \<times> 'k"
  fr_poll_flush :: "'k \<Rightarrow> (io_error + unit) poll \<times> 'k"
  fr_poll_next :: "'k \<Rightarrow> (io_error + bytes) option poll \<times> 'k"
  fr_poll_close :: "'k \<Rightarrow> (io_error + unit) poll \<times> 'k"

section \<open>Substreams and upgrades\<close>

datatype handshake_inbound_substream_state =
    Waiting
  | Sending bytes
  | Flush
  | Done
  | NeedsClose
  | FullyClosed

record handshake_inbound =
  hi_name :: string

record 'k handshake_inbound_substream =
  ib_socket :: 'k
  ib_state :: handshake_inbound_substream_state
  ib_negotiated_name :: string

record handshake_outbound =
  ho_name :: string
  ho_handshake :: bytes

definition handshake_inbound_new :: "string \<Rightarrow> handshake_inbound" where
  "handshake_inbound_new name = \<lparr>hi_name = name\<rparr>"

definition handshake_outbound_new :: "string \<Rightarrow> bytes \<Rightarrow> handshake_outbound" where
  "handshake_outbound_new name handshake = \<lparr>ho_name = name, ho_handshake = handshake\<rparr>"

record 'k handshake_outbound_substream =
  ob_socket :: 'k

record 'k handshake_inbound_open =
  hio_handshake :: bytes
  hio_substream :: "'k handshake_inbound_substream"

record 'k handshake_outbound_open =
  hoo_handshake :: bytes
  hoo_substream :: "'k handshake_outbound_substream"

definition inbound_protocol_info :: "handshake_inbound \<Rightarrow> string list" where
  "inbound_protocol_info u = [hi_name u]"

definition outbound_protocol_info :: "handshake_outbound \<Rightarrow> string list" where
  "outbound_protocol_info u = [ho_name u]"

text \<open>
  The part the two upgrades share: read the length, refuse a large one, read that many bytes
  (an empty handshake reads nothing).
\<close>

definition read_handshake ::
  "('s, 'z) stream_ops_scheme \<Rightarrow> 's \<Rightarrow> handshake_error + bytes \<times> 's" where
  "read_handshake S s =
     (case st_read_usize S s of
        (Inl e, _) \<Rightarrow> Inl (handshake_error_of_read e)
      | (Inr handshake_len, s1) \<Rightarrow>
          if handshake_len > MAX_HANDSHAKE_SIZE then
            Inl (TooLarge handshake_len MAX_HANDSHAKE_SIZE)
          else if handshake_len = 0 then Inr ([], s1)
          else (case st_read_exact S handshake_len s1 of
                  (Inl e, _) \<Rightarrow> Inl (Io e)
                | (Inr bs, s2) \<Rightarrow> Inr (bs, s2)))"

text \<open>\<open>framed\<close> is \<open>Framed::new(socket, codec)\<close>.\<close>

definition upgrade_inbound ::
  "('s, 'z) stream_ops_scheme \<Rightarrow> ('s \<Rightarrow> 'k) \<Rightarrow> handshake_inbound \<Rightarrow> 's \<Rightarrow> string
     \<Rightarrow> handshake_error + 'k handshake_inbound_open" where
  "upgrade_inbound S framed u socket negotiated_name =
     (case read_handshake S socket of
        Inl e \<Rightarrow> Inl e
      | Inr (handshake, s) \<Rightarrow>
          Inr \<lparr>hio_handshake = handshake,
               hio_substream = \<lparr>ib_socket = framed s, ib_state = Waiting,
                 ib_negotiated_name = negotiated_name\<rparr>\<rparr>)"

text \<open>\<open>encode_usize\<close> is \<open>unsigned_varint::encode::usize\<close>.\<close>

definition upgrade_outbound ::
  "('s, 'z) stream_ops_scheme \<Rightarrow> (nat \<Rightarrow> bytes) \<Rightarrow> ('s \<Rightarrow> 'k) \<Rightarrow> handshake_outbound \<Rightarrow> 's
     \<Rightarrow> string \<Rightarrow> handshake_error + 'k handshake_outbound_open" where
  "upgrade_outbound S encode_usize framed u socket negotiated_name =
     (case st_write_all S (encode_usize (length (ho_handshake u))) socket of
        (Inl e, _) \<Rightarrow> Inl (Io e)
      | (Inr _, s1) \<Rightarrow>
     (case st_write_all S (ho_handshake u) s1 of
        (Inl e, _) \<Rightarrow> Inl (Io e)
      | (Inr _, s2) \<Rightarrow>
     (case st_flush S s2 of
        (Inl e, _) \<Rightarrow> Inl (Io e)
      | (Inr _, s3) \<Rightarrow>
     (case read_handshake S s3 of
        Inl e \<Rightarrow> Inl e
      | Inr (handshake, s4) \<Rightarrow>
          Inr \<lparr>hoo_handshake = handshake, hoo_substream = \<lparr>ob_socket = framed s4\<rparr>\<rparr>))))"

section \<open>The inbound substream\<close>

definition set_handshake ::
  "bytes \<Rightarrow> 'k handshake_inbound_substream \<Rightarrow> 'k handshake_inbound_substream" where
  "set_handshake h s =
     (case ib_state s of Waiting \<Rightarrow> s\<lparr>ib_state := Sending h\<rparr> | _ \<Rightarrow> s)"

text \<open>
  How far a state is from the end of its loop.
\<close>

fun inbound_rank :: "handshake_inbound_substream_state \<Rightarrow> nat" where
  "inbound_rank (Sending h) = 4"
| "inbound_rank Flush = 3"
| "inbound_rank Done = 2"
| "inbound_rank NeedsClose = 1"
| "inbound_rank Waiting = 0"
| "inbound_rank FullyClosed = 0"

text \<open>
  One round of each loop: \<open>Inl\<close> is a return, \<open>Inr\<close> goes round again. The loops take the
  state out (\<open>mem::replace\<close> leaves \<open>Done\<close>) and put a state back before they go round, so a
  branch that returns without putting one back leaves \<open>Done\<close>. A \<open>Ready\<close> of
  \<open>poll_ready\<close> counts as ready even when it carries an error. \<open>poll_process\<close> returns
  \<open>Ready\<close> only for errors, so its payload is the error itself.
\<close>

definition process_round ::
  "('k, 'z) framed_ops_scheme \<Rightarrow> 'k handshake_inbound_substream
     \<Rightarrow> io_error poll \<times> 'k handshake_inbound_substream + 'k handshake_inbound_substream" where
  "process_round F s =
     (case ib_state s of
        Sending handshake \<Rightarrow>
          (case fr_poll_ready F (ib_socket s) of
             (Ready _, k) \<Rightarrow>
               (case fr_start_send F handshake k of
                  (Inr _, k') \<Rightarrow> Inr (s\<lparr>ib_socket := k', ib_state := Flush\<rparr>)
                | (Inl err, k') \<Rightarrow> Inl (Ready err, s\<lparr>ib_socket := k', ib_state := Flush\<rparr>))
           | (Pending, k) \<Rightarrow> Inl (Pending, s\<lparr>ib_socket := k, ib_state := Sending handshake\<rparr>))
      | Flush \<Rightarrow>
          (case fr_poll_flush F (ib_socket s) of
             (Ready (Inl err), k) \<Rightarrow> Inl (Ready err, s\<lparr>ib_socket := k, ib_state := Done\<rparr>)
           | (Ready (Inr _), k) \<Rightarrow> Inr (s\<lparr>ib_socket := k, ib_state := Done\<rparr>)
           | (Pending, k) \<Rightarrow> Inl (Pending, s\<lparr>ib_socket := k, ib_state := Flush\<rparr>))
      | state \<Rightarrow> Inl (Pending, s\<lparr>ib_state := state\<rparr>))"

definition next_round ::
  "('k, 'z) framed_ops_scheme \<Rightarrow> 'k handshake_inbound_substream
     \<Rightarrow> (io_error + bytes) option poll \<times> 'k handshake_inbound_substream
        + 'k handshake_inbound_substream" where
  "next_round F s =
     (case ib_state s of
        Waiting \<Rightarrow> Inl (Pending, s\<lparr>ib_state := Waiting\<rparr>)
      | Sending handshake \<Rightarrow>
          (case fr_poll_ready F (ib_socket s) of
             (Ready _, k) \<Rightarrow>
               (case fr_start_send F handshake k of
                  (Inr _, k') \<Rightarrow> Inr (s\<lparr>ib_socket := k', ib_state := Flush\<rparr>)
                | (Inl err, k') \<Rightarrow>
                    Inl (Ready (Some (Inl err)), s\<lparr>ib_socket := k', ib_state := Flush\<rparr>))
           | (Pending, k) \<Rightarrow> Inl (Pending, s\<lparr>ib_socket := k, ib_state := Sending handshake\<rparr>))
      | Flush \<Rightarrow>
          (case fr_poll_flush F (ib_socket s) of
             (Ready (Inl err), k) \<Rightarrow>
               Inl (Ready (Some (Inl err)), s\<lparr>ib_socket := k, ib_state := Done\<rparr>)
           | (Ready (Inr _), k) \<Rightarrow> Inr (s\<lparr>ib_socket := k, ib_state := Done\<rparr>)
           | (Pending, k) \<Rightarrow> Inl (Pending, s\<lparr>ib_socket := k, ib_state := Flush\<rparr>))
      | Done \<Rightarrow>
          (case fr_poll_next F (ib_socket s) of
             (Ready None, k) \<Rightarrow> Inr (s\<lparr>ib_socket := k, ib_state := NeedsClose\<rparr>)
           | (Ready (Some result), k) \<Rightarrow>
               Inl (Ready (Some result), s\<lparr>ib_socket := k, ib_state := Done\<rparr>)
           | (Pending, k) \<Rightarrow> Inl (Pending, s\<lparr>ib_socket := k, ib_state := Done\<rparr>))
      | NeedsClose \<Rightarrow>
          (case fr_poll_close F (ib_socket s) of
             (Ready (Inl err), k) \<Rightarrow>
               Inl (Ready (Some (Inl err)), s\<lparr>ib_socket := k, ib_state := Done\<rparr>)
           | (Ready (Inr _), k) \<Rightarrow> Inr (s\<lparr>ib_socket := k, ib_state := FullyClosed\<rparr>)
           | (Pending, k) \<Rightarrow> Inl (Pending, s\<lparr>ib_socket := k, ib_state := NeedsClose\<rparr>))
      | FullyClosed \<Rightarrow> Inl (Ready None, s\<lparr>ib_state := Done\<rparr>))"

lemma process_round_rank:
  "process_round F s = Inr s' \<Longrightarrow> inbound_rank (ib_state s') < inbound_rank (ib_state s)"
  by (auto simp: process_round_def split: handshake_inbound_substream_state.splits
        prod.splits poll.splits sum.splits)

lemma next_round_rank:
  "next_round F s = Inr s' \<Longrightarrow> inbound_rank (ib_state s') < inbound_rank (ib_state s)"
  by (auto simp: next_round_def split: handshake_inbound_substream_state.splits
        prod.splits poll.splits sum.splits option.splits)

function poll_process ::
  "('k, 'z) framed_ops_scheme \<Rightarrow> 'k handshake_inbound_substream
     \<Rightarrow> io_error poll \<times> 'k handshake_inbound_substream" where
  "poll_process F s =
     (case process_round F s of Inl out \<Rightarrow> out | Inr s' \<Rightarrow> poll_process F s')"
  by pat_completeness auto
termination
  by (relation "measure (\<lambda>(F, s). inbound_rank (ib_state s))") (auto dest: process_round_rank)

text \<open>\<open>Stream::poll_next\<close> of an inbound substream.\<close>

function inbound_poll_next ::
  "('k, 'z) framed_ops_scheme \<Rightarrow> 'k handshake_inbound_substream
     \<Rightarrow> (io_error + bytes) option poll \<times> 'k handshake_inbound_substream" where
  "inbound_poll_next F s =
     (case next_round F s of Inl out \<Rightarrow> out | Inr s' \<Rightarrow> inbound_poll_next F s')"
  by pat_completeness auto
termination
  by (relation "measure (\<lambda>(F, s). inbound_rank (ib_state s))") (auto dest: next_round_rank)

declare poll_process.simps [simp del]
declare inbound_poll_next.simps [simp del]

text \<open>
  Loop rules: what every round keeps and every return from a kept state establishes holds of
  the whole loop.
\<close>

lemma poll_process_rule:
  assumes "poll_process F s = (r, s')" and "I s"
    and "\<And>t t'. I t \<Longrightarrow> process_round F t = Inr t' \<Longrightarrow> I t'"
    and "\<And>t r t'. I t \<Longrightarrow> process_round F t = Inl (r, t') \<Longrightarrow> Q r t'"
  shows "Q r s'"
  using assms(1,2)
proof (induction "inbound_rank (ib_state s)" arbitrary: s rule: less_induct)
  case less
  show ?case
  proof (cases "process_round F s")
    case (Inl out)
    with less.prems assms(4) [of s r s'] show ?thesis
      by (simp add: poll_process.simps [of F s])
  next
    case (Inr t)
    with less.prems(1) have "poll_process F t = (r, s')"
      by (simp add: poll_process.simps [of F s])
    with less.hyps [OF process_round_rank [OF Inr]] assms(3) [OF less.prems(2) Inr]
    show ?thesis by blast
  qed
qed

lemma inbound_poll_next_rule:
  assumes "inbound_poll_next F s = (r, s')" and "I s"
    and "\<And>t t'. I t \<Longrightarrow> next_round F t = Inr t' \<Longrightarrow> I t'"
    and "\<And>t r t'. I t \<Longrightarrow> next_round F t = Inl (r, t') \<Longrightarrow> Q r t'"
  shows "Q r s'"
  using assms(1,2)
proof (induction "inbound_rank (ib_state s)" arbitrary: s rule: less_induct)
  case less
  show ?case
  proof (cases "next_round F s")
    case (Inl out)
    with less.prems assms(4) [of s r s'] show ?thesis
      by (simp add: inbound_poll_next.simps [of F s])
  next
    case (Inr t)
    with less.prems(1) have "inbound_poll_next F t = (r, s')"
      by (simp add: inbound_poll_next.simps [of F s])
    with less.hyps [OF next_round_rank [OF Inr]] assms(3) [OF less.prems(2) Inr]
    show ?thesis by blast
  qed
qed

section \<open>The outbound substream\<close>

text \<open>The \<open>Sink\<close> of an outbound substream forwards to its framed socket.\<close>

definition outbound_poll_ready ::
  "('k, 'z) framed_ops_scheme \<Rightarrow> 'k handshake_outbound_substream
     \<Rightarrow> (io_error + unit) poll \<times> 'k handshake_outbound_substream" where
  "outbound_poll_ready F s =
     (case fr_poll_ready F (ob_socket s) of (r, k) \<Rightarrow> (r, s\<lparr>ob_socket := k\<rparr>))"

definition outbound_start_send ::
  "('k, 'z) framed_ops_scheme \<Rightarrow> bytes \<Rightarrow> 'k handshake_outbound_substream
     \<Rightarrow> (io_error + unit) \<times> 'k handshake_outbound_substream" where
  "outbound_start_send F item s =
     (case fr_start_send F item (ob_socket s) of (r, k) \<Rightarrow> (r, s\<lparr>ob_socket := k\<rparr>))"

definition outbound_poll_flush ::
  "('k, 'z) framed_ops_scheme \<Rightarrow> 'k handshake_outbound_substream
     \<Rightarrow> (io_error + unit) poll \<times> 'k handshake_outbound_substream" where
  "outbound_poll_flush F s =
     (case fr_poll_flush F (ob_socket s) of (r, k) \<Rightarrow> (r, s\<lparr>ob_socket := k\<rparr>))"

definition outbound_poll_close ::
  "('k, 'z) framed_ops_scheme \<Rightarrow> 'k handshake_outbound_substream
     \<Rightarrow> (io_error + unit) poll \<times> 'k handshake_outbound_substream" where
  "outbound_poll_close F s =
     (case fr_poll_close F (ob_socket s) of (r, k) \<Rightarrow> (r, s\<lparr>ob_socket := k\<rparr>))"

section \<open>A log of what is sent, and runs of an inbound substream\<close>

text \<open>
  Any framed socket, with a log of the items handed to \<open>start_send\<close> kept beside its state.
\<close>

definition logged :: "'k framed_ops \<Rightarrow> ('k \<times> bytes list) framed_ops" where
  "logged F =
     \<lparr>fr_poll_ready = (\<lambda>(k, l). case fr_poll_ready F k of (r, k') \<Rightarrow> (r, (k', l))),
      fr_start_send = (\<lambda>h (k, l). case fr_start_send F h k of (r, k') \<Rightarrow> (r, (k', l @ [h]))),
      fr_poll_flush = (\<lambda>(k, l). case fr_poll_flush F k of (r, k') \<Rightarrow> (r, (k', l))),
      fr_poll_next = (\<lambda>(k, l). case fr_poll_next F k of (r, k') \<Rightarrow> (r, (k', l))),
      fr_poll_close = (\<lambda>(k, l). case fr_poll_close F k of (r, k') \<Rightarrow> (r, (k', l)))\<rparr>"

abbreviation sent_log :: "('k \<times> bytes list) handshake_inbound_substream \<Rightarrow> bytes list" where
  "sent_log s \<equiv> snd (ib_socket s)"

datatype inbound_call = SetHandshake bytes | PollProcess | PollNext

fun inbound_call_step ::
  "('k, 'z) framed_ops_scheme \<Rightarrow> inbound_call \<Rightarrow> 'k handshake_inbound_substream
     \<Rightarrow> 'k handshake_inbound_substream" where
  "inbound_call_step F (SetHandshake h) s = set_handshake h s"
| "inbound_call_step F PollProcess s = snd (poll_process F s)"
| "inbound_call_step F PollNext s = snd (inbound_poll_next F s)"

definition inbound_run ::
  "('k, 'z) framed_ops_scheme \<Rightarrow> inbound_call list \<Rightarrow> 'k handshake_inbound_substream
     \<Rightarrow> 'k handshake_inbound_substream" where
  "inbound_run F calls s = fold (inbound_call_step F) calls s"

text \<open>The handshakes a list of calls asks to send, in order.\<close>

definition handshakes_set :: "inbound_call list \<Rightarrow> bytes list" where
  "handshakes_set calls =
     concat (map (\<lambda>c. case c of SetHandshake h \<Rightarrow> [h] | _ \<Rightarrow> []) calls)"

text \<open>Where an inbound substream stands after \<open>hs\<close> were asked for.\<close>

definition inbound_phase ::
  "bytes list \<Rightarrow> ('k \<times> bytes list) handshake_inbound_substream \<Rightarrow> bool" where
  "inbound_phase hs s \<longleftrightarrow>
     (case hs of
        [] \<Rightarrow> ib_state s = Waiting \<and> sent_log s = []
      | h # _ \<Rightarrow>
          (ib_state s = Sending h \<and> sent_log s = [])
          \<or> (ib_state s \<in> {Flush, Done, NeedsClose, FullyClosed} \<and> sent_log s = [h]))"

lemma logged_simps [simp]:
  "fr_poll_ready (logged F) k = (fst (fr_poll_ready F (fst k)), (snd (fr_poll_ready F (fst k)), snd k))"
  "fr_start_send (logged F) h k =
     (fst (fr_start_send F h (fst k)), (snd (fr_start_send F h (fst k)), snd k @ [h]))"
  "fr_poll_flush (logged F) k = (fst (fr_poll_flush F (fst k)), (snd (fr_poll_flush F (fst k)), snd k))"
  "fr_poll_next (logged F) k = (fst (fr_poll_next F (fst k)), (snd (fr_poll_next F (fst k)), snd k))"
  "fr_poll_close (logged F) k = (fst (fr_poll_close F (fst k)), (snd (fr_poll_close F (fst k)), snd k))"
  by (simp_all add: logged_def case_prod_beta)

lemmas round_splits = handshake_inbound_substream_state.splits prod.splits poll.splits
  sum.splits option.splits

lemma process_round_phase:
  assumes "inbound_phase hs t"
  shows "process_round (logged F) t = Inr t' \<Longrightarrow> inbound_phase hs t'"
    and "process_round (logged F) t = Inl (r, t') \<Longrightarrow> inbound_phase hs t'"
  using assms
  by (auto simp: process_round_def inbound_phase_def split: round_splits list.splits)

lemma next_round_phase:
  assumes "inbound_phase hs t"
  shows "next_round (logged F) t = Inr t' \<Longrightarrow> inbound_phase hs t'"
    and "next_round (logged F) t = Inl (r, t') \<Longrightarrow> inbound_phase hs t'
      \<and> (\<forall>m. r = Ready (Some (Inr m)) \<longrightarrow> hs \<noteq> [] \<and> sent_log t' = [hd hs])"
  using assms
  by (auto simp: next_round_def inbound_phase_def split: round_splits list.splits)

lemma poll_process_phase:
  "poll_process (logged F) s = (r, s') \<Longrightarrow> inbound_phase hs s \<Longrightarrow> inbound_phase hs s'"
  by (rule poll_process_rule [where I = "inbound_phase hs"]) (auto dest: process_round_phase)

lemma inbound_poll_next_phase:
  "inbound_poll_next (logged F) s = (r, s') \<Longrightarrow> inbound_phase hs s \<Longrightarrow>
     inbound_phase hs s' \<and> (\<forall>m. r = Ready (Some (Inr m)) \<longrightarrow> hs \<noteq> [] \<and> sent_log s' = [hd hs])"
  by (rule inbound_poll_next_rule [where I = "inbound_phase hs"]) (auto dest: next_round_phase)

lemma set_handshake_phase: "inbound_phase hs s \<Longrightarrow> inbound_phase (hs @ [h]) (set_handshake h s)"
  by (auto simp: inbound_phase_def set_handshake_def
        split: handshake_inbound_substream_state.splits list.splits)

lemma inbound_run_phase:
  "inbound_phase hs s \<Longrightarrow>
     inbound_phase (hs @ handshakes_set calls) (inbound_run (logged F) calls s)"
proof (induction calls arbitrary: s hs)
  case Nil
  then show ?case by (simp add: inbound_run_def handshakes_set_def)
next
  case (Cons c calls)
  let ?new = "case c of SetHandshake h \<Rightarrow> [h] | _ \<Rightarrow> []"
  have "inbound_phase (hs @ ?new) (inbound_call_step (logged F) c s)"
  proof (cases c)
    case (SetHandshake h)
    then show ?thesis using Cons.prems by (simp add: set_handshake_phase)
  next
    case PollProcess
    then show ?thesis
      using poll_process_phase [OF prod.collapse [symmetric] Cons.prems] by simp
  next
    case PollNext
    then show ?thesis
      using inbound_poll_next_phase [OF prod.collapse [symmetric] Cons.prems] by simp
  qed
  from Cons.IH [OF this] show ?case
    by (simp add: inbound_run_def handshakes_set_def)
qed

section \<open>A reliable byte stream\<close>

text \<open>
  What the documentation of the socket and of the varint functions promises, for sockets of
  state type \<open>'s\<close> whose unread input is \<open>inp\<close> and whose written output is \<open>outp\<close>: writes
  append, \<open>read_exact\<close> takes what is asked for when it is there, and reading a varint takes
  exactly what \<open>encode_usize\<close> wrote. Lengths are \<open>usize\<close>, so below \<open>2 ^ 64\<close>.
\<close>

definition byte_stream ::
  "('s, 'z) stream_ops_scheme \<Rightarrow> (nat \<Rightarrow> bytes) \<Rightarrow> ('s \<Rightarrow> bytes) \<Rightarrow> ('s \<Rightarrow> bytes) \<Rightarrow> bool" where
  "byte_stream S encode_usize inp outp \<longleftrightarrow>
     (\<forall>b s. \<exists>s'. st_write_all S b s = (Inr (), s') \<and> inp s' = inp s \<and> outp s' = outp s @ b)
     \<and> (\<forall>s. \<exists>s'. st_flush S s = (Inr (), s') \<and> inp s' = inp s \<and> outp s' = outp s)
     \<and> (\<forall>n s. n \<le> length (inp s) \<longrightarrow>
          (\<exists>s'. st_read_exact S n s = (Inr (take n (inp s)), s')
             \<and> inp s' = drop n (inp s) \<and> outp s' = outp s))
     \<and> (\<forall>n s rest. n < 2 ^ 64 \<longrightarrow> inp s = encode_usize n @ rest \<longrightarrow>
          (\<exists>s'. st_read_usize S s = (Inr n, s') \<and> inp s' = rest \<and> outp s' = outp s))"

lemma byte_stream_read_handshake:
  assumes "byte_stream S enc inp outp"
    and "length h \<le> MAX_HANDSHAKE_SIZE"
    and "inp s = enc (length h) @ h @ rest"
  shows "\<exists>s'. read_handshake S s = Inr (h, s') \<and> inp s' = rest \<and> outp s' = outp s"
proof -
  from assms(2) have "length h < 2 ^ 64" by (simp add: MAX_HANDSHAKE_SIZE_def)
  with assms(1,3) obtain s1 where
    s1: "st_read_usize S s = (Inr (length h), s1)" "inp s1 = h @ rest" "outp s1 = outp s"
    unfolding byte_stream_def by blast
  show ?thesis
  proof (cases "h = []")
    case True
    with s1 show ?thesis by (simp add: read_handshake_def)
  next
    case False
    from s1(2) have "length h \<le> length (inp s1)" by simp
    with assms(1) obtain s2 where
      s2: "st_read_exact S (length h) s1 = (Inr (take (length h) (inp s1)), s2)"
        "inp s2 = drop (length h) (inp s1)" "outp s2 = outp s1"
      unfolding byte_stream_def by blast
    with s1 False assms(2) show ?thesis
      by (simp add: read_handshake_def)
  qed
qed

lemma byte_stream_upgrade_outbound:
  assumes "byte_stream S enc inp outp"
    and "length h \<le> MAX_HANDSHAKE_SIZE"
    and "inp s = enc (length h) @ h @ rest"
  shows "\<exists>s'. upgrade_outbound S enc fr u s nm =
             Inr \<lparr>hoo_handshake = h, hoo_substream = \<lparr>ob_socket = fr s'\<rparr>\<rparr>
           \<and> inp s' = rest
           \<and> outp s' = outp s @ enc (length (ho_handshake u)) @ ho_handshake u"
proof -
  let ?l = "enc (length (ho_handshake u))"
  obtain s1 where s1: "st_write_all S ?l s = (Inr (), s1)" "inp s1 = inp s" "outp s1 = outp s @ ?l"
    using assms(1) unfolding byte_stream_def by blast
  obtain s2 where s2: "st_write_all S (ho_handshake u) s1 = (Inr (), s2)" "inp s2 = inp s1"
      "outp s2 = outp s1 @ ho_handshake u"
    using assms(1) unfolding byte_stream_def by blast
  obtain s3 where s3: "st_flush S s2 = (Inr (), s3)" "inp s3 = inp s2" "outp s3 = outp s2"
    using assms(1) unfolding byte_stream_def by blast
  from s1 s2 s3 assms(3) have "inp s3 = enc (length h) @ h @ rest" by simp
  from byte_stream_read_handshake [OF assms(1,2) this] obtain s4 where
    "read_handshake S s3 = Inr (h, s4)" "inp s4 = rest" "outp s4 = outp s3" by blast
  with s1 s2 s3 show ?thesis
    by (auto simp: upgrade_outbound_def)
qed

lemma byte_stream_upgrade_inbound:
  assumes "byte_stream S enc inp outp"
    and "length h \<le> MAX_HANDSHAKE_SIZE"
    and "inp s = enc (length h) @ h @ rest"
  shows "\<exists>s'. upgrade_inbound S fr u s nm =
             Inr \<lparr>hio_handshake = h, hio_substream =
               \<lparr>ib_socket = fr s', ib_state = Waiting, ib_negotiated_name = nm\<rparr>\<rparr>
           \<and> inp s' = rest \<and> outp s' = outp s"
  using byte_stream_read_handshake [OF assms] by (auto simp: upgrade_inbound_def)

section \<open>Properties\<close>

text \<open>
  C8. An inbound substream fresh from its upgrade sends at most one handshake over any sequence
  of \<open>set_handshake\<close>, \<open>poll_process\<close> and \<open>poll_next\<close> calls: nothing before the first
  \<open>set_handshake\<close>, and only the first handshake set. A message is yielded only once that
  handshake has been sent.
\<close>

theorem handshake_sent_at_most_once:
  assumes "ib_state s = Waiting" and "sent_log s = []"
    and "t = inbound_run (logged F) calls s"
  shows "prefix (sent_log t) (take 1 (handshakes_set calls))
    \<and> (\<forall>m. fst (inbound_poll_next (logged F) t) = Ready (Some (Inr m)) \<longrightarrow>
          sent_log (snd (inbound_poll_next (logged F) t)) = take 1 (handshakes_set calls)
          \<and> handshakes_set calls \<noteq> [])"
proof -
  from assms(1,2) have "inbound_phase [] s" by (simp add: inbound_phase_def)
  from inbound_run_phase [OF this, of calls F] assms(3)
  have ph: "inbound_phase (handshakes_set calls) t" by simp
  then have "prefix (sent_log t) (take 1 (handshakes_set calls))"
    by (auto simp: inbound_phase_def split: list.splits)
  moreover have "fst (inbound_poll_next (logged F) t) = Ready (Some (Inr m)) \<Longrightarrow>
      sent_log (snd (inbound_poll_next (logged F) t)) = take 1 (handshakes_set calls)
      \<and> handshakes_set calls \<noteq> []" for m
    using inbound_poll_next_phase [OF _ ph, of F "fst (inbound_poll_next (logged F) t)"]
    by (cases "handshakes_set calls") (auto simp: prod_eq_iff)
  ultimately show ?thesis by blast
qed

text \<open>An always ready socket that accepts everything and has one message to deliver.\<close>

definition ready_framed :: "bytes list framed_ops" where
  "ready_framed =
     \<lparr>fr_poll_ready = (\<lambda>k. (Ready (Inr ()), k)), fr_start_send = (\<lambda>h k. (Inr (), k)),
      fr_poll_flush = (\<lambda>k. (Ready (Inr ()), k)),
      fr_poll_next = (\<lambda>k. case k of [] \<Rightarrow> (Ready None, k) | m # k' \<Rightarrow> (Ready (Some (Inr m)), k')),
      fr_poll_close = (\<lambda>k. (Ready (Inr ()), k))\<rparr>"

theorem handshake_sent_at_most_once_witness:
  "prefix (sent_log (inbound_run (logged ready_framed)
        [PollNext, SetHandshake [1], SetHandshake [2], PollProcess]
        \<lparr>ib_socket = ([[9]], []), ib_state = Waiting, ib_negotiated_name = ''/x''\<rparr>)) [[1]]"
  using handshake_sent_at_most_once
    [of "\<lparr>ib_socket = ([[9]], []), ib_state = Waiting, ib_negotiated_name = ''/x''\<rparr>"
        _ ready_framed "[PollNext, SetHandshake [1], SetHandshake [2], PollProcess]", OF _ _ refl]
  by (simp add: handshakes_set_def)

text \<open>
  C5. The two-way handshake: over a reliable byte stream, the dialing side's outbound upgrade
  returns the handshake the remote answered with, leaving what follows it unread, and the bytes
  it wrote make the remote's inbound upgrade return the dialer's handshake, again with the rest
  unread. Handshakes of up to 1024 bytes are exchanged.
\<close>

theorem two_way_handshake:
  assumes "byte_stream S enc inp outp"
    and "length (ho_handshake u) \<le> MAX_HANDSHAKE_SIZE" and "length reply \<le> MAX_HANDSHAKE_SIZE"
    and "inp a = enc (length reply) @ reply @ rest" and "outp a = []"
  shows "\<exists>a'. upgrade_outbound S enc fr u a nm =
             Inr \<lparr>hoo_handshake = reply, hoo_substream = \<lparr>ob_socket = fr a'\<rparr>\<rparr>
     \<and> inp a' = rest
     \<and> (\<forall>b more. inp b = outp a' @ more \<longrightarrow>
          (\<exists>b'. upgrade_inbound S fr v b nm' =
                Inr \<lparr>hio_handshake = ho_handshake u, hio_substream =
                  \<lparr>ib_socket = fr b', ib_state = Waiting, ib_negotiated_name = nm'\<rparr>\<rparr>
             \<and> inp b' = more))"
proof -
  obtain a' where a': "upgrade_outbound S enc fr u a nm =
        Inr \<lparr>hoo_handshake = reply, hoo_substream = \<lparr>ob_socket = fr a'\<rparr>\<rparr>"
      "inp a' = rest" "outp a' = enc (length (ho_handshake u)) @ ho_handshake u"
    using byte_stream_upgrade_outbound [OF assms(1,3,4), of fr u nm] assms(5) by auto
  have "\<exists>b'. upgrade_inbound S fr v b nm' =
              Inr \<lparr>hio_handshake = ho_handshake u, hio_substream =
                \<lparr>ib_socket = fr b', ib_state = Waiting, ib_negotiated_name = nm'\<rparr>\<rparr>
           \<and> inp b' = more" if "inp b = outp a' @ more" for b more
    using byte_stream_upgrade_inbound [OF assms(1,2), of b more fr v nm'] that a'(3) by auto
  with a' show ?thesis by blast
qed

text \<open>
  An instance of the parameters: LEB128 varints over an in-memory duplex stream.
\<close>

fun leb_encode :: "nat \<Rightarrow> bytes" where
  "leb_encode n =
     (if n < 128 then [of_nat n] else of_nat (128 + n mod 128) # leb_encode (n div 128))"

fun leb_decode :: "bytes \<Rightarrow> (nat \<times> bytes) option" where
  "leb_decode [] = None"
| "leb_decode (b # bs) =
     (if unat b < 128 then Some (unat b, bs)
      else map_option (\<lambda>(n, rest). (unat b - 128 + 128 * n, rest)) (leb_decode bs))"

declare leb_encode.simps [simp del]

definition duplex_ops :: "(bytes \<times> bytes) stream_ops" where
  "duplex_ops =
     \<lparr>st_read_usize = (\<lambda>(i, w). case leb_decode i of
          None \<Rightarrow> (Inl (ReadIo (IoError ''UnexpectedEof'')), (i, w))
        | Some (n, rest) \<Rightarrow> (Inr n, (rest, w))),
      st_read_exact = (\<lambda>n (i, w).
        if n \<le> length i then (Inr (take n i), (drop n i, w))
        else (Inl (IoError ''UnexpectedEof''), (i, w))),
      st_write_all = (\<lambda>b (i, w). (Inr (), (i, w @ b))),
      st_flush = (\<lambda>s. (Inr (), s))\<rparr>"

lemma leb_roundtrip: "leb_decode (leb_encode n @ rest) = Some (n, rest)"
proof (induction n rule: leb_encode.induct)
  case (1 n)
  show ?case
  proof (cases "n < 128")
    case True
    then show ?thesis
      by (simp add: leb_encode.simps [of n] unat_of_nat take_bit_eq_mod)
  next
    case False
    have "unat (of_nat (128 + n mod 128) :: u8) = 128 + n mod 128"
      by (simp only: unat_of_nat take_bit_eq_mod) simp
    with False 1 show ?thesis
      by (simp add: leb_encode.simps [of n])
  qed
qed

lemma duplex_byte_stream: "byte_stream duplex_ops leb_encode fst snd"
  by (simp add: byte_stream_def duplex_ops_def leb_roundtrip)

theorem two_way_handshake_witness:
  "\<exists>a'. upgrade_outbound duplex_ops leb_encode id \<lparr>ho_name = ''/t'', ho_handshake = [4, 5]\<rparr>
          (leb_encode 1 @ [7] @ [8], []) ''/t''
        = Inr \<lparr>hoo_handshake = [7], hoo_substream = \<lparr>ob_socket = a'\<rparr>\<rparr>
      \<and> fst a' = [8]
      \<and> (\<exists>b'. upgrade_inbound duplex_ops id \<lparr>hi_name = ''/t''\<rparr> (snd a' @ [3], []) ''/t''
           = Inr \<lparr>hio_handshake = [4, 5], hio_substream =
               \<lparr>ib_socket = b', ib_state = Waiting, ib_negotiated_name = ''/t''\<rparr>\<rparr>
           \<and> fst b' = [3])"
proof -
  have "length (ho_handshake \<lparr>ho_name = ''/t'', ho_handshake = [4, 5]\<rparr>) \<le> MAX_HANDSHAKE_SIZE"
    and "length [7 :: u8] \<le> MAX_HANDSHAKE_SIZE"
    and "fst (leb_encode 1 @ [7] @ [8], [] :: bytes) = leb_encode (length [7 :: u8]) @ [7] @ [8]"
    and "snd (leb_encode 1 @ [7] @ [8], [] :: bytes) = []"
    by (simp_all add: MAX_HANDSHAKE_SIZE_def)
  from two_way_handshake [OF duplex_byte_stream this, of id "''/t''" "\<lparr>hi_name = ''/t''\<rparr>" "''/t''"]
  show ?thesis by (fastforce simp: id_def)
qed

text \<open>
  The stream a dialing side reads from: what is left when the length of its handshake and the
  handshake itself are written and flushed.
\<close>

definition greeting_sent ::
  "('s, 'z) stream_ops_scheme \<Rightarrow> (nat \<Rightarrow> bytes) \<Rightarrow> bytes \<Rightarrow> 's \<Rightarrow> 's \<Rightarrow> bool" where
  "greeting_sent S enc h s t \<longleftrightarrow>
     (\<exists>s1 s2. st_write_all S (enc (length h)) s = (Inr (), s1) \<and> st_write_all S h s1 = (Inr (), s2)
        \<and> st_flush S s2 = (Inr (), t))"

lemma upgrade_outbound_greeted:
  "greeting_sent S enc (ho_handshake v) s t \<Longrightarrow> upgrade_outbound S enc fr v s nm =
     map_sum id (\<lambda>(h, t'). \<lparr>hoo_handshake = h, hoo_substream = \<lparr>ob_socket = fr t'\<rparr>\<rparr>) (read_handshake S t)"
  by (auto simp: greeting_sent_def upgrade_outbound_def split: sum.splits prod.splits)

lemma upgrade_outbound_silent:
  assumes "\<nexists>t. greeting_sent S enc (ho_handshake v) s t"
  shows "\<exists>e. upgrade_outbound S enc fr v s nm = Inl (Io e)"
proof -
  obtain r1 s1 r2 s2 r3 s3 where w: "st_write_all S (enc (length (ho_handshake v))) s = (r1, s1)"
      "st_write_all S (ho_handshake v) s1 = (r2, s2)" "st_flush S s2 = (r3, s3)"
    by (metis surj_pair)
  with assms have "\<not> (r1 = Inr () \<and> r2 = Inr () \<and> r3 = Inr ())"
    by (auto simp: greeting_sent_def)
  with w show ?thesis
    by (cases r1; cases r2; cases r3) (simp_all add: upgrade_outbound_def)
qed

text \<open>What is read: the length, and one read of just that many bytes.\<close>

lemma read_handshake_cases:
  shows "st_read_usize S t = (Inl e, t1) \<Longrightarrow> read_handshake S t = Inl (handshake_error_of_read e)"
    and "st_read_usize S t = (Inr n, t1) \<Longrightarrow> MAX_HANDSHAKE_SIZE < n \<Longrightarrow>
      read_handshake S t = Inl (TooLarge n MAX_HANDSHAKE_SIZE)"
    and "read_handshake S t = Inr (h, t2) \<Longrightarrow> \<exists>n t1. st_read_usize S t = (Inr n, t1) \<and> n \<le> MAX_HANDSHAKE_SIZE
      \<and> (if n = 0 then h = [] \<and> t2 = t1 else st_read_exact S n t1 = (Inr h, t2))"
proof -
  show "st_read_usize S t = (Inl e, t1) \<Longrightarrow> read_handshake S t = Inl (handshake_error_of_read e)"
    and "st_read_usize S t = (Inr n, t1) \<Longrightarrow> MAX_HANDSHAKE_SIZE < n \<Longrightarrow>
      read_handshake S t = Inl (TooLarge n MAX_HANDSHAKE_SIZE)"
    by (simp_all add: read_handshake_def)
  assume h: "read_handshake S t = Inr (h, t2)"
  then obtain n t1 where n: "st_read_usize S t = (Inr n, t1)" "n \<le> MAX_HANDSHAKE_SIZE"
    by (auto simp: read_handshake_def split: prod.splits sum.splits if_splits)
  moreover have "if n = 0 then h = [] \<and> t2 = t1 else st_read_exact S n t1 = (Inr h, t2)"
    using h n by (cases "st_read_exact S n t1") (simp add: read_handshake_def split: sum.splits if_splits)
  ultimately show "\<exists>n t1. st_read_usize S t = (Inr n, t1) \<and> n \<le> MAX_HANDSHAKE_SIZE
      \<and> (if n = 0 then h = [] \<and> t2 = t1 else st_read_exact S n t1 = (Inr h, t2))"
    by blast
qed

text \<open>
  C26. No handshake above the limit is accepted, on either side. When the remote announces more
  than 1024 bytes both upgrades end in \<open>TooLarge\<close> with the announced length; a length that cannot
  be read ends both in its error; and an upgrade that succeeds has read a length of at most 1024,
  returns a handshake of that length, and leaves the stream as it is after the length and one read
  of exactly the announced bytes (none for an empty handshake). The outbound upgrade reads after
  it has sent its own handshake; if it cannot send that, it ends in an i/o error.
\<close>

theorem handshake_size_bounded:
  assumes exact: "\<forall>n s bs s'. st_read_exact S n s = (Inr bs, s') \<longrightarrow> length bs = n"
  shows "(\<forall>n t. st_read_usize S s = (Inr n, t) \<longrightarrow> MAX_HANDSHAKE_SIZE < n \<longrightarrow>
            upgrade_inbound S fr u s nm = Inl (TooLarge n MAX_HANDSHAKE_SIZE))
    \<and> (\<forall>e t. st_read_usize S s = (Inl e, t) \<longrightarrow>
            upgrade_inbound S fr u s nm = Inl (handshake_error_of_read e))
    \<and> (\<forall>i. upgrade_inbound S fr u s nm = Inr i \<longrightarrow>
            (\<exists>n t. st_read_usize S s = (Inr n, t) \<and> n \<le> MAX_HANDSHAKE_SIZE \<and> length (hio_handshake i) = n
              \<and> ib_socket (hio_substream i) = fr (if n = 0 then t else snd (st_read_exact S n t))))
    \<and> (\<forall>n r t. greeting_sent S enc (ho_handshake v) s r \<longrightarrow> st_read_usize S r = (Inr n, t) \<longrightarrow>
            MAX_HANDSHAKE_SIZE < n \<longrightarrow> upgrade_outbound S enc fr' v s nm = Inl (TooLarge n MAX_HANDSHAKE_SIZE))
    \<and> (\<forall>e r t. greeting_sent S enc (ho_handshake v) s r \<longrightarrow> st_read_usize S r = (Inl e, t) \<longrightarrow>
            upgrade_outbound S enc fr' v s nm = Inl (handshake_error_of_read e))
    \<and> (\<forall>i. upgrade_outbound S enc fr' v s nm = Inr i \<longrightarrow>
            (\<exists>r n t. greeting_sent S enc (ho_handshake v) s r \<and> st_read_usize S r = (Inr n, t)
              \<and> n \<le> MAX_HANDSHAKE_SIZE \<and> length (hoo_handshake i) = n
              \<and> ob_socket (hoo_substream i) = fr' (if n = 0 then t else snd (st_read_exact S n t))))
    \<and> ((\<nexists>r. greeting_sent S enc (ho_handshake v) s r) \<longrightarrow>
            (\<exists>e. upgrade_outbound S enc fr' v s nm = Inl (Io e)))"
proof (intro conjI allI impI)
  have rd: "\<exists>n t'. st_read_usize S t = (Inr n, t') \<and> n \<le> MAX_HANDSHAKE_SIZE \<and> length h = n
      \<and> t2 = (if n = 0 then t' else snd (st_read_exact S n t'))" if "read_handshake S t = Inr (h, t2)" for t h t2
    using read_handshake_cases(3) [OF that] exact by (force split: if_splits)
  show "upgrade_inbound S fr u s nm = Inl (TooLarge n MAX_HANDSHAKE_SIZE)"
    if "st_read_usize S s = (Inr n, t)" "MAX_HANDSHAKE_SIZE < n" for n t
    by (simp add: upgrade_inbound_def read_handshake_cases(2) [OF that])
  show "upgrade_inbound S fr u s nm = Inl (handshake_error_of_read e)"
    if "st_read_usize S s = (Inl e, t)" for e t
    by (simp add: upgrade_inbound_def read_handshake_cases(1) [OF that])
  show "upgrade_outbound S enc fr' v s nm = Inl (TooLarge n MAX_HANDSHAKE_SIZE)"
    if "greeting_sent S enc (ho_handshake v) s r" "st_read_usize S r = (Inr n, t)" "MAX_HANDSHAKE_SIZE < n" for n r t
    by (simp add: upgrade_outbound_greeted [OF that(1)] read_handshake_cases(2) [OF that(2,3)])
  show "upgrade_outbound S enc fr' v s nm = Inl (handshake_error_of_read e)"
    if "greeting_sent S enc (ho_handshake v) s r" "st_read_usize S r = (Inl e, t)" for e r t
    by (simp add: upgrade_outbound_greeted [OF that(1)] read_handshake_cases(1) [OF that(2)])
  show "\<exists>e. upgrade_outbound S enc fr' v s nm = Inl (Io e)"
    if "\<nexists>r. greeting_sent S enc (ho_handshake v) s r"
    using that by (rule upgrade_outbound_silent)
  show "\<exists>n t. st_read_usize S s = (Inr n, t) \<and> n \<le> MAX_HANDSHAKE_SIZE \<and> length (hio_handshake i) = n
      \<and> ib_socket (hio_substream i) = fr (if n = 0 then t else snd (st_read_exact S n t))"
    if "upgrade_inbound S fr u s nm = Inr i" for i
    using that rd [of s] by (fastforce simp: upgrade_inbound_def split: sum.splits prod.splits)
  show "\<exists>r n t. greeting_sent S enc (ho_handshake v) s r \<and> st_read_usize S r = (Inr n, t)
      \<and> n \<le> MAX_HANDSHAKE_SIZE \<and> length (hoo_handshake i) = n
      \<and> ob_socket (hoo_substream i) = fr' (if n = 0 then t else snd (st_read_exact S n t))"
    if i: "upgrade_outbound S enc fr' v s nm = Inr i" for i
  proof -
    obtain r where r: "greeting_sent S enc (ho_handshake v) s r"
      using i upgrade_outbound_silent [of S enc v s fr' nm] by (metis sum.distinct(1))
    from i obtain h t2 where "read_handshake S r = Inr (h, t2)" "i = \<lparr>hoo_handshake = h, hoo_substream = \<lparr>ob_socket = fr' t2\<rparr>\<rparr>"
      unfolding upgrade_outbound_greeted [OF r] by (cases "read_handshake S r") auto
    moreover from rd [OF this(1)] obtain n t' where "st_read_usize S r = (Inr n, t')" "n \<le> MAX_HANDSHAKE_SIZE"
      "length h = n" "t2 = (if n = 0 then t' else snd (st_read_exact S n t'))" by blast
    ultimately show ?thesis
      using r by (intro exI [of _ r] exI [of _ n] exI [of _ t']) simp
  qed
qed

theorem handshake_size_bounded_witness:
  "upgrade_inbound duplex_ops id \<lparr>hi_name = ''/t''\<rparr> (leb_encode 1025, []) ''/t''
     = Inl (TooLarge 1025 MAX_HANDSHAKE_SIZE)
   \<and> upgrade_outbound duplex_ops leb_encode id \<lparr>ho_name = ''/t'', ho_handshake = [4]\<rparr>
       (leb_encode 1025, []) ''/t'' = Inl (TooLarge 1025 MAX_HANDSHAKE_SIZE)"
proof -
  have ex: "\<forall>n s bs s'. st_read_exact duplex_ops n s = (Inr bs, s') \<longrightarrow> length bs = n"
    by (auto simp: duplex_ops_def split: if_splits)
  have rd: "st_read_usize duplex_ops (leb_encode 1025, w) = (Inr 1025, ([], w))" for w
    using leb_roundtrip [of 1025 "[]"] by (simp add: duplex_ops_def)
  have big: "MAX_HANDSHAKE_SIZE < 1025"
    by (simp add: MAX_HANDSHAKE_SIZE_def)
  have sent: "greeting_sent duplex_ops leb_encode (ho_handshake \<lparr>ho_name = ''/t'', ho_handshake = [4]\<rparr>)
      (leb_encode 1025, []) (leb_encode 1025, leb_encode 1 @ [4])"
    by (simp add: greeting_sent_def duplex_ops_def)
  note bounded = handshake_size_bounded [OF ex, where s = "(leb_encode 1025, [])" and fr = id and fr' = id
      and u = "\<lparr>hi_name = ''/t''\<rparr>" and nm = "''/t''" and enc = leb_encode
      and v = "\<lparr>ho_name = ''/t'', ho_handshake = [4]\<rparr>"]
  show ?thesis
    using bounded [THEN conjunct1, rule_format, OF rd big]
      bounded [THEN conjunct2, THEN conjunct2, THEN conjunct2, THEN conjunct1, rule_format, OF sent rd big]
    by (rule conjI)
qed

end
