(* ===== verification/Combine_Upgrades.thy ===== *)
theory Combine_Upgrades
  imports Prelude
begin

text \<open>
  Combination of several protocol upgrades into one (\<open>notifications/upgrades/combine_upgrades.rs\<close>).
  The combined upgrade offers every protocol name of every member, tagged with the member's
  index; negotiating one of them runs that member's upgrade and tags its result with the same
  index. A member is any type \<open>'t\<close> with its \<open>protocol_info\<close> and \<open>upgrade_inbound\<close>.
\<close>

section \<open>Definitions\<close>

record 'd protocol_response =
  pr_data :: 'd
  pr_index :: nat

definition combined_protocol_info ::
  "('t \<Rightarrow> 'info list) \<Rightarrow> 't list \<Rightarrow> 'info protocol_response list" where
  "combined_protocol_info info_of ts =
     concat (map (\<lambda>(index, t). map (\<lambda>d. \<lparr>pr_data = d, pr_index = index\<rparr>) (info_of t))
       (enumerate 0 ts))"

text \<open>
  \<open>upgrade_inbound\<close>: \<open>Vec::remove(info.index)\<close> panics out of range; the future it returns
  carries the index.
\<close>

record 'f future_protocol_response =
  fp_data :: 'f
  fp_index :: nat

definition combined_upgrade_inbound ::
  "('t \<Rightarrow> 'sock \<Rightarrow> 'info \<Rightarrow> 'fut) \<Rightarrow> 't list \<Rightarrow> 'sock \<Rightarrow> 'info protocol_response
     \<Rightarrow> panic + 'fut future_protocol_response" where
  "combined_upgrade_inbound upgrade ts sock info =
     (case nth_opt ts (pr_index info) of
        None \<Rightarrow> Inl (IndexOutOfBounds (pr_index info) (length ts))
      | Some protocol \<Rightarrow>
          Inr \<lparr>fp_data = upgrade protocol sock (pr_data info), fp_index = pr_index info\<rparr>)"

text \<open>\<open>poll_inner\<close> is \<open>Future::poll\<close> of the member's own future.\<close>

definition combined_poll ::
  "('fut \<Rightarrow> ('err + 'out) poll \<times> 'fut) \<Rightarrow> 'fut future_protocol_response
     \<Rightarrow> ('err protocol_response + 'out protocol_response) poll \<times> 'fut future_protocol_response" where
  "combined_poll poll_inner f =
     (case poll_inner (fp_data f) of
        (Ready (Inr v), d) \<Rightarrow>
          (Ready (Inr \<lparr>pr_data = v, pr_index = fp_index f\<rparr>), f\<lparr>fp_data := d\<rparr>)
      | (Ready (Inl e), d) \<Rightarrow>
          (Ready (Inl \<lparr>pr_data = e, pr_index = fp_index f\<rparr>), f\<lparr>fp_data := d\<rparr>)
      | (Pending, d) \<Rightarrow> (Pending, f\<lparr>fp_data := d\<rparr>))"

section \<open>Lemmas\<close>

lemma combined_protocol_info_mem:
  "r \<in> set (combined_protocol_info info_of ts) \<longleftrightarrow>
     pr_index r < length ts \<and> pr_data r \<in> set (info_of (ts ! pr_index r))"
proof -
  have "r \<in> set (combined_protocol_info info_of ts) \<longleftrightarrow>
      (\<exists>i < length ts. \<exists>d \<in> set (info_of (ts ! i)). r = \<lparr>pr_data = d, pr_index = i\<rparr>)"
    by (force simp: combined_protocol_info_def in_set_enumerate_eq)
  then show ?thesis
    by (cases r) auto
qed

lemma combined_poll_index:
  "combined_poll p f = (res, f') \<Longrightarrow>
     fp_index f' = fp_index f
     \<and> (\<forall>v. res = Ready (Inr v) \<longrightarrow> pr_index v = fp_index f)
     \<and> (\<forall>e. res = Ready (Inl e) \<longrightarrow> pr_index e = fp_index f)"
  by (auto simp: combined_poll_def split: prod.splits poll.splits sum.splits)

text \<open>
  Whatever the combined upgrade offers can be negotiated without a panic, and both the
  member that is run and the index carried by its future are the ones the offered name belongs
  to.
\<close>

theorem combined_upgrade_dispatch:
  assumes "r \<in> set (combined_protocol_info info_of ts)"
  shows "pr_data r \<in> set (info_of (ts ! pr_index r))
    \<and> combined_upgrade_inbound upgrade ts sock r =
        Inr \<lparr>fp_data = upgrade (ts ! pr_index r) sock (pr_data r), fp_index = pr_index r\<rparr>"
  using assms by (simp add: combined_protocol_info_mem combined_upgrade_inbound_def)

theorem combined_upgrade_dispatch_witness:
  "\<lparr>pr_data = ''/b'', pr_index = 1\<rparr>
      \<in> set (combined_protocol_info (\<lambda>n. [n]) [''/a'', ''/b''])
   \<and> combined_upgrade_inbound (\<lambda>t (s :: nat) i. (t, s, i)) [''/a'', ''/b''] 7
        \<lparr>pr_data = ''/b'', pr_index = 1\<rparr>
     = Inr \<lparr>fp_data = (''/b'', 7, ''/b''), fp_index = 1\<rparr>"
proof -
  have m: "\<lparr>pr_data = ''/b'', pr_index = 1\<rparr>
      \<in> set (combined_protocol_info (\<lambda>n. [n]) [''/a'', ''/b''])"
    by (simp add: combined_protocol_info_mem)
  show ?thesis
    using m combined_upgrade_dispatch [OF m, of "\<lambda>t (s :: nat) i. (t, s, i)" 7] by simp
qed

end
