(* ===== verification/Messages.thy ===== *)
theory Messages
  imports Rust_Str
begin

text \<open>
  Messages of the notification protocols (\<open>notifications/messages.rs\<close>): the handshake of the
  block-announces protocol and the role byte that every other protocol sends as its handshake.
  Hex decoding, \<open>H256::from_slice\<close> and the SCALE input stream are third-party code and are
  arguments here.
\<close>

section \<open>Block announces handshake\<close>

text \<open>An \<open>H256\<close> is its 32 bytes.\<close>

type_synonym block_hash = bytes

record block_announces_handshake =
  roles :: u8
  best_number :: u32
  best_hash :: block_hash
  genesis_hash :: block_hash

definition from_genesis :: "block_hash \<Rightarrow> block_announces_handshake" where
  "from_genesis g = \<lparr>roles = 4, best_number = 0, best_hash = g, genesis_hash = g\<rparr>"

text \<open>\<open>hex_decode\<close> is \<open>hex::decode\<close>; \<open>from_slice\<close> is \<open>H256::from_slice\<close>, which panics.\<close>

definition from_hex_genesis ::
  "(string \<Rightarrow> 'e + bytes) \<Rightarrow> (bytes \<Rightarrow> panic + block_hash) \<Rightarrow> string
     \<Rightarrow> panic + ('e + block_announces_handshake)" where
  "from_hex_genesis hex_decode from_slice s =
     (case hex_decode (trim_start_matches ''0x'' s) of
        Inl e \<Rightarrow> Inr (Inl e)
      | Inr raw_bytes \<Rightarrow>
          (case from_slice raw_bytes of
             Inl p \<Rightarrow> Inl p
           | Inr g \<Rightarrow> Inr (Inr (from_genesis g))))"

section \<open>Protocol roles\<close>

definition FULL_NODE :: u8 where "FULL_NODE = 0b00000001"
definition LIGHT_NODE :: u8 where "LIGHT_NODE = 0b00000010"
definition AUTHORITY :: u8 where "AUTHORITY = 0b00000100"

datatype protocol_role = FullNode | LightNode | Authority

fun encoded :: "protocol_role \<Rightarrow> u8" where
  "encoded FullNode = FULL_NODE"
| "encoded LightNode = LIGHT_NODE"
| "encoded Authority = AUTHORITY"

text \<open>\<open>Encode::encode_to\<close>: one byte pushed on the output.\<close>

definition encode_to :: "protocol_role \<Rightarrow> (u8 \<Rightarrow> 'out \<Rightarrow> 'out) \<Rightarrow> 'out \<Rightarrow> 'out" where
  "encode_to r push_byte dest = push_byte (encoded r) dest"

text \<open>\<open>Decode::decode\<close> over any input whose \<open>read_byte\<close> yields a byte and the rest.\<close>

datatype codec_error = InputError string | InvalidBytes

definition decode_role ::
  "('i \<Rightarrow> codec_error + u8 \<times> 'i) \<Rightarrow> 'i \<Rightarrow> codec_error + protocol_role \<times> 'i" where
  "decode_role read_byte inp =
     (case read_byte inp of
        Inl e \<Rightarrow> Inl e
      | Inr (b, rest) \<Rightarrow>
          if b = FULL_NODE then Inr (FullNode, rest)
          else if b = LIGHT_NODE then Inr (LightNode, rest)
          else if b = AUTHORITY then Inr (Authority, rest)
          else Inl InvalidBytes)"

lemmas role_bytes [simp] = FULL_NODE_def LIGHT_NODE_def AUTHORITY_def

lemma encoded_inject [simp]: "encoded r = encoded r' \<longleftrightarrow> r = r'"
  by (cases r; cases r') simp_all

lemma decode_role_reads_encoded:
  "decode_role read_byte inp = Inr (r, rest) \<longleftrightarrow> read_byte inp = Inr (encoded r, rest)"
  by (cases r) (auto simp: decode_role_def split: sum.splits if_splits)

text \<open>
  A role decodes from an input exactly when the next byte of the input is that role's
  encoding, and decoding consumes exactly that byte; every other byte is rejected with
  \<open>InvalidBytes\<close>, and an error of the input is passed on unchanged.
\<close>

theorem role_codec_exact:
  "(decode_role read_byte inp = Inr (r, rest)) = (read_byte inp = Inr (encoded r, rest))
   \<and> (decode_role read_byte inp = Inl InvalidBytes) =
       (read_byte inp = Inl InvalidBytes
        \<or> (\<exists>b rest'. read_byte inp = Inr (b, rest') \<and> b \<notin> range encoded))
   \<and> (decode_role read_byte inp = Inl (InputError m)) = (read_byte inp = Inl (InputError m))"
proof -
  have rng: "range encoded = {FULL_NODE, LIGHT_NODE, AUTHORITY}"
  proof
    show "range encoded \<subseteq> {FULL_NODE, LIGHT_NODE, AUTHORITY}"
    proof
      fix b assume "b \<in> range encoded"
      then obtain r where "b = encoded r" by blast
      then show "b \<in> {FULL_NODE, LIGHT_NODE, AUTHORITY}" by (cases r) simp_all
    qed
    show "{FULL_NODE, LIGHT_NODE, AUTHORITY} \<subseteq> range encoded"
      by (metis encoded.simps insert_subset empty_subsetI rangeI)
  qed
  show ?thesis
    unfolding rng
    by (auto simp: decode_role_reads_encoded)
       (auto simp: decode_role_def split: sum.splits if_splits)
qed

text \<open>
  The handshake built from a genesis hash announces the authority role byte although its
  comment calls it a full node: its role byte decodes as \<open>Authority\<close> and never as
  \<open>FullNode\<close>.
\<close>

theorem genesis_handshake_claims_authority:
  "roles (from_genesis g) = encoded Authority \<and> roles (from_genesis g) \<noteq> encoded FullNode
   \<and> best_hash (from_genesis g) = g \<and> genesis_hash (from_genesis g) = g"
  by (simp add: from_genesis_def)

lemma from_hex_genesis_prefix:
  "from_hex_genesis dec sl (''0x'' @ s) = from_hex_genesis dec sl s"
proof -
  have "trim_start_matches ''0x'' (''0x'' @ s) = trim_start_matches ''0x'' s"
    by (rule trim_start_matches_strips) simp
  then show ?thesis by (simp only: from_hex_genesis_def)
qed

end
