(* ===== verification/Handler.thy ===== *)
theory Handler
  imports Event_Source Handshake Combine_Upgrades Messages
begin

text \<open>
  The per-connection handler of the notification protocols (\<open>notifications/handler.rs\<close>): a
  vector of protocols, each with its name, our handshake and a state, and a queue of events for
  the swarm. The operations are the methods of \<open>ConnectionHandler\<close>; each one that indexes
  \<open>self.protocols\<close> panics out of range. The framed sockets and the channel of user messages
  (\<open>futures::channel::mpsc\<close>, peekable) are the operations of \<open>handler_env\<close>.
\<close>

section \<open>State\<close>

datatype from_behaviour = OpenProtocol nat | CloseProtocol nat

text \<open>\<open>'ep\<close> is \<open>ConnectedPoint\<close>, \<open>'tx\<close> the sending half of a channel.\<close>

datatype ('ep, 'tx) to_behaviour =
    HandshakeCompleted nat 'ep bytes bool 'tx
  | HandshakeError nat
  | RemoteDesiresOpen nat
  | CloseDesired nat
  | ProtocolClosed nat
  | Notification nat bytes

datatype ('k, 'rx) protocol_state =
    Closed bool
  | OpenDesiredByRemote "'k handshake_inbound_substream" bool
  | Opening "'k handshake_inbound_substream option" bool
  | Open 'rx "'k handshake_inbound_substream option" "'k handshake_outbound_substream option"

record ('k, 'rx) protocol_details =
  pd_name :: string
  pd_handshake :: bytes
  pd_upgrade :: handshake_inbound
  pd_state :: "('k, 'rx) protocol_state"

text \<open>\<open>ConnectionHandlerEvent\<close>, with the two constructors the handler emits.\<close>

datatype ('ep, 'tx) handler_event =
    NotifyBehaviour "('ep, 'tx) to_behaviour"
  | OutboundSubstreamRequest handshake_outbound nat

record ('k, 'rx, 'tx, 'ep, 'peer) notifications_handler =
  protocols :: "('k, 'rx) protocol_details list"
  pending_events :: "('ep, 'tx) handler_event list"
  endpoint :: 'ep
  handler_peer :: 'peer

record protocols_data =
  data_genesis_hash :: block_hash
  node_role :: protocol_role

section \<open>Construction\<close>

text \<open>
  \<open>hex_encode\<close> is \<open>hex::encode\<close>, \<open>scale_encode\<close> the derived \<open>Encode::encode\<close> of the
  block-announces handshake.
\<close>

definition handler_new ::
  "(bytes \<Rightarrow> string) \<Rightarrow> (block_announces_handshake \<Rightarrow> bytes) \<Rightarrow> 'peer \<Rightarrow> 'ep \<Rightarrow> protocols_data
     \<Rightarrow> ('k, 'rx, 'tx, 'ep, 'peer) notifications_handler" where
  "handler_new hex_encode scale_encode p ep data =
     (let genesis_string = hex_encode (data_genesis_hash data);
          blocks = ''/'' @ genesis_string @ ''/block-announces/1'';
          tx = ''/'' @ genesis_string @ ''/transactions/1'';
          block_announces = from_genesis (data_genesis_hash data)
      in \<lparr>protocols =
            [\<lparr>pd_name = blocks, pd_handshake = scale_encode block_announces,
              pd_upgrade = \<lparr>hi_name = blocks\<rparr>, pd_state = Closed False\<rparr>,
             \<lparr>pd_name = tx, pd_handshake = [encoded (node_role data)],
              pd_upgrade = \<lparr>hi_name = tx\<rparr>, pd_state = Closed False\<rparr>],
          pending_events = [], endpoint = ep, handler_peer = p\<rparr>)"

definition listen_protocol ::
  "('k, 'rx, 'tx, 'ep, 'peer) notifications_handler \<Rightarrow> handshake_inbound list" where
  "listen_protocol h = map pd_upgrade (protocols h)"

section \<open>Events of the connection and of the behaviour\<close>

definition set_state ::
  "nat \<Rightarrow> ('k, 'rx) protocol_state \<Rightarrow> ('k, 'rx, 'tx, 'ep, 'peer) notifications_handler
     \<Rightarrow> ('k, 'rx, 'tx, 'ep, 'peer) notifications_handler" where
  "set_state i st h = h\<lparr>protocols := (protocols h)[i := (protocols h ! i)\<lparr>pd_state := st\<rparr>]\<rparr>"

definition push_back ::
  "('ep, 'tx) handler_event \<Rightarrow> ('k, 'rx, 'tx, 'ep, 'peer) notifications_handler
     \<Rightarrow> ('k, 'rx, 'tx, 'ep, 'peer) notifications_handler" where
  "push_back ev h = h\<lparr>pending_events := pending_events h @ [ev]\<rparr>"

text \<open>\<open>self.protocols[index]\<close>, and what is done with it.\<close>

definition with_protocol ::
  "nat \<Rightarrow> (('k, 'rx) protocol_details \<Rightarrow> ('k, 'rx, 'tx, 'ep, 'peer) notifications_handler)
     \<Rightarrow> ('k, 'rx, 'tx, 'ep, 'peer) notifications_handler
     \<Rightarrow> panic + ('k, 'rx, 'tx, 'ep, 'peer) notifications_handler" where
  "with_protocol i f h =
     (case nth_opt (protocols h) i of
        None \<Rightarrow> Inl (IndexOutOfBounds i (length (protocols h)))
      | Some proto \<Rightarrow> Inr (f proto))"

text \<open>The error of a failed dial is only logged: it is its debug text.\<close>

datatype 'k connection_event =
    FullyNegotiatedInbound "'k handshake_inbound_open protocol_response"
  | FullyNegotiatedOutbound "'k handshake_outbound_open" nat
  | DialUpgradeError nat string
  | OtherConnectionEvent

definition on_negotiated_inbound ::
  "'k handshake_inbound_substream \<Rightarrow> nat \<Rightarrow> ('k, 'rx, 'tx, 'ep, 'peer) notifications_handler
     \<Rightarrow> ('k, 'rx) protocol_details \<Rightarrow> ('k, 'rx, 'tx, 'ep, 'peer) notifications_handler" where
  "on_negotiated_inbound substream index h proto =
     (case pd_state proto of
        Closed pending_opening \<Rightarrow>
          set_state index (OpenDesiredByRemote substream pending_opening)
            (push_back (NotifyBehaviour (RemoteDesiresOpen index)) h)
      | OpenDesiredByRemote _ _ \<Rightarrow> h
      | Opening inbound_substream inbound \<Rightarrow>
          if inbound_substream \<noteq> None then h
          else set_state index
            (Opening (Some (set_handshake (pd_handshake proto) substream)) inbound) h
      | Open recv inbound_substream outbound_substream \<Rightarrow>
          if inbound_substream \<noteq> None then h
          else set_state index
            (Open recv (Some (set_handshake (pd_handshake proto) substream)) outbound_substream) h)"

text \<open>\<open>channel\<close> is \<open>mpsc::channel\<close>, with the peekable receiver.\<close>

definition on_negotiated_outbound ::
  "(nat \<Rightarrow> 'tx \<times> 'rx) \<Rightarrow> 'k handshake_outbound_open \<Rightarrow> nat
     \<Rightarrow> ('k, 'rx, 'tx, 'ep, 'peer) notifications_handler \<Rightarrow> ('k, 'rx) protocol_details
     \<Rightarrow> ('k, 'rx, 'tx, 'ep, 'peer) notifications_handler" where
  "on_negotiated_outbound channel opened index h proto =
     (case pd_state proto of
        Closed _ \<Rightarrow> set_state index (Closed False) h
      | OpenDesiredByRemote inbound_substream _ \<Rightarrow>
          set_state index (OpenDesiredByRemote inbound_substream False) h
      | Opening inbound_substream inbound \<Rightarrow>
          (case channel 1024 of (send, recv) \<Rightarrow>
             push_back (NotifyBehaviour
                 (HandshakeCompleted index (endpoint h) (hoo_handshake opened) inbound send))
               (set_state index (Open recv inbound_substream (Some (hoo_substream opened))) h))
      | Open _ _ _ \<Rightarrow> h)"

definition on_dial_upgrade_error ::
  "nat \<Rightarrow> ('k, 'rx, 'tx, 'ep, 'peer) notifications_handler \<Rightarrow> ('k, 'rx) protocol_details
     \<Rightarrow> ('k, 'rx, 'tx, 'ep, 'peer) notifications_handler" where
  "on_dial_upgrade_error index h proto =
     (case pd_state proto of
        Closed _ \<Rightarrow> set_state index (Closed False) h
      | OpenDesiredByRemote inbound_substream _ \<Rightarrow>
          set_state index (OpenDesiredByRemote inbound_substream False) h
      | Opening _ _ \<Rightarrow>
          push_back (NotifyBehaviour (HandshakeError index)) (set_state index (Closed False) h)
      | Open _ _ _ \<Rightarrow> h)"

definition on_connection_event ::
  "(nat \<Rightarrow> 'tx \<times> 'rx) \<Rightarrow> 'k connection_event
     \<Rightarrow> ('k, 'rx, 'tx, 'ep, 'peer) notifications_handler
     \<Rightarrow> panic + ('k, 'rx, 'tx, 'ep, 'peer) notifications_handler" where
  "on_connection_event channel event h =
     (case event of
        FullyNegotiatedInbound protocol \<Rightarrow>
          with_protocol (pr_index protocol)
            (on_negotiated_inbound (hio_substream (pr_data protocol)) (pr_index protocol) h) h
      | FullyNegotiatedOutbound opened index \<Rightarrow>
          with_protocol index (on_negotiated_outbound channel opened index h) h
      | DialUpgradeError index err \<Rightarrow>
          with_protocol index (on_dial_upgrade_error index h) h
      | OtherConnectionEvent \<Rightarrow> Inr h)"

text \<open>Asking for a substream, unless one has been asked for.\<close>

definition request_substream ::
  "bool \<Rightarrow> nat \<Rightarrow> ('k, 'rx) protocol_details \<Rightarrow> ('k, 'rx, 'tx, 'ep, 'peer) notifications_handler
     \<Rightarrow> ('k, 'rx, 'tx, 'ep, 'peer) notifications_handler" where
  "request_substream pending_opening index proto h =
     (if pending_opening then h
      else push_back (OutboundSubstreamRequest
             \<lparr>ho_name = pd_name proto, ho_handshake = pd_handshake proto\<rparr> index) h)"

definition on_open ::
  "nat \<Rightarrow> ('k, 'rx, 'tx, 'ep, 'peer) notifications_handler \<Rightarrow> ('k, 'rx) protocol_details
     \<Rightarrow> ('k, 'rx, 'tx, 'ep, 'peer) notifications_handler" where
  "on_open index h proto =
     (case pd_state proto of
        Closed pending_opening \<Rightarrow>
          set_state index (Opening None False) (request_substream pending_opening index proto h)
      | OpenDesiredByRemote inbound_substream pending_opening \<Rightarrow>
          set_state index
            (Opening (Some (set_handshake (pd_handshake proto) inbound_substream)) True)
            (request_substream pending_opening index proto h)
      | Opening _ _ \<Rightarrow> h
      | Open _ _ _ \<Rightarrow> h)"

definition on_close ::
  "nat \<Rightarrow> ('k, 'rx, 'tx, 'ep, 'peer) notifications_handler \<Rightarrow> ('k, 'rx) protocol_details
     \<Rightarrow> ('k, 'rx, 'tx, 'ep, 'peer) notifications_handler" where
  "on_close index h proto =
     push_back (NotifyBehaviour (ProtocolClosed index))
       (case pd_state proto of
          Closed _ \<Rightarrow> h
        | OpenDesiredByRemote _ pending_opening \<Rightarrow> set_state index (Closed pending_opening) h
        | Opening _ _ \<Rightarrow>
            push_back (NotifyBehaviour (HandshakeError index)) (set_state index (Closed True) h)
        | Open _ _ _ \<Rightarrow> set_state index (Closed False) h)"

definition on_behaviour_event ::
  "from_behaviour \<Rightarrow> ('k, 'rx, 'tx, 'ep, 'peer) notifications_handler
     \<Rightarrow> panic + ('k, 'rx, 'tx, 'ep, 'peer) notifications_handler" where
  "on_behaviour_event message h =
     (case message of
        OpenProtocol index \<Rightarrow> with_protocol index (on_open index h) h
      | CloseProtocol index \<Rightarrow> with_protocol index (on_close index h) h)"

definition is_closed :: "('k, 'rx) protocol_state \<Rightarrow> bool" where
  "is_closed st = (case st of Closed _ \<Rightarrow> True | _ \<Rightarrow> False)"

definition connection_keep_alive ::
  "('k, 'rx, 'tx, 'ep, 'peer) notifications_handler \<Rightarrow> bool" where
  "connection_keep_alive h = list_ex (\<lambda>p. \<not> is_closed (pd_state p)) (protocols h)"

section \<open>Polling\<close>

record ('k, 'rx) handler_env =
  framed :: "'k framed_ops"
  rx_poll_peek :: "'rx \<Rightarrow> bytes option poll \<times> 'rx"
  rx_poll_next :: "'rx \<Rightarrow> bytes option poll \<times> 'rx"
  debug_assertions :: bool

text \<open>
  The loop that forwards user messages to one outbound substream. The value \<open>None\<close> stands for
  a loop that does not end. The loop ignores an error of \<open>poll_ready\<close> and of
  \<open>start_send\<close>; its \<open>debug_assert!(false)\<close> panics in builds with debug assertions.
\<close>

partial_function (option) forward_loop ::
  "('k, 'rx) handler_env \<Rightarrow> 'rx \<Rightarrow> 'k handshake_outbound_substream
     \<Rightarrow> (panic + 'rx \<times> 'k handshake_outbound_substream) option" where
  "forward_loop E recv outbound =
     (case rx_poll_peek E recv of
        (Ready (Some _), recv1) \<Rightarrow>
          (case outbound_poll_ready (framed E) outbound of
             (Pending, outbound1) \<Rightarrow> Some (Inr (recv1, outbound1))
           | (Ready _, outbound1) \<Rightarrow>
               (case rx_poll_next E recv1 of
                  (Ready (Some message), recv2) \<Rightarrow>
                    (case outbound_start_send (framed E) message outbound1 of
                       (_, outbound2) \<Rightarrow> forward_loop E recv2 outbound2)
                | (_, recv2) \<Rightarrow>
                    if debug_assertions E then Some (Inl (AssertFailed ''debug_assert''))
                    else Some (Inr (recv2, outbound1))))
      | (_, recv1) \<Rightarrow> Some (Inr (recv1, outbound)))"

fun forward_protocols ::
  "('k, 'rx) handler_env \<Rightarrow> ('k, 'rx) protocol_details list
     \<Rightarrow> (panic + ('k, 'rx) protocol_details list) option" where
  "forward_protocols E [] = Some (Inr [])"
| "forward_protocols E (p # ps) =
     (case (case pd_state p of
              Open recv inbound_substream (Some outbound) \<Rightarrow>
                (case forward_loop E recv outbound of
                   None \<Rightarrow> None
                 | Some (Inl e) \<Rightarrow> Some (Inl e)
                 | Some (Inr (recv', outbound')) \<Rightarrow>
                     Some (Inr (p\<lparr>pd_state := Open recv' inbound_substream (Some outbound')\<rparr>)))
            | _ \<Rightarrow> Some (Inr p)) of
        None \<Rightarrow> None
      | Some (Inl e) \<Rightarrow> Some (Inl e)
      | Some (Inr p') \<Rightarrow>
          (case forward_protocols E ps of
             None \<Rightarrow> None
           | Some (Inl e) \<Rightarrow> Some (Inl e)
           | Some (Inr ps') \<Rightarrow> Some (Inr (p' # ps'))))"

text \<open>
  The flushing pass and the inbound pass visit the protocols in order and return at the first
  event, leaving the later protocols alone; \<open>index\<close> is the position of the first of them.
\<close>

fun flush_protocols ::
  "('k, 'rx) handler_env \<Rightarrow> nat \<Rightarrow> ('k, 'rx) protocol_details list
     \<Rightarrow> ('ep, 'tx) handler_event option \<times> ('k, 'rx) protocol_details list" where
  "flush_protocols E index [] = (None, [])"
| "flush_protocols E index (p # ps) =
     (case pd_state p of
        Open recv inbound_substream (Some outbound) \<Rightarrow>
          (case outbound_poll_flush (framed E) outbound of
             (Ready (Inl _), _) \<Rightarrow>
               (Some (NotifyBehaviour (CloseDesired index)),
                p\<lparr>pd_state := Open recv inbound_substream None\<rparr> # ps)
           | (_, outbound') \<Rightarrow>
               (case flush_protocols E (Suc index) ps of (ev, ps') \<Rightarrow>
                  (ev, p\<lparr>pd_state := Open recv inbound_substream (Some outbound')\<rparr> # ps')))
      | _ \<Rightarrow> (case flush_protocols E (Suc index) ps of (ev, ps') \<Rightarrow> (ev, p # ps')))"

definition poll_inbound ::
  "('k, 'rx) handler_env \<Rightarrow> nat \<Rightarrow> ('k, 'rx) protocol_state
     \<Rightarrow> ('ep, 'tx) handler_event option \<times> ('k, 'rx) protocol_state" where
  "poll_inbound E index st =
     (case st of
        Open recv (Some inbound_substream) outbound \<Rightarrow>
          (case inbound_poll_next (framed E) inbound_substream of
             (Pending, s) \<Rightarrow> (None, Open recv (Some s) outbound)
           | (Ready (Some (Inr message)), s) \<Rightarrow>
               (Some (NotifyBehaviour (Notification index message)), Open recv (Some s) outbound)
           | (Ready None, _) \<Rightarrow> (None, Open recv None outbound)
           | (Ready (Some (Inl _)), _) \<Rightarrow> (None, Open recv None outbound))
      | OpenDesiredByRemote inbound_substream pending_opening \<Rightarrow>
          (case poll_process (framed E) inbound_substream of
             (Pending, s) \<Rightarrow> (None, OpenDesiredByRemote s pending_opening)
           | (Ready _, _) \<Rightarrow>
               (Some (NotifyBehaviour (CloseDesired index)), Closed pending_opening))
      | Opening (Some inbound_substream) inbound \<Rightarrow>
          (case poll_process (framed E) inbound_substream of
             (Pending, s) \<Rightarrow> (None, Opening (Some s) inbound)
           | (Ready _, _) \<Rightarrow> (None, Opening None inbound))
      | _ \<Rightarrow> (None, st))"

fun inbound_protocols ::
  "('k, 'rx) handler_env \<Rightarrow> nat \<Rightarrow> ('k, 'rx) protocol_details list
     \<Rightarrow> ('ep, 'tx) handler_event option \<times> ('k, 'rx) protocol_details list" where
  "inbound_protocols E index [] = (None, [])"
| "inbound_protocols E index (p # ps) =
     (case poll_inbound E index (pd_state p) of
        (Some ev, st) \<Rightarrow> (Some ev, p\<lparr>pd_state := st\<rparr> # ps)
      | (None, st) \<Rightarrow>
          (case inbound_protocols E (Suc index) ps of (ev, ps') \<Rightarrow>
             (ev, p\<lparr>pd_state := st\<rparr> # ps')))"

definition handler_poll ::
  "('k, 'rx) handler_env \<Rightarrow> ('k, 'rx, 'tx, 'ep, 'peer) notifications_handler
     \<Rightarrow> (panic + ('ep, 'tx) handler_event poll
            \<times> ('k, 'rx, 'tx, 'ep, 'peer) notifications_handler) option" where
  "handler_poll E h =
     (case pending_events h of
        ev # rest \<Rightarrow> Some (Inr (Ready ev, h\<lparr>pending_events := rest\<rparr>))
      | [] \<Rightarrow>
          (case forward_protocols E (protocols h) of
             None \<Rightarrow> None
           | Some (Inl e) \<Rightarrow> Some (Inl e)
           | Some (Inr ps1) \<Rightarrow>
               (case flush_protocols E 0 ps1 of
                  (Some ev, ps2) \<Rightarrow> Some (Inr (Ready ev, h\<lparr>protocols := ps2\<rparr>))
                | (None, ps2) \<Rightarrow>
                    (case inbound_protocols E 0 ps2 of
                       (Some ev, ps3) \<Rightarrow> Some (Inr (Ready ev, h\<lparr>protocols := ps3\<rparr>))
                     | (None, ps3) \<Rightarrow> Some (Inr (Pending, h\<lparr>protocols := ps3\<rparr>))))))"

section \<open>Basic facts\<close>

lemma push_back_simps [simp]:
  "protocols (push_back ev h) = protocols h"
  "pending_events (push_back ev h) = pending_events h @ [ev]"
  "endpoint (push_back ev h) = endpoint h"
  by (simp_all add: push_back_def)

lemma set_state_simps [simp]:
  "length (protocols (set_state i st h)) = length (protocols h)"
  "pending_events (set_state i st h) = pending_events h"
  "endpoint (set_state i st h) = endpoint h"
  by (simp_all add: set_state_def)

lemma set_state_nth [simp]:
  "j < length (protocols h) \<Longrightarrow>
     protocols (set_state i st h) ! j =
       (if j = i then (protocols h ! j)\<lparr>pd_state := st\<rparr> else protocols h ! j)"
  by (simp add: set_state_def nth_list_update)

lemma request_substream_simps [simp]:
  "protocols (request_substream b i p h) = protocols h"
  "pending_events (request_substream b i p h) = pending_events h @
     (if b then [] else
        [OutboundSubstreamRequest \<lparr>ho_name = pd_name p, ho_handshake = pd_handshake p\<rparr> i])"
  by (simp_all add: request_substream_def)

lemma with_protocol_eq_Inr:
  "with_protocol i f h = Inr h' \<longleftrightarrow> i < length (protocols h) \<and> h' = f (protocols h ! i)"
  by (auto simp: with_protocol_def nth_opt_def)

lemma with_protocol_eq_Inl:
  "with_protocol i f h = Inl e \<longleftrightarrow>
     length (protocols h) \<le> i \<and> e = IndexOutOfBounds i (length (protocols h))"
  by (auto simp: with_protocol_def nth_opt_def)

section \<open>Phases of a protocol\<close>

text \<open>
  The state without its sockets and channels: what the rest of the program can rely on. The
  flag says that a substream has been asked for and not yet been answered.
\<close>

datatype phase = PClosed bool | PDesired bool | POpening | POpen

fun phase_of :: "('k, 'rx) protocol_state \<Rightarrow> phase" where
  "phase_of (Closed pending_opening) = PClosed pending_opening"
| "phase_of (OpenDesiredByRemote _ pending_opening) = PDesired pending_opening"
| "phase_of (Opening _ _) = POpening"
| "phase_of (Open _ _ _) = POpen"

fun awaits :: "phase \<Rightarrow> bool" where
  "awaits (PClosed pending_opening) = pending_opening"
| "awaits (PDesired pending_opening) = pending_opening"
| "awaits POpening = True"
| "awaits POpen = False"

text \<open>What a pass of \<open>poll\<close> may do to one protocol.\<close>

definition polled_to :: "('k, 'rx) protocol_details \<Rightarrow> ('k, 'rx) protocol_details \<Rightarrow> bool" where
  "polled_to p p' \<longleftrightarrow>
     (\<exists>st. p' = p\<lparr>pd_state := st\<rparr>
        \<and> (phase_of st = phase_of (pd_state p)
           \<or> (\<exists>b. phase_of (pd_state p) = PDesired b \<and> phase_of st = PClosed b)))"

lemma polled_to_refl [simp, intro]: "polled_to p p"
  by (simp add: polled_to_def) (metis (no_types, lifting) protocol_details.surjective
      protocol_details.update_convs(4))

lemma polled_to_same [intro]:
  "phase_of st = phase_of (pd_state p) \<Longrightarrow> polled_to p (p\<lparr>pd_state := st\<rparr>)"
  by (auto simp: polled_to_def)

lemma polled_to_trans: "polled_to p q \<Longrightarrow> polled_to q r \<Longrightarrow> polled_to p r"
  by (auto simp: polled_to_def)

lemma polled_to_awaits:
  "polled_to p p' \<Longrightarrow> awaits (phase_of (pd_state p')) = awaits (phase_of (pd_state p))"
  by (auto simp: polled_to_def)

lemma polled_to_fields:
  "polled_to p p' \<Longrightarrow>
     pd_name p' = pd_name p \<and> pd_handshake p' = pd_handshake p \<and> pd_upgrade p' = pd_upgrade p"
  by (auto simp: polled_to_def)

lemma polled_list_refl [simp]: "list_all2 polled_to ps ps"
  by (simp add: list_all2_refl)

lemma forward_protocols_polled:
  "forward_protocols E ps = Some (Inr ps') \<Longrightarrow> list_all2 polled_to ps ps'"
proof (induction ps arbitrary: ps')
  case (Cons p ps)
  then show ?case
    by (auto split: option.splits sum.splits protocol_state.splits prod.splits
        intro!: polled_to_same)
qed simp

text \<open>The events \<open>poll\<close> produces of itself, for the protocols it visits.\<close>

definition poll_event :: "nat \<Rightarrow> nat \<Rightarrow> ('ep, 'tx) handler_event \<Rightarrow> bool" where
  "poll_event lo hi ev \<longleftrightarrow>
     (\<exists>i. lo \<le> i \<and> i < hi \<and> (ev = NotifyBehaviour (CloseDesired i)
        \<or> (\<exists>m. ev = NotifyBehaviour (Notification i m))))"

lemma poll_event_mono: "poll_event (Suc lo) hi ev \<Longrightarrow> poll_event lo hi ev"
  by (auto simp: poll_event_def)

lemma flush_protocols_polled:
  fixes ev :: "('ep, 'tx) handler_event option"
  shows "flush_protocols E k ps = (ev, ps') \<Longrightarrow>
     list_all2 polled_to ps ps' \<and> (\<forall>e. ev = Some e \<longrightarrow> poll_event k (k + length ps) e)"
proof (induction ps arbitrary: k ev ps')
  case (Cons p ps)
  obtain ev1 :: "('ep, 'tx) handler_event option" and ps1 where rest: "flush_protocols E (Suc k) ps = (ev1, ps1)"
    by (metis surj_pair)
  from Cons.IH [OF rest] have IH: "list_all2 polled_to ps ps1"
    "\<And>e. ev1 = Some e \<Longrightarrow> poll_event k (k + Suc (length ps)) e"
    by (auto intro: poll_event_mono)
  show ?case
    using Cons.prems rest IH
    by (auto split: protocol_state.splits option.splits prod.splits poll.splits sum.splits
        intro!: polled_to_same simp: poll_event_def)
qed simp

lemma polled_to_iff:
  "polled_to p (p\<lparr>pd_state := st\<rparr>) \<longleftrightarrow> phase_of st = phase_of (pd_state p)
     \<or> (\<exists>b. phase_of (pd_state p) = PDesired b \<and> phase_of st = PClosed b)"
  by (auto simp: polled_to_def dest: arg_cong [where f = pd_state])

lemma poll_inbound_phase:
  "poll_inbound E k st = (ev, st') \<Longrightarrow>
     (phase_of st' = phase_of st \<or> (\<exists>b. phase_of st = PDesired b \<and> phase_of st' = PClosed b))
     \<and> (\<forall>e. ev = Some e \<longrightarrow> poll_event k (Suc k) e)"
  by (cases st)
    (auto simp: poll_inbound_def poll_event_def
      split: option.splits prod.splits poll.splits sum.splits)

lemma poll_inbound_polled:
  "poll_inbound E k (pd_state p) = (ev, st') \<Longrightarrow>
     polled_to p (p\<lparr>pd_state := st'\<rparr>) \<and> (\<forall>e. ev = Some e \<longrightarrow> poll_event k (Suc k) e)"
  using poll_inbound_phase by (simp add: polled_to_iff)

lemma inbound_protocols_polled:
  fixes ev :: "('ep, 'tx) handler_event option"
  shows "inbound_protocols E k ps = (ev, ps') \<Longrightarrow>
     list_all2 polled_to ps ps' \<and> (\<forall>e. ev = Some e \<longrightarrow> poll_event k (k + length ps) e)"
proof (induction ps arbitrary: k ev ps')
  case (Cons p ps)
  obtain ev1 :: "('ep, 'tx) handler_event option" and ps1 where rest: "inbound_protocols E (Suc k) ps = (ev1, ps1)"
    by (metis surj_pair)
  from Cons.IH [OF rest] have IH: "list_all2 polled_to ps ps1"
    "\<And>e. ev1 = Some e \<Longrightarrow> poll_event k (k + Suc (length ps)) e"
    by (auto intro: poll_event_mono)
  obtain ev0 :: "('ep, 'tx) handler_event option" and st0 where head: "poll_inbound E k (pd_state p) = (ev0, st0)"
    by (metis surj_pair)
  from poll_inbound_polled [OF head] have
    "polled_to p (p\<lparr>pd_state := st0\<rparr>)"
    "\<And>e. ev0 = Some e \<Longrightarrow> poll_event k (k + Suc (length ps)) e"
    by (auto simp: poll_event_def)
  with Cons.prems rest head IH show ?case
    by (auto split: option.splits)
qed simp

lemma list_all2_polled_trans:
  "list_all2 polled_to xs ys \<Longrightarrow> list_all2 polled_to ys zs \<Longrightarrow> list_all2 polled_to xs zs"
  using polled_to_trans by (rule list_all2_trans)

lemma handler_poll_cases:
  fixes r :: "('ep, 'tx) handler_event poll"
  assumes "handler_poll E h = Some (Inr (r, h'))"
  obtains (queued) ev rest where "pending_events h = ev # rest" and "r = Ready ev"
      and "h' = h\<lparr>pending_events := rest\<rparr>"
    | (passes) ps where "pending_events h = []" and "h' = h\<lparr>protocols := ps\<rparr>"
      and "list_all2 polled_to (protocols h) ps"
      and "\<And>ev. r = Ready ev \<Longrightarrow> poll_event 0 (length (protocols h)) ev"
proof (cases "pending_events h")
  case (Cons ev rest)
  with assms queued show thesis by (simp add: handler_poll_def)
next
  case Nil
  with assms obtain ps1 where ps1: "forward_protocols E (protocols h) = Some (Inr ps1)"
    by (auto simp: handler_poll_def split: option.splits sum.splits)
  note p1 = forward_protocols_polled [OF ps1]
  obtain e2 :: "('ep, 'tx) handler_event option" and ps2 where ps2: "flush_protocols E 0 ps1 = (e2, ps2)"
    by (metis surj_pair)
  note p2 = flush_protocols_polled [OF ps2]
  have len: "length ps1 = length (protocols h)" "length ps2 = length (protocols h)"
    using p1 p2 by (metis list_all2_lengthD)+
  show thesis
  proof (cases e2)
    case (Some ev)
    with Nil assms ps1 ps2 have "r = Ready ev" "h' = h\<lparr>protocols := ps2\<rparr>"
      by (simp_all add: handler_poll_def)
    moreover have "poll_event 0 (length (protocols h)) ev"
      using p2 Some len by auto
    ultimately show thesis
      using passes [OF Nil] list_all2_polled_trans p1 p2 by blast
  next
    case None
    obtain e3 :: "('ep, 'tx) handler_event option" and ps3 where ps3: "inbound_protocols E 0 ps2 = (e3, ps3)"
      by (metis surj_pair)
    note p3 = inbound_protocols_polled [OF ps3]
    have "list_all2 polled_to (protocols h) ps3"
      using p1 p2 p3 list_all2_polled_trans by blast
    moreover have "h' = h\<lparr>protocols := ps3\<rparr>" "\<And>ev. r = Ready ev \<Longrightarrow> e3 = Some ev"
      using Nil assms ps1 ps2 ps3 None by (auto simp: handler_poll_def split: option.splits)
    ultimately show thesis
      using passes [OF Nil] p3 len by fastforce
  qed
qed

section \<open>The handler under a swarm\<close>

text \<open>
  A handler, beside what its swarm and its behaviour have seen of it: the substream requests
  the swarm has taken and not answered, the \<open>Open\<close> commands given, and the answers
  (completed or failed handshakes) handed to the behaviour. The swarm answers only requests it
  has taken, each once; otherwise calls come in any order and with any sockets and channels.
\<close>

record ('k, 'rx, 'tx, 'ep, 'peer) swarm_view =
  handler :: "('k, 'rx, 'tx, 'ep, 'peer) notifications_handler"
  in_flight :: "nat multiset"
  opens :: "nat multiset"
  answers :: "nat multiset"

fun request_of :: "('ep, 'tx) handler_event \<Rightarrow> nat multiset" where
  "request_of (OutboundSubstreamRequest _ i) = {#i#}"
| "request_of (NotifyBehaviour _) = {#}"

fun answer_of :: "('ep, 'tx) handler_event \<Rightarrow> nat multiset" where
  "answer_of (NotifyBehaviour (HandshakeCompleted i _ _ _ _)) = {#i#}"
| "answer_of (NotifyBehaviour (HandshakeError i)) = {#i#}"
| "answer_of _ = {#}"

definition polled_events :: "('ep, 'tx) handler_event poll \<Rightarrow> ('ep, 'tx) handler_event list" where
  "polled_events r = (case r of Ready ev \<Rightarrow> [ev] | Pending \<Rightarrow> [])"

definition requests_in :: "('ep, 'tx) handler_event list \<Rightarrow> nat multiset" where
  "requests_in evs = sum_list (map request_of evs)"

definition answers_in :: "('ep, 'tx) handler_event list \<Rightarrow> nat multiset" where
  "answers_in evs = sum_list (map answer_of evs)"

inductive handler_step ::
  "('k, 'rx, 'tx, 'ep, 'peer) swarm_view \<Rightarrow> ('k, 'rx, 'tx, 'ep, 'peer) swarm_view \<Rightarrow> bool" where
  step_inbound:
    "on_connection_event channel (FullyNegotiatedInbound protocol) (handler v) = Inr h'
     \<Longrightarrow> handler_step v (v\<lparr>handler := h'\<rparr>)"
| step_outbound:
    "i \<in># in_flight v
     \<Longrightarrow> on_connection_event channel (FullyNegotiatedOutbound opened i) (handler v) = Inr h'
     \<Longrightarrow> handler_step v (v\<lparr>handler := h', in_flight := in_flight v - {#i#}\<rparr>)"
| step_dial_error:
    "i \<in># in_flight v
     \<Longrightarrow> on_connection_event channel (DialUpgradeError i err) (handler v) = Inr h'
     \<Longrightarrow> handler_step v (v\<lparr>handler := h', in_flight := in_flight v - {#i#}\<rparr>)"
| step_open:
    "on_behaviour_event (OpenProtocol i) (handler v) = Inr h'
     \<Longrightarrow> handler_step v (v\<lparr>handler := h', opens := opens v + {#i#}\<rparr>)"
| step_close:
    "on_behaviour_event (CloseProtocol i) (handler v) = Inr h'
     \<Longrightarrow> handler_step v (v\<lparr>handler := h'\<rparr>)"
| step_poll:
    "handler_poll E (handler v) = Some (Inr (r, h'))
     \<Longrightarrow> handler_step v
           (v\<lparr>handler := h',
              in_flight := in_flight v + requests_in (polled_events r),
              answers := answers v + answers_in (polled_events r)\<rparr>)"

inductive handler_reachable ::
  "('k, 'rx, 'tx, 'ep, 'peer) notifications_handler \<Rightarrow> ('k, 'rx, 'tx, 'ep, 'peer) swarm_view
     \<Rightarrow> bool" for h0 where
  reach_init:
    "handler_reachable h0 \<lparr>handler = h0, in_flight = {#}, opens = {#}, answers = {#}\<rparr>"
| reach_step: "handler_reachable h0 v \<Longrightarrow> handler_step v v' \<Longrightarrow> handler_reachable h0 v'"

text \<open>The substream answers a handler waits for, and the commands it has yet to answer.\<close>

definition phase_at :: "('k, 'rx, 'tx, 'ep, 'peer) notifications_handler \<Rightarrow> nat \<Rightarrow> phase" where
  "phase_at h i =
     (if i < length (protocols h) then phase_of (pd_state (protocols h ! i)) else PClosed False)"

definition requests_ok :: "('k, 'rx, 'tx, 'ep, 'peer) swarm_view \<Rightarrow> bool" where
  "requests_ok v \<longleftrightarrow>
     (\<forall>i. count (requests_in (pending_events (handler v)) + in_flight v) i =
            of_bool (awaits (phase_at (handler v) i)))"

definition answers_ok :: "('k, 'rx, 'tx, 'ep, 'peer) swarm_view \<Rightarrow> bool" where
  "answers_ok v \<longleftrightarrow>
     (\<forall>i. count (answers_in (pending_events (handler v)) + answers v) i
            + of_bool (phase_at (handler v) i = POpening) \<le> count (opens v) i)"

lemma requests_in_simps [simp]:
  "requests_in [] = {#}"
  "requests_in (ev # evs) = request_of ev + requests_in evs"
  "requests_in (evs @ evs') = requests_in evs + requests_in evs'"
  by (simp_all add: requests_in_def)

lemma answers_in_simps [simp]:
  "answers_in [] = {#}"
  "answers_in (ev # evs) = answer_of ev + answers_in evs"
  "answers_in (evs @ evs') = answers_in evs + answers_in evs'"
  by (simp_all add: answers_in_def)

lemma polled_events_simps [simp]:
  "polled_events (Ready ev) = [ev]" "polled_events Pending = []"
  by (simp_all add: polled_events_def)

lemma poll_event_silent [simp]:
  "poll_event lo hi ev \<Longrightarrow> request_of ev = {#}" "poll_event lo hi ev \<Longrightarrow> answer_of ev = {#}"
  by (auto simp: poll_event_def)

lemma phase_at_push_back [simp]: "phase_at (push_back ev h) = phase_at h"
  by (simp add: phase_at_def fun_eq_iff)

lemma phase_at_request [simp]: "phase_at (request_substream b i p h) = phase_at h"
  by (simp add: phase_at_def fun_eq_iff)

lemma phase_at_set_state [simp]:
  "i < length (protocols h) \<Longrightarrow> phase_at (set_state i st h) = (phase_at h)(i := phase_of st)"
  by (auto simp: phase_at_def fun_eq_iff)

lemma phase_at_nth [simp]:
  "i < length (protocols h) \<Longrightarrow> pd_state (protocols h ! i) = st \<Longrightarrow> phase_at h i = phase_of st"
  by (simp add: phase_at_def)

text \<open>What each operation does to phases, requests and answers.\<close>

lemma inbound_effect:
  assumes "i < length (protocols h)"
    and "h' = on_negotiated_inbound sub i h (protocols h ! i)"
  shows "requests_in (pending_events h') = requests_in (pending_events h)"
    and "answers_in (pending_events h') = answers_in (pending_events h)"
    and "awaits (phase_at h' j) = awaits (phase_at h j)"
    and "phase_at h' j = POpening \<longleftrightarrow> phase_at h j = POpening"
  using assms by (auto simp: on_negotiated_inbound_def split: protocol_state.splits)

lemma outbound_effect:
  assumes "i < length (protocols h)"
    and "h' = on_negotiated_outbound channel opened i h (protocols h ! i)
       \<or> h' = on_dial_upgrade_error i h (protocols h ! i)"
  shows "requests_in (pending_events h') = requests_in (pending_events h)"
    and "answers_in (pending_events h') =
      answers_in (pending_events h) + (if phase_at h i = POpening then {#i#} else {#})"
    and "awaits (phase_at h' j) \<longleftrightarrow> j \<noteq> i \<and> awaits (phase_at h j)"
    and "phase_at h' j = POpening \<longleftrightarrow> j \<noteq> i \<and> phase_at h j = POpening"
  using assms
  by (auto simp: on_negotiated_outbound_def on_dial_upgrade_error_def
      split: protocol_state.splits prod.splits if_splits)

lemma open_effect:
  assumes "i < length (protocols h)" and "h' = on_open i h (protocols h ! i)"
  shows "requests_in (pending_events h') = requests_in (pending_events h)
      + (if awaits (phase_at h i) \<or> phase_at h i = POpen then {#} else {#i#})"
    and "answers_in (pending_events h') = answers_in (pending_events h)"
    and "awaits (phase_at h' j) \<longleftrightarrow>
      (if j = i then phase_at h i \<noteq> POpen else awaits (phase_at h j))"
    and "phase_at h' j = POpening \<longleftrightarrow>
      (if j = i then phase_at h i \<noteq> POpen else phase_at h j = POpening)"
  using assms by (auto simp: on_open_def split: protocol_state.splits)

lemma close_effect:
  assumes "i < length (protocols h)" and "h' = on_close i h (protocols h ! i)"
  shows "requests_in (pending_events h') = requests_in (pending_events h)"
    and "answers_in (pending_events h') =
      answers_in (pending_events h) + (if phase_at h i = POpening then {#i#} else {#})"
    and "awaits (phase_at h' j) = awaits (phase_at h j)"
    and "phase_at h' j = POpening \<longleftrightarrow> j \<noteq> i \<and> phase_at h j = POpening"
  using assms by (auto simp: on_close_def split: protocol_state.splits)

lemma polled_phase_at:
  assumes "list_all2 polled_to (protocols h) ps"
  shows "awaits (phase_at (h\<lparr>protocols := ps\<rparr>) j) = awaits (phase_at h j)"
    and "phase_at (h\<lparr>protocols := ps\<rparr>) j = POpening \<longleftrightarrow> phase_at h j = POpening"
    and "phase_at (h\<lparr>protocols := ps\<rparr>) j = POpen \<longleftrightarrow> phase_at h j = POpen"
proof -
  have len: "length ps = length (protocols h)"
    using assms by (simp add: list_all2_lengthD)
  have "polled_to (protocols h ! j) (ps ! j)" if "j < length (protocols h)"
    using assms that by (rule list_all2_nthD)
  with len show "awaits (phase_at (h\<lparr>protocols := ps\<rparr>) j) = awaits (phase_at h j)"
    and "phase_at (h\<lparr>protocols := ps\<rparr>) j = POpening \<longleftrightarrow> phase_at h j = POpening"
    and "phase_at (h\<lparr>protocols := ps\<rparr>) j = POpen \<longleftrightarrow> phase_at h j = POpen"
    by (auto simp: phase_at_def polled_to_def)
qed

lemma poll_effect:
  assumes "handler_poll E h = Some (Inr (r, h'))"
  shows "requests_in (pending_events h') + requests_in (polled_events r) =
      requests_in (pending_events h)"
    and "answers_in (pending_events h') + answers_in (polled_events r) =
      answers_in (pending_events h)"
    and "awaits (phase_at h' j) = awaits (phase_at h j)"
    and "phase_at h' j = POpening \<longleftrightarrow> phase_at h j = POpening"
  using assms
  by (cases rule: handler_poll_cases; cases r; simp add: polled_phase_at; simp add: phase_at_def)+

text \<open>
  Both invariants follow from a balance at every index: a step gives to one side what it takes
  from the other.
\<close>

lemma requests_ok_balance:
  assumes "requests_ok v"
    and "\<And>j. count (requests_in (pending_events (handler v')) + in_flight v') j
        + of_bool (awaits (phase_at (handler v) j))
      = count (requests_in (pending_events (handler v)) + in_flight v) j
        + of_bool (awaits (phase_at (handler v') j))"
  shows "requests_ok v'"
  unfolding requests_ok_def
proof
  fix j
  show "count (requests_in (pending_events (handler v')) + in_flight v') j
      = of_bool (awaits (phase_at (handler v') j))"
    using assms(1) assms(2) [of j] by (simp add: requests_ok_def)
qed

lemma answers_ok_balance:
  assumes "\<And>j. count (answers_in (pending_events (handler v')) + answers v') j
        + of_bool (phase_at (handler v') j = POpening) + count (opens v) j
      \<le> count (answers_in (pending_events (handler v)) + answers v) j
        + of_bool (phase_at (handler v) j = POpening) + count (opens v') j"
  shows "answers_ok v \<longrightarrow> answers_ok v'"
  unfolding answers_ok_def
proof (intro impI allI)
  fix j
  assume "\<forall>j. count (answers_in (pending_events (handler v)) + answers v) j
      + of_bool (phase_at (handler v) j = POpening) \<le> count (opens v) j"
  then have "count (answers_in (pending_events (handler v)) + answers v) j
      + of_bool (phase_at (handler v) j = POpening) \<le> count (opens v) j" ..
  with assms [of j]
  show "count (answers_in (pending_events (handler v')) + answers v') j
      + of_bool (phase_at (handler v') j = POpening) \<le> count (opens v') j"
    by linarith
qed

lemma in_flight_awaits:
  assumes "requests_ok v" and "i \<in># in_flight v"
  shows "awaits (phase_at (handler v) i)" and "count (in_flight v) i = 1"
    and "i < length (protocols (handler v))"
proof -
  have "count (requests_in (pending_events (handler v)) + in_flight v) i =
      of_bool (awaits (phase_at (handler v) i))"
    using assms(1) by (simp add: requests_ok_def)
  moreover from assms(2) have "0 < count (in_flight v) i"
    by simp
  ultimately show *: "awaits (phase_at (handler v) i)" and "count (in_flight v) i = 1"
    by (cases "awaits (phase_at (handler v) i)"; simp del: count_greater_zero_iff)+
  from * show "i < length (protocols (handler v))"
    by (auto simp: phase_at_def split: if_splits)
qed

lemma handler_step_effects:
  assumes "handler_step v v'" and ok: "requests_ok v"
  shows "requests_ok v'" and "answers_ok v \<Longrightarrow> answers_ok v'"
proof -
  let ?h = "handler v"
  note unfold = on_connection_event_def on_behaviour_event_def with_protocol_eq_Inr
  from assms(1) have "requests_ok v' \<and> (answers_ok v \<longrightarrow> answers_ok v')"
  proof cases
    case (step_inbound channel protocol h')
    then have i: "pr_index protocol < length (protocols ?h)"
        "h' = on_negotiated_inbound (hio_substream (pr_data protocol)) (pr_index protocol) ?h
           (protocols ?h ! pr_index protocol)"
      by (simp_all add: unfold)
    show ?thesis
      by (intro conjI requests_ok_balance [OF ok] answers_ok_balance)
        (simp_all add: step_inbound(1) inbound_effect [OF i])
  next
    case (step_outbound i channel opened h')
    then have "h' = on_negotiated_outbound channel opened i ?h (protocols ?h ! i)"
      by (simp add: unfold)
    note e = outbound_effect [OF in_flight_awaits(3) [OF ok step_outbound(2)] disjI1 [OF this]]
    show ?thesis
      by (intro conjI requests_ok_balance [OF ok] answers_ok_balance)
        (use in_flight_awaits [OF ok step_outbound(2)] in
          \<open>auto simp: step_outbound(1) e simp del: phase_at_nth\<close>)
  next
    case (step_dial_error i channel err h')
    then have "h' = on_dial_upgrade_error i ?h (protocols ?h ! i)"
      by (simp add: unfold)
    note e = outbound_effect [OF in_flight_awaits(3) [OF ok step_dial_error(2)] disjI2 [OF this]]
    show ?thesis
      by (intro conjI requests_ok_balance [OF ok] answers_ok_balance)
        (use in_flight_awaits [OF ok step_dial_error(2)] in
          \<open>auto simp: step_dial_error(1) e simp del: phase_at_nth\<close>)
  next
    case (step_open i h')
    then have i: "i < length (protocols ?h)" "h' = on_open i ?h (protocols ?h ! i)"
      by (simp_all add: unfold)
    have "phase_at ?h i = POpen \<Longrightarrow> \<not> awaits (phase_at ?h i)"
      by simp
    then show ?thesis
      by (intro conjI requests_ok_balance [OF ok] answers_ok_balance)
        (auto simp: step_open(1) open_effect [OF i])
  next
    case (step_close i h')
    then have i: "i < length (protocols ?h)" "h' = on_close i ?h (protocols ?h ! i)"
      by (simp_all add: unfold)
    show ?thesis
      by (intro conjI requests_ok_balance [OF ok] answers_ok_balance)
        (simp_all add: step_close(1) close_effect [OF i])
  next
    case (step_poll E r h')
    note e = poll_effect [OF step_poll(2)]
    show ?thesis
      by (intro conjI requests_ok_balance [OF ok] answers_ok_balance)
        (simp_all add: step_poll(1) e(3,4) e(1,2) [symmetric])
  qed
  then show "requests_ok v'" and "answers_ok v \<Longrightarrow> answers_ok v'"
    by auto
qed

lemma reachable_ok:
  assumes "handler_reachable h0 v"
    and "pending_events h0 = []" and "\<And>p. p \<in> set (protocols h0) \<Longrightarrow> pd_state p = Closed False"
  shows "requests_ok v \<and> answers_ok v"
  using assms(1)
proof induction
  case reach_init
  have "phase_at h0 i = PClosed False" for i
    using assms(3) by (simp add: phase_at_def)
  with assms(2) show ?case
    by (simp add: requests_ok_def answers_ok_def)
next
  case (reach_step v v')
  then show ?case using handler_step_effects by blast
qed

lemma handler_new_facts [simp]:
  "pending_events (handler_new hex sc p ep d) = []"
  "length (protocols (handler_new hex sc p ep d)) = 2"
  "q \<in> set (protocols (handler_new hex sc p ep d)) \<Longrightarrow> pd_state q = Closed False"
  by (auto simp: handler_new_def Let_def)

lemma phase_at_new [simp]: "phase_at (handler_new hex sc p ep d) i = PClosed False"
  by (auto simp: phase_at_def handler_new_def Let_def nth_Cons')

lemma step_length:
  "handler_step v v' \<Longrightarrow> length (protocols (handler v')) = length (protocols (handler v))"
  by (induction rule: handler_step.induct)
    (auto simp: on_connection_event_def on_behaviour_event_def with_protocol_eq_Inr
      on_negotiated_inbound_def on_negotiated_outbound_def on_dial_upgrade_error_def on_open_def
      on_close_def split: protocol_state.splits prod.splits
      elim!: handler_poll_cases dest: list_all2_lengthD)

lemma reachable_length:
  "handler_reachable h0 v \<Longrightarrow> length (protocols (handler v)) = length (protocols h0)"
  by (induction rule: handler_reachable.induct) (simp_all add: step_length)

section \<open>The queue of events\<close>

definition handler_deliver ::
  "('k, 'rx) handler_env \<Rightarrow> ('k, 'rx, 'tx, 'ep, 'peer) notifications_handler
     \<Rightarrow> (('ep, 'tx) handler_event \<times> ('k, 'rx, 'tx, 'ep, 'peer) notifications_handler) option" where
  "handler_deliver E h =
     (case handler_poll E h of Some (Inr (Ready ev, h')) \<Rightarrow> Some (ev, h') | _ \<Rightarrow> None)"

interpretation handler_events: event_source push_back "handler_deliver E" pending_events
  by unfold_locales (simp_all add: handler_deliver_def handler_poll_def)

section \<open>Forwarding user messages\<close>

text \<open>
  What \<open>futures\<close> documents of a peekable receiver whose buffered messages are \<open>buffer\<close>:
  peeking shows the first message and keeps it, \<open>poll_next\<close> takes it, and an empty buffer
  shows none.
\<close>

definition peekable_receiver :: "('k, 'rx) handler_env \<Rightarrow> ('rx \<Rightarrow> bytes list) \<Rightarrow> bool" where
  "peekable_receiver E buffer \<longleftrightarrow>
     (\<forall>r. case buffer r of
            [] \<Rightarrow> (\<forall>m r'. rx_poll_peek E r \<noteq> (Ready (Some m), r'))
                  \<and> buffer (snd (rx_poll_peek E r)) = []
          | m # ms \<Rightarrow>
              (\<exists>r'. rx_poll_peek E r = (Ready (Some m), r') \<and> buffer r' = m # ms)
              \<and> (\<exists>r'. rx_poll_next E r = (Ready (Some m), r') \<and> buffer r' = ms))"

lemma peekable_empty:
  assumes "peekable_receiver E buffer" and "buffer r = []"
  shows "\<exists>r'. buffer r' = [] \<and> forward_loop E r ob = Some (Inr (r', ob))"
proof -
  obtain res r' where pk: "rx_poll_peek E r = (res, r')"
    by (metis surj_pair)
  from assms(2) have "\<forall>m r'. rx_poll_peek E r \<noteq> (Ready (Some m), r')"
    and "buffer (snd (rx_poll_peek E r)) = []"
    using assms(1) [unfolded peekable_receiver_def, THEN spec, of r] by simp_all
  with pk show ?thesis
    by (subst forward_loop.simps) (auto split: poll.splits option.splits)
qed

lemma peekable_Cons:
  assumes "peekable_receiver E buffer" and "buffer r = m # ms"
  obtains r1 r2 where "rx_poll_peek E r = (Ready (Some m), r1)" and "buffer r1 = m # ms"
    and "rx_poll_next E r1 = (Ready (Some m), r2)" and "buffer r2 = ms"
proof -
  have law: "buffer s = m # ms \<Longrightarrow>
      (\<exists>r'. rx_poll_peek E s = (Ready (Some m), r') \<and> buffer r' = m # ms)
      \<and> (\<exists>r'. rx_poll_next E s = (Ready (Some m), r') \<and> buffer r' = ms)" for s
    using assms(1) [unfolded peekable_receiver_def, THEN spec, of s] by simp
  from law [OF assms(2)] obtain r1 where
    r1: "rx_poll_peek E r = (Ready (Some m), r1)" "buffer r1 = m # ms" by blast
  from law [OF r1(2)] r1 show thesis using that by blast
qed

lemma forward_loop_total:
  assumes "peekable_receiver E buffer" and "framed E = logged F"
  shows "\<exists>r' ob' sent. forward_loop E r ob = Some (Inr (r', ob'))
    \<and> buffer r = sent @ buffer r'
    \<and> snd (ob_socket ob') = snd (ob_socket ob) @ sent
    \<and> (buffer r' = [] \<or> (\<exists>k k'. fr_poll_ready F k = (Pending, k')))"
proof (induction "buffer r" arbitrary: r ob)
  case Nil
  then show ?case using peekable_empty [OF assms(1), of r ob] by auto
next
  case (Cons m ms)
  from peekable_Cons [OF assms(1) Cons.hyps(2) [symmetric]] obtain r1 r2 where
    r: "rx_poll_peek E r = (Ready (Some m), r1)" "buffer r1 = m # ms"
       "rx_poll_next E r1 = (Ready (Some m), r2)" "buffer r2 = ms" .
  obtain res k1 where ready: "fr_poll_ready F (fst (ob_socket ob)) = (res, k1)"
    by (metis surj_pair)
  show ?case
  proof (cases res)
    case Pending
    let ?ob1 = "ob\<lparr>ob_socket := (k1, snd (ob_socket ob))\<rparr>"
    have "forward_loop E r ob = Some (Inr (r1, ?ob1))"
      using r ready Pending
      by (subst forward_loop.simps) (simp add: outbound_poll_ready_def assms(2) split_beta)
    moreover have "buffer r = [] @ buffer r1"
      using r(2) Cons.hyps(2) by simp
    moreover have "snd (ob_socket ?ob1) = snd (ob_socket ob) @ []"
      by simp
    ultimately show ?thesis using ready Pending by blast
  next
    case (Ready x)
    obtain y k2 where send: "fr_start_send F m k1 = (y, k2)"
      by (metis surj_pair)
    let ?ob2 = "ob\<lparr>ob_socket := (k2, snd (ob_socket ob) @ [m])\<rparr>"
    have step: "forward_loop E r ob = forward_loop E r2 ?ob2"
      using r ready Ready send
      by (subst forward_loop.simps)
        (simp add: outbound_poll_ready_def outbound_start_send_def assms(2) split_beta)
    from Cons.hyps(1) [OF r(4) [symmetric], of ?ob2] obtain r' ob' sent where
      "forward_loop E r2 ?ob2 = Some (Inr (r', ob'))" "buffer r2 = sent @ buffer r'"
      "snd (ob_socket ob') = snd (ob_socket ?ob2) @ sent"
      "buffer r' = [] \<or> (\<exists>k k'. fr_poll_ready F k = (Pending, k'))"
      by blast
    then show ?thesis
      using step r(4) Cons.hyps(2)
      by (intro exI [of _ r'] exI [of _ ob'] exI [of _ "m # sent"]) simp
  qed
qed

section \<open>Specification of one protocol\<close>

text \<open>
  The contract between a handler, its swarm and its behaviour, for one protocol: a machine on
  phases with the events it announces. The handler is a family of these machines, one for each
  index, which share one queue.
\<close>

datatype protocol_input =
  RemoteOpened | SubstreamOpened | SubstreamFailed | OpenCommanded | CloseCommanded

datatype announcement =
  AskSubstream | AnnounceRemote | AnnounceCompleted | AnnounceError | AnnounceClosed | AnnounceOther

fun spec_step :: "protocol_input \<Rightarrow> phase \<Rightarrow> phase \<times> announcement list" where
  "spec_step RemoteOpened (PClosed b) = (PDesired b, [AnnounceRemote])"
| "spec_step RemoteOpened ph = (ph, [])"
| "spec_step SubstreamOpened POpening = (POpen, [AnnounceCompleted])"
| "spec_step SubstreamFailed POpening = (PClosed False, [AnnounceError])"
| "spec_step SubstreamOpened (PClosed b) = (PClosed False, [])"
| "spec_step SubstreamOpened (PDesired b) = (PDesired False, [])"
| "spec_step SubstreamOpened POpen = (POpen, [])"
| "spec_step SubstreamFailed (PClosed b) = (PClosed False, [])"
| "spec_step SubstreamFailed (PDesired b) = (PDesired False, [])"
| "spec_step SubstreamFailed POpen = (POpen, [])"
| "spec_step OpenCommanded POpening = (POpening, [])"
| "spec_step OpenCommanded POpen = (POpen, [])"
| "spec_step OpenCommanded ph = (POpening, if awaits ph then [] else [AskSubstream])"
| "spec_step CloseCommanded POpening = (PClosed True, [AnnounceError, AnnounceClosed])"
| "spec_step CloseCommanded POpen = (PClosed False, [AnnounceClosed])"
| "spec_step CloseCommanded ph = (PClosed (awaits ph), [AnnounceClosed])"

fun announcement_of :: "('ep, 'tx) handler_event \<Rightarrow> announcement \<times> nat" where
  "announcement_of (OutboundSubstreamRequest _ i) = (AskSubstream, i)"
| "announcement_of (NotifyBehaviour (RemoteDesiresOpen i)) = (AnnounceRemote, i)"
| "announcement_of (NotifyBehaviour (HandshakeCompleted i _ _ _ _)) = (AnnounceCompleted, i)"
| "announcement_of (NotifyBehaviour (HandshakeError i)) = (AnnounceError, i)"
| "announcement_of (NotifyBehaviour (ProtocolClosed i)) = (AnnounceClosed, i)"
| "announcement_of (NotifyBehaviour (CloseDesired i)) = (AnnounceOther, i)"
| "announcement_of (NotifyBehaviour (Notification i _)) = (AnnounceOther, i)"

text \<open>The calls of the swarm, and the input each is to the machine of its index.\<close>

datatype 'k handler_call =
  ConnectionCall "'k connection_event" | BehaviourCall from_behaviour

fun apply_call ::
  "(nat \<Rightarrow> 'tx \<times> 'rx) \<Rightarrow> 'k handler_call \<Rightarrow> ('k, 'rx, 'tx, 'ep, 'peer) notifications_handler
     \<Rightarrow> panic + ('k, 'rx, 'tx, 'ep, 'peer) notifications_handler" where
  "apply_call channel (ConnectionCall ev) h = on_connection_event channel ev h"
| "apply_call channel (BehaviourCall ev) h = on_behaviour_event ev h"

fun input_of :: "'k handler_call \<Rightarrow> (nat \<times> protocol_input) option" where
  "input_of (ConnectionCall (FullyNegotiatedInbound protocol)) =
     Some (pr_index protocol, RemoteOpened)"
| "input_of (ConnectionCall (FullyNegotiatedOutbound _ i)) = Some (i, SubstreamOpened)"
| "input_of (ConnectionCall (DialUpgradeError i _)) = Some (i, SubstreamFailed)"
| "input_of (ConnectionCall OtherConnectionEvent) = None"
| "input_of (BehaviourCall (OpenProtocol i)) = Some (i, OpenCommanded)"
| "input_of (BehaviourCall (CloseProtocol i)) = Some (i, CloseCommanded)"

lemmas operation_defs = on_negotiated_inbound_def on_negotiated_outbound_def
  on_dial_upgrade_error_def on_open_def on_close_def

lemmas dispatch_defs = on_connection_event_def on_behaviour_event_def with_protocol_eq_Inr

text \<open>
  C3. Refinement: a call that finds its index in range takes the machine of that index one
  step of its specification, leaves every other protocol's phase alone, and appends to the
  event queue exactly the announcements of the specification, for that index.
\<close>

theorem handler_refines_specification:
  assumes "apply_call channel call h = Inr h'" and "input_of call = Some (i, inp)"
  shows "i < length (protocols h)
    \<and> phase_at h' = (phase_at h)(i := fst (spec_step inp (phase_at h i)))
    \<and> (\<exists>evs. pending_events h' = pending_events h @ evs
        \<and> map announcement_of evs = map (\<lambda>a. (a, i)) (snd (spec_step inp (phase_at h i))))"
proof -
  from assms have "\<exists>f. with_protocol i (f h) h = Inr h' \<and>
      (inp = RemoteOpened \<and> (\<exists>sub. f = on_negotiated_inbound sub i)
       \<or> inp = SubstreamOpened \<and> (\<exists>opened. f = on_negotiated_outbound channel opened i)
       \<or> inp = SubstreamFailed \<and> f = on_dial_upgrade_error i
       \<or> inp = OpenCommanded \<and> f = on_open i
       \<or> inp = CloseCommanded \<and> f = on_close i)"
    by (elim input_of.elims) (auto simp: on_connection_event_def on_behaviour_event_def)
  then show ?thesis
    by (cases "pd_state (protocols h ! i)")
      (auto simp: with_protocol_eq_Inr operation_defs split: prod.splits)
qed

text \<open>A new handler, with concrete sockets, channels, endpoints and peers, and its environment.\<close>

type_synonym sample_handler =
  "(bytes list \<times> bytes list, bytes list, nat, nat, nat) notifications_handler"

definition sample_handler :: sample_handler where
  "sample_handler = handler_new (\<lambda>_. ''ab'') (\<lambda>_. [7]) 5 6
     \<lparr>data_genesis_hash = [1, 2], node_role = FullNode\<rparr>"

definition sample_env :: "(bytes list \<times> bytes list, bytes list) handler_env" where
  "sample_env =
     \<lparr>framed = logged ready_framed,
      rx_poll_peek = (\<lambda>r. case r of [] \<Rightarrow> (Pending, r) | m # _ \<Rightarrow> (Ready (Some m), r)),
      rx_poll_next = (\<lambda>r. case r of [] \<Rightarrow> (Pending, r) | m # ms \<Rightarrow> (Ready (Some m), ms)),
      debug_assertions = True\<rparr>"

lemma sample_env_peekable: "peekable_receiver sample_env (\<lambda>r. r)"
  by (simp add: peekable_receiver_def sample_env_def split: list.splits)

theorem handler_refines_specification_witness:
  "\<exists>h'. apply_call (\<lambda>_. (0, [])) (BehaviourCall (OpenProtocol 1)) sample_handler = Inr h'
     \<and> phase_at h' 1 = POpening \<and> phase_at h' 0 = PClosed False"
proof -
  obtain h' where h': "apply_call (\<lambda>_. (0, [])) (BehaviourCall (OpenProtocol 1)) sample_handler
      = Inr h'"
    by (simp add: on_behaviour_event_def with_protocol_def sample_handler_def)
  from handler_refines_specification [OF h', of 1 OpenCommanded]
  have "phase_at h' = (phase_at sample_handler)(1 := POpening)"
    by (simp add: sample_handler_def)
  with h' show ?thesis
    by (simp add: sample_handler_def)
qed

section \<open>Properties\<close>

text \<open>
  C1. At most one outbound substream request per protocol is outstanding, in every state a new
  handler can reach under any swarm that answers each request once: the requests queued or
  taken and not answered number exactly one while the protocol's state waits for an answer
  and none otherwise. An answer therefore never finds the protocol open, never indexes out of
  range, and so never panics.
\<close>

theorem one_substream_request_outstanding:
  assumes "handler_reachable (handler_new hex_encode scale_encode p ep d) v"
  shows "count (requests_in (pending_events (handler v)) + in_flight v) i =
      of_bool (awaits (phase_at (handler v) i))
    \<and> (i \<in># in_flight v \<longrightarrow>
        i < 2 \<and> phase_at (handler v) i \<noteq> POpen
        \<and> (\<exists>h'. on_connection_event channel (FullyNegotiatedOutbound opened i) (handler v) = Inr h')
        \<and> (\<exists>h'. on_connection_event channel (DialUpgradeError i err) (handler v) = Inr h'))"
proof -
  have ok: "requests_ok v"
    using reachable_ok [OF assms] by simp
  have len: "length (protocols (handler v)) = 2"
    using reachable_length [OF assms] by simp
  have "i < 2 \<and> awaits (phase_at (handler v) i)" if "i \<in># in_flight v"
    using in_flight_awaits [OF ok that] len by simp
  with ok len show ?thesis
    by (auto simp: requests_ok_def on_connection_event_def with_protocol_eq_Inr)
qed

text \<open>A sample run: protocol 0 is opened, and the swarm takes its request.\<close>

definition sample_view ::
  "(bytes list \<times> bytes list, bytes list, nat, nat, nat) swarm_view" where
  "sample_view =
     \<lparr>handler = set_state 0 (Opening None False) sample_handler, in_flight = {#0#},
      opens = {#0#}, answers = {#}\<rparr>"

lemma sample_view_reachable: "handler_reachable sample_handler sample_view"
proof -
  let ?v0 = "\<lparr>handler = sample_handler, in_flight = {#}, opens = {#}, answers = {#}\<rparr>"
  let ?h1 = "on_open 0 sample_handler (protocols sample_handler ! 0)"
  let ?v1 = "?v0\<lparr>handler := ?h1, opens := {#0#}\<rparr>"
  have "handler_step ?v0 (?v0\<lparr>handler := ?h1, opens := opens ?v0 + {#0#}\<rparr>)"
    by (rule step_open) (simp add: on_behaviour_event_def with_protocol_eq_Inr sample_handler_def)
  then have "handler_step ?v0 ?v1" by simp
  moreover have "handler_step ?v1
      (?v1\<lparr>handler := handler sample_view,
        in_flight := in_flight ?v1 + requests_in (polled_events (Ready (hd (pending_events ?h1)))),
        answers := answers ?v1 + answers_in (polled_events (Ready (hd (pending_events ?h1))))\<rparr>)"
    by (rule step_poll [where E = sample_env])
      (simp add: handler_poll_def sample_view_def on_open_def sample_handler_def handler_new_def
        request_substream_def push_back_def set_state_def Let_def)
  then have "handler_step ?v1 sample_view"
    by (simp add: sample_view_def on_open_def sample_handler_def handler_new_def
        request_substream_def Let_def)
  ultimately show ?thesis
    by (blast intro: reach_init reach_step)
qed

theorem one_substream_request_outstanding_witness:
  "handler_reachable sample_handler sample_view \<and> in_flight sample_view = {#0#}
   \<and> phase_at (handler sample_view) 0 \<noteq> POpen"
  using one_substream_request_outstanding
    [OF sample_view_reachable [unfolded sample_handler_def], of 0]
  by (simp add: sample_view_reachable) (simp add: sample_view_def)

text \<open>
  C7. Every answer a handler gives to its behaviour, a completed or a failed handshake, answers
  an \<open>Open\<close> command of its own: in every reachable state the answers given for a protocol,
  plus the handshake in progress if there is one, are at most the \<open>Open\<close> commands received
  for it.
\<close>

theorem every_answer_has_its_open:
  assumes "handler_reachable (handler_new hex_encode scale_encode p ep d) v"
  shows "count (answers v) i + of_bool (phase_at (handler v) i = POpening) \<le> count (opens v) i"
proof -
  have "answers_ok v"
    using reachable_ok [OF assms] by simp
  then have "count (answers_in (pending_events (handler v)) + answers v) i
      + of_bool (phase_at (handler v) i = POpening) \<le> count (opens v) i"
    by (simp add: answers_ok_def)
  then show ?thesis by simp
qed

theorem every_answer_has_its_open_witness:
  "phase_at (handler sample_view) 0 = POpening \<and> 1 \<le> count (opens sample_view) 0"
  using every_answer_has_its_open [OF sample_view_reachable [unfolded sample_handler_def], of 0]
  by (simp add: sample_view_def sample_handler_def)

text \<open>
  C14. A protocol becomes open only when the substream it asked for is answered during its
  handshake, and the very same step queues the completed handshake for the behaviour.
\<close>

theorem open_only_after_handshake:
  assumes "handler_step v v'" and "phase_at (handler v) i \<noteq> POpen"
    and "phase_at (handler v') i = POpen"
  shows "phase_at (handler v) i = POpening \<and> i \<in># in_flight v
    \<and> in_flight v' = in_flight v - {#i#}
    \<and> (\<exists>ep hs inbound tx. pending_events (handler v') = pending_events (handler v)
        @ [NotifyBehaviour (HandshakeCompleted i ep hs inbound tx)])"
  using assms
proof cases
  case (step_poll E r h')
  have "phase_at h' i = POpen \<Longrightarrow> phase_at (handler v) i = POpen"
    using step_poll(2)
    by (cases rule: handler_poll_cases)
      (simp_all add: polled_phase_at, simp add: phase_at_def split: if_splits)
  with assms step_poll show ?thesis by simp
qed (auto simp: dispatch_defs operation_defs split: protocol_state.splits prod.splits if_splits)

theorem open_only_after_handshake_witness:
  "\<exists>v'. handler_step sample_view v' \<and> phase_at (handler v') 0 = POpen \<and> in_flight v' = {#}"
proof -
  let ?o = "\<lparr>hoo_handshake = [4], hoo_substream = \<lparr>ob_socket = ([], [])\<rparr>\<rparr>"
  let ?h = "on_negotiated_outbound (\<lambda>_. (0, [])) ?o 0 (handler sample_view)
    (protocols (handler sample_view) ! 0)"
  let ?v = "sample_view\<lparr>handler := ?h, in_flight := in_flight sample_view - {#0#}\<rparr>"
  have step: "handler_step sample_view ?v"
    by (rule step_outbound [where channel = "\<lambda>_. (0, [])" and opened = ?o])
      (simp_all add: sample_view_def on_connection_event_def with_protocol_eq_Inr sample_handler_def)
  have "phase_at (handler sample_view) 0 \<noteq> POpen" "phase_at (handler ?v) 0 = POpen"
    by (simp_all add: sample_view_def sample_handler_def on_negotiated_outbound_def)
  with open_only_after_handshake [OF step, of 0] step show ?thesis
    by (auto simp: sample_view_def)
qed

text \<open>
  C15. User messages are forwarded to an open substream in order, none skipped and none sent
  twice, and the loop that forwards them ends: over any receiver that behaves as documented it
  returns without a panic, what it sent is a prefix of what was buffered, the rest stays
  buffered, and with a sink that is always ready nothing stays behind.
\<close>

theorem user_messages_forwarded_in_order:
  assumes "peekable_receiver E buffer" and "framed E = logged F"
  shows "\<exists>r' ob' sent. forward_loop E r ob = Some (Inr (r', ob'))
    \<and> buffer r = sent @ buffer r'
    \<and> snd (ob_socket ob') = snd (ob_socket ob) @ sent
    \<and> ((\<forall>k. \<exists>x k'. fr_poll_ready F k = (Ready x, k')) \<longrightarrow> buffer r' = [])"
proof -
  from forward_loop_total [OF assms, of r ob] obtain r' ob' sent where
    "forward_loop E r ob = Some (Inr (r', ob'))" "buffer r = sent @ buffer r'"
    "snd (ob_socket ob') = snd (ob_socket ob) @ sent"
    and stop: "buffer r' = [] \<or> (\<exists>k k'. fr_poll_ready F k = (Pending, k'))"
    by blast
  moreover from stop have "(\<forall>k. \<exists>x k'. fr_poll_ready F k = (Ready x, k')) \<longrightarrow> buffer r' = []"
    by (metis Pair_inject poll.distinct(1))
  ultimately show ?thesis by blast
qed

theorem user_messages_forwarded_in_order_witness:
  "\<exists>ob'. forward_loop sample_env [[1], [2]] \<lparr>ob_socket = ([], [])\<rparr> = Some (Inr ([], ob'))
     \<and> snd (ob_socket ob') = [[1], [2]]"
proof -
  have "framed sample_env = logged ready_framed"
    "\<forall>k. \<exists>x k'. fr_poll_ready ready_framed k = (Ready x, k')"
    by (simp_all add: sample_env_def ready_framed_def)
  with user_messages_forwarded_in_order
    [OF sample_env_peekable, of ready_framed "[[1], [2]]" "\<lparr>ob_socket = ([], [])\<rparr>"]
  show ?thesis by auto
qed

lemma forward_protocols_total:
  assumes "peekable_receiver E buffer" and "framed E = logged F"
  shows "\<exists>ps'. forward_protocols E ps = Some (Inr ps')"
proof (induction ps)
  case (Cons p ps)
  then obtain ps' where ps': "forward_protocols E ps = Some (Inr ps')" by blast
  have total: "\<exists>x y. forward_loop E r ob = Some (Inr (x, y))" for r ob
    using forward_loop_total [OF assms, of r ob] by blast
  show ?case
  proof (cases "\<exists>r ib ob. pd_state p = Open r ib (Some ob)")
    case True
    then obtain r ib ob where "pd_state p = Open r ib (Some ob)" by blast
    moreover obtain x y where "forward_loop E r ob = Some (Inr (x, y))"
      using total by blast
    ultimately show ?thesis using ps' by simp
  next
    case False
    then show ?thesis
      using ps' by (cases "pd_state p") (auto split: option.splits)
  qed
qed simp

text \<open>
  C25. Polling a handler always returns and never panics, over receivers that behave as
  documented, and either hands out the first queued event or leaves the queue empty with the
  set of protocols waiting for a substream unchanged.
\<close>

theorem handler_poll_returns:
  assumes "peekable_receiver E buffer" and "framed E = logged F"
  shows "\<exists>r h'. handler_poll E h = Some (Inr (r, h'))
    \<and> (\<forall>ev evs. pending_events h = ev # evs \<longrightarrow>
          r = Ready ev \<and> pending_events h' = evs \<and> protocols h' = protocols h)
    \<and> (pending_events h = [] \<longrightarrow>
          pending_events h' = [] \<and> (\<forall>i. awaits (phase_at h' i) = awaits (phase_at h i)))"
proof -
  obtain ps where "forward_protocols E (protocols h) = Some (Inr ps)"
    using forward_protocols_total [OF assms] by blast
  then have "\<exists>r h'. handler_poll E h = Some (Inr (r, h'))"
    by (auto simp: handler_poll_def split: list.splits prod.splits option.splits)
  then obtain r h' where p: "handler_poll E h = Some (Inr (r, h'))" by blast
  moreover have "awaits (phase_at h' i) = awaits (phase_at h i)" for i
    by (rule poll_effect(3) [OF p])
  moreover from p have "pending_events h = [] \<Longrightarrow> pending_events h' = []"
    "pending_events h = ev # evs \<Longrightarrow> r = Ready ev \<and> pending_events h' = evs
       \<and> protocols h' = protocols h" for ev evs
    by (auto elim!: handler_poll_cases)
  ultimately show ?thesis by blast
qed

theorem handler_poll_returns_witness:
  "\<exists>r h'. handler_poll sample_env sample_handler = Some (Inr (r, h')) \<and> pending_events h' = []"
proof -
  have "framed sample_env = logged ready_framed" by (simp add: sample_env_def)
  from handler_poll_returns [OF sample_env_peekable this, of sample_handler]
  show ?thesis by (auto simp: sample_handler_def)
qed

end
