(* ===== verification/Notifications.thy ===== *)
theory Notifications
  imports Handler
begin

text \<open>
  The network behaviour of the notification protocols (\<open>notifications/behavior.rs\<close>): it opens
  the two protocols on every new connection, answers what the handlers report, and turns
  completed handshakes and notifications into events of the swarm. A waker is a value of type
  \<open>'w\<close>; the wakers woken so far are kept beside the state, as the effect of \<open>Waker::wake\<close>.
\<close>

section \<open>State\<close>

datatype ('peer, 'tx) notifications_to_swarm =
    CustomProtocolOpen 'peer nat bytes bool 'tx
  | CustomProtocolClosed 'peer nat
  | SwarmNotification 'peer nat bytes

text \<open>\<open>ToSwarm\<close>, with the constructors the behaviour uses; commands go to one connection.\<close>

datatype ('peer, 'c, 'tx) to_swarm =
    GenerateEvent "('peer, 'tx) notifications_to_swarm"
  | NotifyHandler 'peer 'c from_behaviour

record ('peer, 'c, 'tx, 'w) notifications =
  events :: "('peer, 'c, 'tx) to_swarm list"
  peers_details :: "('peer, 'c hash_set) hash_map"
  notif_data :: protocols_data
  waker :: "'w option"
  woken :: "'w list"

definition notifications_new :: "protocols_data \<Rightarrow> ('peer, 'c, 'tx, 'w) notifications" where
  "notifications_new d =
     \<lparr>events = [], peers_details = [], notif_data = d, waker = None, woken = []\<rparr>"

definition propagate_event ::
  "('peer, 'c, 'tx) to_swarm \<Rightarrow> ('peer, 'c, 'tx, 'w) notifications
     \<Rightarrow> ('peer, 'c, 'tx, 'w) notifications" where
  "propagate_event ev n =
     (let n1 = (case waker n of
                  Some w \<Rightarrow> n\<lparr>waker := None, woken := woken n @ [w]\<rparr>
                | None \<Rightarrow> n)
      in n1\<lparr>events := events n1 @ [ev]\<rparr>)"

section \<open>Connections\<close>

datatype endpoint_role = DialerRole | ListenerRole
datatype port_use = PortNew | PortReuse

datatype 'addr connected_point =
    Dialer 'addr endpoint_role port_use
  | Listener 'addr 'addr

definition handle_pending_inbound_connection ::
  "'c \<Rightarrow> 'addr \<Rightarrow> 'addr \<Rightarrow> 'denied + unit" where
  "handle_pending_inbound_connection c local remote = Inr ()"

definition handle_pending_outbound_connection ::
  "'c \<Rightarrow> 'peer option \<Rightarrow> 'addr list \<Rightarrow> endpoint_role \<Rightarrow> 'denied + 'addr list" where
  "handle_pending_outbound_connection c maybe_peer addresses role = Inr []"

definition handle_established_inbound_connection ::
  "(bytes \<Rightarrow> string) \<Rightarrow> (block_announces_handshake \<Rightarrow> bytes) \<Rightarrow> 'peer \<Rightarrow> 'addr \<Rightarrow> 'addr
     \<Rightarrow> ('peer, 'c, 'tx, 'w) notifications
     \<Rightarrow> 'denied + ('k, 'rx, 'tx, 'addr connected_point, 'peer) notifications_handler" where
  "handle_established_inbound_connection hex_encode scale_encode p local_addr remote_addr n =
     Inr (handler_new hex_encode scale_encode p (Listener local_addr remote_addr) (notif_data n))"

definition handle_established_outbound_connection ::
  "(bytes \<Rightarrow> string) \<Rightarrow> (block_announces_handshake \<Rightarrow> bytes) \<Rightarrow> 'peer \<Rightarrow> 'addr
     \<Rightarrow> ('peer, 'c, 'tx, 'w) notifications
     \<Rightarrow> 'denied + ('k, 'rx, 'tx, 'addr connected_point, 'peer) notifications_handler" where
  "handle_established_outbound_connection hex_encode scale_encode p addr n =
     Inr (handler_new hex_encode scale_encode p (Dialer addr DialerRole PortReuse) (notif_data n))"

datatype ('peer, 'c) from_swarm =
    ConnectionEstablished 'peer 'c
  | ConnectionClosed 'peer 'c
  | OtherFromSwarm

text \<open>The loops over the two supported protocols.\<close>

definition command_protocols ::
  "'peer \<Rightarrow> 'c \<Rightarrow> (nat \<Rightarrow> from_behaviour) \<Rightarrow> ('peer, 'c, 'tx, 'w) notifications
     \<Rightarrow> ('peer, 'c, 'tx, 'w) notifications" where
  "command_protocols p c command n =
     fold (\<lambda>index. propagate_event (NotifyHandler p c (command index))) [0..<2] n"

definition on_swarm_event ::
  "('peer, 'c) from_swarm \<Rightarrow> ('peer, 'c, 'tx, 'w) notifications
     \<Rightarrow> ('peer, 'c, 'tx, 'w) notifications" where
  "on_swarm_event event n =
     (case event of
        ConnectionEstablished peer_id connection_id \<Rightarrow>
          command_protocols peer_id connection_id OpenProtocol
            (n\<lparr>peers_details :=
                 map_entry peer_id (List.insert connection_id) (List.insert connection_id [])
                   (peers_details n)\<rparr>)
      | ConnectionClosed peer_id connection_id \<Rightarrow>
          command_protocols peer_id connection_id CloseProtocol
            (case map_of (peers_details n) peer_id of
               Some details \<Rightarrow>
                 n\<lparr>peers_details :=
                     AList.update peer_id (set_remove connection_id details) (peers_details n)\<rparr>
             | None \<Rightarrow> n)
      | OtherFromSwarm \<Rightarrow> n)"

definition on_connection_handler_event ::
  "'peer \<Rightarrow> 'c \<Rightarrow> ('ep, 'tx) to_behaviour \<Rightarrow> ('peer, 'c, 'tx, 'w) notifications
     \<Rightarrow> ('peer, 'c, 'tx, 'w) notifications" where
  "on_connection_handler_event peer_id connection_id event n =
     (case event of
        HandshakeCompleted index _ handshake is_inbound sender \<Rightarrow>
          propagate_event
            (GenerateEvent (CustomProtocolOpen peer_id index handshake is_inbound sender)) n
      | HandshakeError index \<Rightarrow> n
      | RemoteDesiresOpen index \<Rightarrow>
          propagate_event (NotifyHandler peer_id connection_id (OpenProtocol index)) n
      | CloseDesired index \<Rightarrow>
          propagate_event (NotifyHandler peer_id connection_id (CloseProtocol index)) n
      | ProtocolClosed index \<Rightarrow> n
      | Notification index message \<Rightarrow>
          propagate_event (GenerateEvent (SwarmNotification peer_id index message)) n)"

definition notifications_poll ::
  "'w \<Rightarrow> ('peer, 'c, 'tx, 'w) notifications
     \<Rightarrow> ('peer, 'c, 'tx) to_swarm poll \<times> ('peer, 'c, 'tx, 'w) notifications" where
  "notifications_poll cx_waker n =
     (let n1 = n\<lparr>waker := Some cx_waker\<rparr>
      in case events n1 of
           event # rest \<Rightarrow> (Ready event, n1\<lparr>events := rest\<rparr>)
         | [] \<Rightarrow> (Pending, n1))"

section \<open>Basic facts\<close>

lemma propagate_event_simps [simp]:
  "events (propagate_event ev n) = events n @ [ev]"
  "peers_details (propagate_event ev n) = peers_details n"
  "notif_data (propagate_event ev n) = notif_data n"
  "waker (propagate_event ev n) = None"
  "woken (propagate_event ev n) = woken n @ (case waker n of Some w \<Rightarrow> [w] | None \<Rightarrow> [])"
  by (simp_all add: propagate_event_def Let_def split: option.splits)

lemma command_protocols_simps [simp]:
  "events (command_protocols p c f n) =
     events n @ [NotifyHandler p c (f 0), NotifyHandler p c (f 1)]"
  "peers_details (command_protocols p c f n) = peers_details n"
  "waker (command_protocols p c f n) = None"
  "woken (command_protocols p c f n) = woken n @ (case waker n of Some w \<Rightarrow> [w] | None \<Rightarrow> [])"
  by (simp_all add: command_protocols_def upt_rec split: option.splits)

section \<open>The queue of events\<close>

definition notifications_deliver ::
  "'w \<Rightarrow> ('peer, 'c, 'tx, 'w) notifications
     \<Rightarrow> (('peer, 'c, 'tx) to_swarm \<times> ('peer, 'c, 'tx, 'w) notifications) option" where
  "notifications_deliver w n =
     (case notifications_poll w n of (Ready ev, n') \<Rightarrow> Some (ev, n') | (Pending, _) \<Rightarrow> None)"

interpretation swarm_events: event_source propagate_event "notifications_deliver w" events
  by unfold_locales (simp_all add: notifications_deliver_def notifications_poll_def)

section \<open>Runs\<close>

datatype ('peer, 'c, 'ep, 'tx, 'w) notifications_call =
    SwarmEvent "('peer, 'c) from_swarm"
  | HandlerEvent 'peer 'c "('ep, 'tx) to_behaviour"
  | SwarmPoll 'w

fun notifications_step ::
  "('peer, 'c, 'ep, 'tx, 'w) notifications_call \<Rightarrow> ('peer, 'c, 'tx, 'w) notifications
     \<Rightarrow> ('peer, 'c, 'tx, 'w) notifications" where
  "notifications_step (SwarmEvent ev) n = on_swarm_event ev n"
| "notifications_step (HandlerEvent p c ev) n = on_connection_handler_event p c ev n"
| "notifications_step (SwarmPoll w) n = snd (notifications_poll w n)"

definition notifications_run ::
  "('peer, 'c, 'ep, 'tx, 'w) notifications_call list \<Rightarrow> ('peer, 'c, 'tx, 'w) notifications
     \<Rightarrow> ('peer, 'c, 'tx, 'w) notifications" where
  "notifications_run calls n = fold notifications_step calls n"

text \<open>The connections a sequence of calls leaves open.\<close>

fun connections_after ::
  "('peer, 'c, 'ep, 'tx, 'w) notifications_call list \<Rightarrow> ('peer \<times> 'c) set \<Rightarrow> ('peer \<times> 'c) set" where
  "connections_after [] cs = cs"
| "connections_after (SwarmEvent (ConnectionEstablished p c) # calls) cs =
     connections_after calls (insert (p, c) cs)"
| "connections_after (SwarmEvent (ConnectionClosed p c) # calls) cs =
     connections_after calls (cs - {(p, c)})"
| "connections_after (_ # calls) cs = connections_after calls cs"

definition tracked :: "('peer, 'c, 'tx, 'w) notifications \<Rightarrow> ('peer \<times> 'c) set" where
  "tracked n = {(p, c). \<exists>s. map_of (peers_details n) p = Some s \<and> c \<in> set s}"

lemma tracked_step [simp]:
  "tracked (on_swarm_event (ConnectionEstablished p c) n) = insert (p, c) (tracked n)"
  "tracked (on_swarm_event (ConnectionClosed p c) n) = tracked n - {(p, c)}"
  "tracked (on_swarm_event OtherFromSwarm n) = tracked n"
  "tracked (on_connection_handler_event q d ev n) = tracked n"
  "tracked (snd (notifications_poll w n)) = tracked n"
  by (auto simp: tracked_def on_swarm_event_def on_connection_handler_event_def
      notifications_poll_def Let_def container_simps update_conv'
      split: option.splits to_behaviour.splits list.splits if_splits)

text \<open>
  The behaviour's record of peers is exact: after any sequence of swarm events, handler
  events and polls, the connections it tracks are those established and not yet closed.
\<close>

theorem peers_details_track_connections:
  "tracked (notifications_run calls n) = connections_after calls (tracked n)"
proof (induction calls arbitrary: n)
  case (Cons call calls)
  have run: "notifications_run (call # calls) n =
      notifications_run calls (notifications_step call n)"
    by (simp add: notifications_run_def)
  show ?case
  proof (cases call)
    case (SwarmEvent ev)
    then show ?thesis using Cons.IH run by (cases ev) simp_all
  qed (use Cons.IH run in simp_all)
qed (simp add: notifications_run_def)

lemma run_wakes:
  assumes "waker n = Some w \<and> events n = [] \<or> w \<in> set (woken n)"
    and "\<And>w'. SwarmPoll w' \<notin> set calls"
  shows "events (notifications_run calls n) \<noteq> [] \<longrightarrow> w \<in> set (woken (notifications_run calls n))"
  using assms
proof (induction calls arbitrary: n)
  case (Cons call calls)
  have "waker (notifications_step call n) = Some w \<and> events (notifications_step call n) = []
      \<or> w \<in> set (woken (notifications_step call n))"
    using Cons.prems
    by (cases call)
      (auto simp: on_swarm_event_def on_connection_handler_event_def
        split: from_swarm.splits to_behaviour.splits option.splits)
  with Cons show ?case
    by (simp add: notifications_run_def)
qed (auto simp: notifications_run_def)

text \<open>
  C16. No wakeup is lost: once a poll has returned \<open>Pending\<close>, whatever sequence of calls
  follows, if it leaves an event to deliver then the waker of that poll has been woken.
\<close>

theorem no_lost_wakeup:
  assumes "notifications_poll w n = (Pending, n1)"
    and "\<And>w'. SwarmPoll w' \<notin> set calls"
    and "events (notifications_run calls n1) \<noteq> []"
  shows "w \<in> set (woken (notifications_run calls n1))"
proof -
  from assms(1) have "waker n1 = Some w \<and> events n1 = []"
    by (auto simp: notifications_poll_def Let_def split: list.splits)
  with run_wakes [of n1 w calls] assms(2,3) show ?thesis by blast
qed

definition sample_data :: protocols_data where
  "sample_data = \<lparr>data_genesis_hash = [1, 2], node_role = FullNode\<rparr>"

definition sample_notifications :: "(nat, nat, nat, nat) notifications" where
  "sample_notifications = notifications_new sample_data"

theorem no_lost_wakeup_witness:
  "7 \<in> set (woken (notifications_run
        [HandlerEvent 1 2 (ProtocolClosed 0) :: (nat, nat, nat, nat, nat) notifications_call,
         SwarmEvent (ConnectionEstablished 1 2)]
        (snd (notifications_poll 7 sample_notifications))))"
  by (rule no_lost_wakeup [of 7 sample_notifications])
    (simp_all add: notifications_run_def sample_notifications_def notifications_new_def
      notifications_poll_def on_swarm_event_def on_connection_handler_event_def)

fun reaction ::
  "('peer, 'c, 'ep, 'tx, 'w) notifications_call \<Rightarrow> ('peer, 'c, 'tx) to_swarm list" where
  "reaction (SwarmEvent (ConnectionEstablished p c)) =
     map (\<lambda>i. NotifyHandler p c (OpenProtocol i)) [0, 1]"
| "reaction (SwarmEvent (ConnectionClosed p c)) =
     map (\<lambda>i. NotifyHandler p c (CloseProtocol i)) [0, 1]"
| "reaction (HandlerEvent p c (HandshakeCompleted i ep h inbound tx)) =
     [GenerateEvent (CustomProtocolOpen p i h inbound tx)]"
| "reaction (HandlerEvent p c (RemoteDesiresOpen i)) = [NotifyHandler p c (OpenProtocol i)]"
| "reaction (HandlerEvent p c (CloseDesired i)) = [NotifyHandler p c (CloseProtocol i)]"
| "reaction (HandlerEvent p c (Notification i m)) = [GenerateEvent (SwarmNotification p i m)]"
| "reaction _ = []"

lemma step_events:
  "events (notifications_step call n) =
     (case call of SwarmPoll w \<Rightarrow> tl (events n) | _ \<Rightarrow> events n @ reaction call)"
proof (cases call)
  case (SwarmEvent ev)
  then show ?thesis by (cases ev) (simp_all add: on_swarm_event_def split: option.splits)
next
  case (HandlerEvent p c ev)
  then show ?thesis by (cases ev) (simp_all add: on_connection_handler_event_def)
next
  case (SwarmPoll w)
  then show ?thesis by (simp add: notifications_poll_def Let_def split: list.splits)
qed

text \<open>The events handed out by the polls of a run.\<close>

fun delivered ::
  "('peer, 'c, 'ep, 'tx, 'w) notifications_call list \<Rightarrow> ('peer, 'c, 'tx, 'w) notifications
     \<Rightarrow> ('peer, 'c, 'tx) to_swarm list" where
  "delivered [] n = []"
| "delivered (call # calls) n =
     (case call of SwarmPoll w \<Rightarrow> (case events n of [] \<Rightarrow> [] | ev # _ \<Rightarrow> [ev]) | _ \<Rightarrow> [])
     @ delivered calls (notifications_step call n)"

text \<open>
  C24. What the behaviour asks of a handler and what it reports, as a function of the calls: a
  new connection is told to open both protocols, a closed one to close both, a handler that
  reports a remote's wish to open (close) a protocol is told, on the same connection, to open
  (close) it, and a completed handshake or a notification is reported to the swarm under its
  peer and index. Nothing else is ever queued; in particular the closing of a protocol is
  never reported.
\<close>

theorem notifications_deliver_reactions:
  fixes calls :: "('peer, 'c, 'ep, 'tx, 'w) notifications_call list"
  shows "delivered calls (notifications_new d) @ events (notifications_run calls (notifications_new d))
     = concat (map reaction calls)
   \<and> (\<forall>p i. GenerateEvent (CustomProtocolClosed p i) \<notin> set (delivered calls (notifications_new d)))"
proof -
  have run: "delivered calls n @ events (notifications_run calls n) =
      events n @ concat (map reaction calls)" for n
  proof (induction calls arbitrary: n)
    case (Cons call calls)
    then show ?case
      using step_events [of call n]
      by (cases call; cases "events n") (simp_all add: notifications_run_def)
  qed (simp add: notifications_run_def)
  have "GenerateEvent (CustomProtocolClosed p i) \<notin> set (reaction call)" for p i
    and call :: "('peer, 'c, 'ep, 'tx, 'w) notifications_call"
    by (cases call rule: reaction.cases) auto
  then have closed: "GenerateEvent (CustomProtocolClosed p i) \<notin> set (concat (map reaction calls))"
    for p i by auto
  have "delivered calls (notifications_new d) @ events (notifications_run calls (notifications_new d))
      = concat (map reaction calls)"
    using run [of "notifications_new d"] by (simp add: notifications_new_def)
  with closed show ?thesis by (metis Un_iff set_append)
qed

end
