(* ===== verification/Notification_System.thy ===== *)
theory Notification_System
  imports Notifications
begin

text \<open>
  The notification protocols as one system: the behaviour (\<open>notifications/behavior.rs\<close>) with
  the handlers of its connections (\<open>notifications/handler.rs\<close>), under a swarm that builds a
  handler for each connection, carries the commands of the behaviour to the handlers and their
  events back, and answers the substreams they ask for. What each side promises the other is
  an invariant of every reachable state.
\<close>

section \<open>The system\<close>

record ('k, 'rx, 'tx, 'addr, 'peer, 'c, 'w) notification_system =
  sys_behaviour :: "('peer, 'c, 'tx, 'w) notifications"
  sys_views :: "('peer \<times> 'c, ('k, 'rx, 'tx, 'addr connected_point, 'peer) swarm_view) hash_map"

definition system_new ::
  "protocols_data \<Rightarrow> ('k, 'rx, 'tx, 'addr, 'peer, 'c, 'w) notification_system" where
  "system_new data = \<lparr>sys_behaviour = notifications_new data, sys_views = []\<rparr>"

text \<open>The swarm's view of a new handler, and of one whose command was carried out.\<close>

definition fresh_view ::
  "('k, 'rx, 'tx, 'ep, 'peer) notifications_handler \<Rightarrow> ('k, 'rx, 'tx, 'ep, 'peer) swarm_view" where
  "fresh_view h = \<lparr>handler = h, in_flight = {#}, opens = {#}, answers = {#}\<rparr>"

fun opened_by :: "from_behaviour \<Rightarrow> nat multiset" where
  "opened_by (OpenProtocol i) = {#i#}"
| "opened_by (CloseProtocol i) = {#}"

definition set_view ::
  "'peer \<times> 'c \<Rightarrow> ('k, 'rx, 'tx, 'addr connected_point, 'peer) swarm_view
     \<Rightarrow> ('k, 'rx, 'tx, 'addr, 'peer, 'c, 'w) notification_system
     \<Rightarrow> ('k, 'rx, 'tx, 'addr, 'peer, 'c, 'w) notification_system" where
  "set_view key v s = s\<lparr>sys_views := AList.update key v (sys_views s)\<rparr>"

text \<open>
  A step of the swarm. A connection comes with the handler the behaviour gives for it; an
  event of the behaviour goes to its handler, or is dropped if the connection is gone.
\<close>

inductive system_step ::
  "(bytes \<Rightarrow> string) \<Rightarrow> (block_announces_handshake \<Rightarrow> bytes)
     \<Rightarrow> ('k, 'rx, 'tx, 'addr, 'peer, 'c, 'w) notification_system
     \<Rightarrow> ('k, 'rx, 'tx, 'addr, 'peer, 'c, 'w) notification_system \<Rightarrow> bool" for hex_encode scale_encode where
  sys_inbound_connection:
    "map_of (sys_views s) (p, c) = None
     \<Longrightarrow> handle_established_inbound_connection hex_encode scale_encode p la ra (sys_behaviour s) = (Inr h :: unit + _)
     \<Longrightarrow> system_step hex_encode scale_encode s
           (set_view (p, c) (fresh_view h)
             (s\<lparr>sys_behaviour := on_swarm_event (ConnectionEstablished p c) (sys_behaviour s)\<rparr>))"
| sys_outbound_connection:
    "map_of (sys_views s) (p, c) = None
     \<Longrightarrow> handle_established_outbound_connection hex_encode scale_encode p a (sys_behaviour s) = (Inr h :: unit + _)
     \<Longrightarrow> system_step hex_encode scale_encode s
           (set_view (p, c) (fresh_view h)
             (s\<lparr>sys_behaviour := on_swarm_event (ConnectionEstablished p c) (sys_behaviour s)\<rparr>))"
| sys_disconnected:
    "map_of (sys_views s) (p, c) = Some v
     \<Longrightarrow> system_step hex_encode scale_encode s
           (s\<lparr>sys_behaviour := on_swarm_event (ConnectionClosed p c) (sys_behaviour s),
              sys_views := map_remove (p, c) (sys_views s)\<rparr>)"
| sys_command:
    "notifications_poll w (sys_behaviour s) = (Ready (NotifyHandler p c cmd), b')
     \<Longrightarrow> map_of (sys_views s) (p, c) = Some v
     \<Longrightarrow> on_behaviour_event cmd (handler v) = Inr h'
     \<Longrightarrow> system_step hex_encode scale_encode s
           (set_view (p, c) (v\<lparr>handler := h', opens := opens v + opened_by cmd\<rparr>)
             (s\<lparr>sys_behaviour := b'\<rparr>))"
| sys_command_late:
    "notifications_poll w (sys_behaviour s) = (Ready (NotifyHandler p c cmd), b')
     \<Longrightarrow> map_of (sys_views s) (p, c) = None
     \<Longrightarrow> system_step hex_encode scale_encode s (s\<lparr>sys_behaviour := b'\<rparr>)"
| sys_event:
    "notifications_poll w (sys_behaviour s) = (Ready (GenerateEvent e), b')
     \<Longrightarrow> system_step hex_encode scale_encode s (s\<lparr>sys_behaviour := b'\<rparr>)"
| sys_idle:
    "notifications_poll w (sys_behaviour s) = (Pending, b')
     \<Longrightarrow> system_step hex_encode scale_encode s (s\<lparr>sys_behaviour := b'\<rparr>)"
| sys_inbound_substream:
    "map_of (sys_views s) key = Some v
     \<Longrightarrow> pr_index protocol < length (listen_protocol (handler v))
     \<Longrightarrow> on_connection_event channel (FullyNegotiatedInbound protocol) (handler v) = Inr h'
     \<Longrightarrow> system_step hex_encode scale_encode s (set_view key (v\<lparr>handler := h'\<rparr>) s)"
| sys_outbound_substream:
    "map_of (sys_views s) key = Some v \<Longrightarrow> i \<in># in_flight v
     \<Longrightarrow> on_connection_event channel (FullyNegotiatedOutbound substream i) (handler v) = Inr h'
     \<Longrightarrow> system_step hex_encode scale_encode s
           (set_view key (v\<lparr>handler := h', in_flight := in_flight v - {#i#}\<rparr>) s)"
| sys_dial_error:
    "map_of (sys_views s) key = Some v \<Longrightarrow> i \<in># in_flight v
     \<Longrightarrow> on_connection_event channel (DialUpgradeError i err) (handler v) = Inr h'
     \<Longrightarrow> system_step hex_encode scale_encode s
           (set_view key (v\<lparr>handler := h', in_flight := in_flight v - {#i#}\<rparr>) s)"
| sys_handler_event:
    "map_of (sys_views s) (p, c) = Some v
     \<Longrightarrow> handler_poll E (handler v) = Some (Inr (Ready (NotifyBehaviour ev), h'))
     \<Longrightarrow> system_step hex_encode scale_encode s
           (set_view (p, c) (v\<lparr>handler := h', answers := answers v + answer_of (NotifyBehaviour ev)\<rparr>)
             (s\<lparr>sys_behaviour := on_connection_handler_event p c ev (sys_behaviour s)\<rparr>))"
| sys_substream_request:
    "map_of (sys_views s) key = Some v
     \<Longrightarrow> handler_poll E (handler v) = Some (Inr (Ready (OutboundSubstreamRequest u i), h'))
     \<Longrightarrow> system_step hex_encode scale_encode s
           (set_view key (v\<lparr>handler := h', in_flight := in_flight v + {#i#}\<rparr>) s)"
| sys_handler_idle:
    "map_of (sys_views s) key = Some v
     \<Longrightarrow> handler_poll E (handler v) = Some (Inr (Pending, h'))
     \<Longrightarrow> system_step hex_encode scale_encode s (set_view key (v\<lparr>handler := h'\<rparr>) s)"

inductive system_reachable ::
  "(bytes \<Rightarrow> string) \<Rightarrow> (block_announces_handshake \<Rightarrow> bytes) \<Rightarrow> protocols_data
     \<Rightarrow> ('k, 'rx, 'tx, 'addr, 'peer, 'c, 'w) notification_system \<Rightarrow> bool"
  for hex_encode scale_encode data where
  sys_init: "system_reachable hex_encode scale_encode data (system_new data)"
| sys_steps:
    "system_reachable hex_encode scale_encode data s \<Longrightarrow> system_step hex_encode scale_encode s s'
     \<Longrightarrow> system_reachable hex_encode scale_encode data s'"

section \<open>The invariant\<close>

fun command_index :: "from_behaviour \<Rightarrow> nat" where
  "command_index (OpenProtocol i) = i"
| "command_index (CloseProtocol i) = i"

fun event_index :: "('ep, 'tx) to_behaviour \<Rightarrow> nat" where
  "event_index (HandshakeCompleted i _ _ _ _) = i"
| "event_index (HandshakeError i) = i"
| "event_index (RemoteDesiresOpen i) = i"
| "event_index (CloseDesired i) = i"
| "event_index (ProtocolClosed i) = i"
| "event_index (Notification i _) = i"

fun pending_index :: "('ep, 'tx) handler_event \<Rightarrow> nat" where
  "pending_index (NotifyBehaviour ev) = event_index ev"
| "pending_index (OutboundSubstreamRequest _ i) = i"

definition handler_ok :: "('k, 'rx, 'tx, 'ep, 'peer) notifications_handler \<Rightarrow> bool" where
  "handler_ok h \<longleftrightarrow>
     length (protocols h) = 2 \<and> (\<forall>ev \<in> set (pending_events h). pending_index ev < 2)"

definition view_ok :: "('k, 'rx, 'tx, 'ep, 'peer) swarm_view \<Rightarrow> bool" where
  "view_ok v \<longleftrightarrow> handler_ok (handler v) \<and> (\<forall>i \<in># in_flight v. i < 2)"

text \<open>The open commands for a protocol of a connection that are still on their way.\<close>

definition queued_opens ::
  "'peer \<Rightarrow> 'c \<Rightarrow> nat \<Rightarrow> ('peer, 'c, 'tx) to_swarm list \<Rightarrow> nat" where
  "queued_opens p c i evs = length (filter (\<lambda>ev. ev = NotifyHandler p c (OpenProtocol i)) evs)"

definition system_inv :: "('k, 'rx, 'tx, 'addr, 'peer, 'c, 'w) notification_system \<Rightarrow> bool" where
  "system_inv s \<longleftrightarrow>
     (\<forall>p c cmd. NotifyHandler p c cmd \<in> set (events (sys_behaviour s)) \<longrightarrow> command_index cmd < 2)
     \<and> fst ` set (sys_views s) = tracked (sys_behaviour s)
     \<and> (\<forall>key v. map_of (sys_views s) key = Some v \<longrightarrow> view_ok v)
     \<and> (\<forall>p c v i. map_of (sys_views s) (p, c) = Some v \<longrightarrow> i < 2 \<longrightarrow>
          1 \<le> count (opens v) i + queued_opens p c i (events (sys_behaviour s)))"

text \<open>What each call of a handler keeps.\<close>

lemma behaviour_event_ok:
  "handler_ok h \<Longrightarrow> on_behaviour_event cmd h = Inr h' \<Longrightarrow> handler_ok h'"
  by (cases cmd)
    (auto simp: handler_ok_def on_behaviour_event_def with_protocol_eq_Inr on_open_def on_close_def
      split: protocol_state.splits if_splits)

lemma connection_event_ok:
  "handler_ok h \<Longrightarrow> on_connection_event channel ev h = Inr h' \<Longrightarrow> handler_ok h'"
  by (cases ev)
    (auto simp: handler_ok_def on_connection_event_def with_protocol_eq_Inr on_negotiated_inbound_def
      on_negotiated_outbound_def on_dial_upgrade_error_def
      split: protocol_state.splits if_splits prod.splits)

lemma handler_poll_ok:
  assumes "handler_ok h" and "handler_poll E h = Some (Inr (r, h'))"
  shows "handler_ok h'" and "r = Ready ev \<Longrightarrow> pending_index ev < 2"
proof -
  have "handler_ok h' \<and> (\<forall>ev. r = Ready ev \<longrightarrow> pending_index ev < 2)"
    using assms(2)
  proof (cases rule: handler_poll_cases)
    case (queued ev rest)
    with assms(1) show ?thesis by (simp add: handler_ok_def)
  next
    case (passes ps)
    with assms(1) list_all2_lengthD [OF passes(3)] show ?thesis
      by (fastforce simp: handler_ok_def poll_event_def)
  qed
  then show "handler_ok h'" and "r = Ready ev \<Longrightarrow> pending_index ev < 2" by blast+
qed

lemma handler_new_ok: "handler_ok (handler_new hex_encode scale_encode p ep data)"
  by (simp add: handler_ok_def handler_new_def Let_def)

lemma ok_commands:
  assumes "handler_ok h"
  shows "command_index cmd < 2 \<Longrightarrow> \<exists>h'. on_behaviour_event cmd h = Inr h'"
    and "i < 2 \<Longrightarrow> \<exists>h'. on_connection_event channel (FullyNegotiatedOutbound substream i) h = Inr h'"
    and "i < 2 \<Longrightarrow> \<exists>h'. on_connection_event channel (DialUpgradeError i err) h = Inr h'"
    and "pr_index protocol < length (listen_protocol h) \<Longrightarrow>
      \<exists>h'. on_connection_event channel (FullyNegotiatedInbound protocol) h = Inr h'"
proof -
  have "length (protocols h) = 2"
    using assms by (simp add: handler_ok_def)
  then show "command_index cmd < 2 \<Longrightarrow> \<exists>h'. on_behaviour_event cmd h = Inr h'"
    and "i < 2 \<Longrightarrow> \<exists>h'. on_connection_event channel (FullyNegotiatedOutbound substream i) h = Inr h'"
    and "i < 2 \<Longrightarrow> \<exists>h'. on_connection_event channel (DialUpgradeError i err) h = Inr h'"
    and "pr_index protocol < length (listen_protocol h) \<Longrightarrow>
      \<exists>h'. on_connection_event channel (FullyNegotiatedInbound protocol) h = Inr h'"
    by (cases cmd; simp add: on_behaviour_event_def on_connection_event_def with_protocol_eq_Inr
        listen_protocol_def)+
qed

text \<open>What the behaviour adds to its queue.\<close>

lemma handler_event_queue:
  "\<exists>new. events (on_connection_handler_event p c ev n) = events n @ new
     \<and> (\<forall>q d cmd. NotifyHandler q d cmd \<in> set new \<longrightarrow> command_index cmd = event_index ev)"
  by (cases ev) (auto simp: on_connection_handler_event_def)

lemma queued_opens_append [simp]:
  "queued_opens p c i (xs @ ys) = queued_opens p c i xs + queued_opens p c i ys"
  by (simp add: queued_opens_def)

lemma poll_queue:
  "notifications_poll w n = (Ready ev, n') \<Longrightarrow> events n = ev # events n' \<and> tracked n' = tracked n"
  "notifications_poll w n = (Pending, n') \<Longrightarrow> events n' = events n \<and> tracked n' = tracked n"
  by (auto simp: notifications_poll_def tracked_def Let_def split: list.splits)

text \<open>Each kind of step keeps the invariant.\<close>

lemma inv_view_ok: "system_inv s \<Longrightarrow> map_of (sys_views s) key = Some v \<Longrightarrow> view_ok v"
  by (cases key) (auto simp: system_inv_def)

lemma inv_opens:
  "system_inv s \<Longrightarrow> map_of (sys_views s) (p, c) = Some v \<Longrightarrow> i < 2 \<Longrightarrow>
   1 \<le> count (opens v) i + queued_opens p c i (events (sys_behaviour s))"
  by (auto simp: system_inv_def)

lemma inv_established:
  assumes "system_inv s" and "view_ok v"
  shows "system_inv (set_view (p, c) v
    (s\<lparr>sys_behaviour := on_swarm_event (ConnectionEstablished p c) (sys_behaviour s)\<rparr>))"
proof -
  have ev: "events (on_swarm_event (ConnectionEstablished p c) (sys_behaviour s)) =
      events (sys_behaviour s) @ [NotifyHandler p c (OpenProtocol 0), NotifyHandler p c (OpenProtocol 1)]"
    by (simp add: on_swarm_event_def)
  have opened: "queued_opens p c i (events (on_swarm_event (ConnectionEstablished p c) (sys_behaviour s))) \<ge> 1"
    if "i < 2" for i
    unfolding ev using that by (cases i) (auto simp: queued_opens_def less_Suc_eq numeral_2_eq_2)
  have kept: "queued_opens q d i (events (sys_behaviour s))
      \<le> queued_opens q d i (events (on_swarm_event (ConnectionEstablished p c) (sys_behaviour s)))" for q d i
    unfolding ev by simp
  let ?b = "on_swarm_event (ConnectionEstablished p c) (sys_behaviour s)"
  have "1 \<le> count (opens v') i + queued_opens q d i (events ?b)"
    if "map_of (AList.update (p, c) v (sys_views s)) (q, d) = Some v'" "i < 2" for q d v' i
  proof (cases "(q, d) = (p, c)")
    case True
    with opened [OF that(2)] show ?thesis by (simp del: queued_opens_append)
  next
    case False
    with that assms(1) have "1 \<le> count (opens v') i + queued_opens q d i (events (sys_behaviour s))"
      by (auto simp: update_conv' intro: inv_opens [simplified])
    with kept [of q d i] show ?thesis by linarith
  qed
  moreover have "view_ok v'" if "map_of (AList.update (p, c) v (sys_views s)) key = Some v'" for key v'
    using that assms by (cases key) (auto simp: system_inv_def update_conv' split: if_splits)
  ultimately show ?thesis
    using assms(1) unfolding system_inv_def set_view_def by (auto simp: ev keys_update)
qed

lemma inv_disconnected:
  assumes "system_inv s"
  shows "system_inv (s\<lparr>sys_behaviour := on_swarm_event (ConnectionClosed p c) (sys_behaviour s),
    sys_views := map_remove (p, c) (sys_views s)\<rparr>)"
proof -
  have ev: "events (on_swarm_event (ConnectionClosed p c) (sys_behaviour s)) =
      events (sys_behaviour s) @ [NotifyHandler p c (CloseProtocol 0), NotifyHandler p c (CloseProtocol 1)]"
    by (simp add: on_swarm_event_def split: option.splits)
  have "1 \<le> count (opens v) i
      + queued_opens q d i (events (on_swarm_event (ConnectionClosed p c) (sys_behaviour s)))"
    if "map_of (map_remove (p, c) (sys_views s)) (q, d) = Some v" "i < 2" for q d v i
  proof -
    have "1 \<le> count (opens v) i + queued_opens q d i (events (sys_behaviour s))"
      using that assms by (auto simp: system_inv_def delete_conv' split: if_splits)
    then show ?thesis by (simp add: ev)
  qed
  moreover have "view_ok v" if "map_of (map_remove (p, c) (sys_views s)) key = Some v" for key v
    using that assms by (cases key) (auto simp: system_inv_def delete_conv' split: if_splits)
  ultimately show ?thesis
    using assms unfolding system_inv_def by (auto simp: ev keys_map_remove)
qed

lemma inv_view:
  assumes "system_inv s" and "map_of (sys_views s) key = Some v" and "view_ok v'"
    and "opens v' = opens v"
  shows "system_inv (set_view key v' s)"
  using assms unfolding system_inv_def set_view_def
  by (auto simp: keys_update update_conv' dest: map_of_eq_Some_keys)

lemma inv_command:
  assumes "system_inv s" and "notifications_poll w (sys_behaviour s) = (Ready (NotifyHandler p c cmd), b')"
    and "map_of (sys_views s) (p, c) = Some v" and "view_ok v'"
    and "opens v' = opens v + opened_by cmd"
  shows "system_inv (set_view (p, c) v' (s\<lparr>sys_behaviour := b'\<rparr>))"
proof -
  note q = poll_queue(1) [OF assms(2)]
  have q2: "queued_opens q d i (events (sys_behaviour s)) =
      (if (q, d) = (p, c) then count (opened_by cmd) i else 0) + queued_opens q d i (events b')" for q d i
    using q by (cases cmd) (auto simp: queued_opens_def)
  have "1 \<le> count (opens u) i + queued_opens q d i (events b')"
    if "map_of (AList.update (p, c) v' (sys_views s)) (q, d) = Some u" "i < 2" for q d u i
  proof (cases "(q, d) = (p, c)")
    case True
    with inv_opens [OF assms(1,3) that(2)] that assms(5) show ?thesis
      by (simp add: q2 update_conv')
  next
    case False
    with inv_opens [OF assms(1) _ that(2), of q d u] that(1) show ?thesis
      by (simp add: q2 update_conv' split: if_splits)
  qed
  moreover have "view_ok u" if "map_of (AList.update (p, c) v' (sys_views s)) key = Some u" for key u
    using that inv_view_ok [OF assms(1), of key u] assms(4) by (auto simp: update_conv' split: if_splits)
  ultimately show ?thesis
    using assms(1,3) q unfolding system_inv_def set_view_def
    by (auto simp: keys_update dest: map_of_eq_Some_keys)
qed

lemma inv_dropped:
  assumes "system_inv s" and "notifications_poll w (sys_behaviour s) = (Ready ev, b')"
    and "\<And>p c cmd. ev = NotifyHandler p c cmd \<Longrightarrow> map_of (sys_views s) (p, c) = None"
  shows "system_inv (s\<lparr>sys_behaviour := b'\<rparr>)"
proof -
  note q = poll_queue(1) [OF assms(2)]
  have "queued_opens p c i (events (sys_behaviour s)) = queued_opens p c i (events b')"
    if "map_of (sys_views s) (p, c) = Some v" for p c v i
    using q assms(3) that by (auto simp: queued_opens_def)
  with assms(1) q show ?thesis
    unfolding system_inv_def by auto
qed

lemma inv_reported:
  assumes "system_inv s" and "event_index ev < 2" and "map_of (sys_views s) (p, c) = Some v"
    and "view_ok v'" and "opens v' = opens v"
  shows "system_inv (set_view (p, c) v'
    (s\<lparr>sys_behaviour := on_connection_handler_event p c ev (sys_behaviour s)\<rparr>))"
proof -
  from handler_event_queue [of p c ev "sys_behaviour s"]
  have "system_inv (s\<lparr>sys_behaviour := on_connection_handler_event p c ev (sys_behaviour s)\<rparr>)"
  proof (elim exE conjE)
    fix new
    assume new: "events (on_connection_handler_event p c ev (sys_behaviour s)) =
        events (sys_behaviour s) @ new"
      "\<forall>q d cmd. NotifyHandler q d cmd \<in> set new \<longrightarrow> command_index cmd = event_index ev"
    have "1 \<le> count (opens u) i
        + queued_opens q d i (events (on_connection_handler_event p c ev (sys_behaviour s)))"
      if "map_of (sys_views s) (q, d) = Some u" "i < 2" for q d u i
    proof -
      have "1 \<le> count (opens u) i + queued_opens q d i (events (sys_behaviour s))"
        using that assms(1) by (auto simp: system_inv_def)
      then show ?thesis by (simp add: new(1))
    qed
    then show ?thesis
      using assms(1,2) new unfolding system_inv_def by auto
  qed
  then show ?thesis
    using assms(3-5) by (intro inv_view) simp_all
qed

lemma system_step_inv:
  "system_step hex_encode scale_encode s s' \<Longrightarrow> system_inv s \<Longrightarrow> system_inv s'"
proof (induction rule: system_step.induct)
  case (sys_inbound_connection s p c la ra h)
  then show ?case
    by (intro inv_established)
      (auto simp: fresh_view_def view_ok_def handler_new_ok handle_established_inbound_connection_def)
next
  case (sys_outbound_connection s p c a h)
  then show ?case
    by (intro inv_established)
      (auto simp: fresh_view_def view_ok_def handler_new_ok handle_established_outbound_connection_def)
next
  case (sys_disconnected s p c v)
  then show ?case by (intro inv_disconnected)
next
  case (sys_command w s p c cmd b' v h')
  with inv_view_ok [OF sys_command(4,2)] show ?case
    by (intro inv_command [OF sys_command(4,1,2)]) (auto simp: view_ok_def intro: behaviour_event_ok)
next
  case (sys_command_late w s p c cmd b')
  then show ?case by (intro inv_dropped [OF sys_command_late(3,1)]) auto
next
  case (sys_event w s e b')
  then show ?case by (intro inv_dropped [OF sys_event(2,1)]) auto
next
  case (sys_idle w s b')
  then show ?case
    using poll_queue(2) [OF sys_idle(1)] by (simp add: system_inv_def)
next
  case (sys_inbound_substream s key v protocol channel h')
  with inv_view_ok [OF sys_inbound_substream(4,1)] show ?case
    by (intro inv_view [OF sys_inbound_substream(4,1)]) (auto simp: view_ok_def intro: connection_event_ok)
next
  case (sys_outbound_substream s key v i channel substream h')
  with inv_view_ok [OF sys_outbound_substream(4,1)] show ?case
    by (intro inv_view [OF sys_outbound_substream(4,1)])
      (auto simp: view_ok_def intro: connection_event_ok dest: in_diffD)
next
  case (sys_dial_error s key v i channel err h')
  with inv_view_ok [OF sys_dial_error(4,1)] show ?case
    by (intro inv_view [OF sys_dial_error(4,1)])
      (auto simp: view_ok_def intro: connection_event_ok dest: in_diffD)
next
  case (sys_handler_event s p c v E ev h')
  then have "handler_ok (handler v)" "\<forall>i \<in># in_flight v. i < 2"
    using inv_view_ok by (fastforce simp: view_ok_def)+
  with handler_poll_ok [OF _ sys_handler_event(2)] sys_handler_event show ?case
    by (intro inv_reported) (auto simp: view_ok_def)
next
  case (sys_substream_request s key v E u i h')
  then have "handler_ok (handler v)" "\<forall>i \<in># in_flight v. i < 2"
    using inv_view_ok by (fastforce simp: view_ok_def)+
  with handler_poll_ok [OF _ sys_substream_request(2)] sys_substream_request show ?case
    by (intro inv_view) (auto simp: view_ok_def)
next
  case (sys_handler_idle s key v E h')
  then have "handler_ok (handler v)" "\<forall>i \<in># in_flight v. i < 2"
    using inv_view_ok by (fastforce simp: view_ok_def)+
  with handler_poll_ok(1) [OF _ sys_handler_idle(2)] sys_handler_idle show ?case
    by (intro inv_view) (auto simp: view_ok_def)
qed

lemma system_reachable_inv: "system_reachable hex_encode scale_encode data s \<Longrightarrow> system_inv s"
proof (induction rule: system_reachable.induct)
  case sys_init
  show ?case
    by (simp add: system_new_def system_inv_def notifications_new_def tracked_def)
next
  case (sys_steps s s')
  then show ?case by (blast intro: system_step_inv)
qed

text \<open>A system with one connection, dialed by this node.\<close>

definition sample_connection ::
  "(nat, nat, nat, nat connected_point, nat) notifications_handler" where
  "sample_connection = handler_new (\<lambda>_. ''abab'') (\<lambda>_. []) 1 (Dialer 3 DialerRole PortReuse)
     sample_data"

definition sample_system :: "(nat, nat, nat, nat, nat, nat, nat) notification_system" where
  "sample_system = set_view (1, 2) (fresh_view sample_connection)
     ((system_new sample_data)
       \<lparr>sys_behaviour := on_swarm_event (ConnectionEstablished 1 2)
          (notifications_new sample_data)\<rparr>)"

lemma sample_system_reachable:
  "system_reachable (\<lambda>_. ''abab'') (\<lambda>_. []) sample_data sample_system"
proof -
  let ?s = "system_new sample_data ::
    (nat, nat, nat, nat, nat, nat, nat) notification_system"
  have "handle_established_outbound_connection (\<lambda>_. ''abab'') (\<lambda>_. []) 1 3 (sys_behaviour ?s)
      = (Inr sample_connection :: unit + _)"
    by (simp add: handle_established_outbound_connection_def sample_connection_def system_new_def
        notifications_new_def)
  then have "system_step (\<lambda>_. ''abab'') (\<lambda>_. []) ?s (set_view (1, 2) (fresh_view sample_connection)
      (?s\<lparr>sys_behaviour := on_swarm_event (ConnectionEstablished 1 2) (sys_behaviour ?s)\<rparr>))"
    by (intro sys_outbound_connection) (simp_all add: system_new_def)
  then show ?thesis
    unfolding sample_system_def by (intro sys_steps [OF sys_init]) (simp add: system_new_def)
qed

section \<open>Properties\<close>

text \<open>
  C2. The behaviour and its handlers fit together. In every state the notification system can
  reach, the connections that have a handler are exactly the ones the behaviour keeps; for each
  of them and each of the two protocols, the command to open it was carried out or is queued;
  and no call the swarm makes on a handler (the next command of the behaviour, the answer to a
  substream it asked for, a substream for a protocol it listens on) panics.
\<close>

theorem notification_system_sound:
  assumes "system_reachable hex_encode scale_encode data s"
  shows "fst ` set (sys_views s) = tracked (sys_behaviour s)
    \<and> (\<forall>p c v. map_of (sys_views s) (p, c) = Some v \<longrightarrow>
        (\<forall>i < 2. i \<in># opens v \<or> NotifyHandler p c (OpenProtocol i) \<in> set (events (sys_behaviour s)))
        \<and> (\<forall>w cmd b'. notifications_poll w (sys_behaviour s) = (Ready (NotifyHandler p c cmd), b') \<longrightarrow>
             (\<exists>h'. on_behaviour_event cmd (handler v) = Inr h'))
        \<and> (\<forall>channel i substream err. i \<in># in_flight v \<longrightarrow>
             (\<exists>h'. on_connection_event channel (FullyNegotiatedOutbound substream i) (handler v) = Inr h')
             \<and> (\<exists>h'. on_connection_event channel (DialUpgradeError i err) (handler v) = Inr h'))
        \<and> (\<forall>channel protocol. pr_index protocol < length (listen_protocol (handler v)) \<longrightarrow>
             (\<exists>h'. on_connection_event channel (FullyNegotiatedInbound protocol) (handler v) = Inr h')))"
proof -
  have inv: "system_inv s"
    using assms by (rule system_reachable_inv)
  have "i \<in># opens v \<or> NotifyHandler p c (OpenProtocol i) \<in> set (events (sys_behaviour s))"
    if "map_of (sys_views s) (p, c) = Some v" "i < 2" for p c v i
  proof -
    have "1 \<le> count (opens v) i + queued_opens p c i (events (sys_behaviour s))"
      using inv that by (auto simp: system_inv_def)
    moreover have "queued_opens p c i (events (sys_behaviour s)) = 0"
      if "NotifyHandler p c (OpenProtocol i) \<notin> set (events (sys_behaviour s))"
      using that by (auto simp: queued_opens_def filter_empty_conv)
    ultimately show ?thesis
      by (cases "i \<in># opens v") (auto simp: not_in_iff)
  qed
  moreover have "command_index cmd < 2"
    if "notifications_poll w (sys_behaviour s) = (Ready (NotifyHandler p c cmd), b')" for w p c cmd b'
    using inv poll_queue(1) [OF that] by (auto simp: system_inv_def)
  moreover have "handler_ok (handler v) \<and> (\<forall>i \<in># in_flight v. i < 2)"
    if "map_of (sys_views s) key = Some v" for key v
    using inv_view_ok [OF inv that] by (simp add: view_ok_def)
  moreover have "fst ` set (sys_views s) = tracked (sys_behaviour s)"
    using inv by (simp add: system_inv_def)
  ultimately show ?thesis
    by (intro conjI allI impI) (blast intro: ok_commands)+
qed

theorem notification_system_sound_witness:
  "tracked (sys_behaviour sample_system) = {(1, 2)}
   \<and> NotifyHandler 1 2 (OpenProtocol 1) \<in> set (events (sys_behaviour sample_system))
   \<and> (\<exists>h'. on_behaviour_event (OpenProtocol 0) sample_connection = Inr h')"
proof -
  note sound = notification_system_sound [OF sample_system_reachable]
  have view: "map_of (sys_views sample_system) (1, 2) = Some (fresh_view sample_connection)"
    by (simp add: sample_system_def set_view_def system_new_def)
  have "fst ` set (sys_views sample_system) = {(1, 2)}"
    by (simp add: sample_system_def set_view_def system_new_def)
  moreover have "opens (fresh_view sample_connection) = {#}"
    by (simp add: fresh_view_def)
  moreover have "handler (fresh_view sample_connection) = sample_connection"
    by (simp add: fresh_view_def)
  moreover have "\<exists>b'. notifications_poll 0 (sys_behaviour sample_system)
      = (Ready (NotifyHandler 1 2 (OpenProtocol 0)), b')"
    by (simp add: sample_system_def set_view_def notifications_poll_def on_swarm_event_def
        notifications_new_def)
  ultimately show ?thesis
    using sound view by fastforce
qed

end
