(* ===== verification/Ss58.thy ===== *)
theory Ss58
  imports Prelude
begin

unbundle bit_operations_syntax

text \<open>
  The textual form of an account (\<open>util/ss58.rs\<close>): a one- or two-byte network prefix, the
  32-byte public key and two bytes of checksum, in base 58. The hash (Blake2b-512) and the
  base-58 encoder are third-party code and are arguments.
\<close>

section \<open>Definitions\<close>

definition SS58PRE :: bytes where
  "SS58PRE = [0x53, 0x53, 0x35, 0x38, 0x50, 0x52, 0x45]"

definition ss58hash :: "(bytes \<Rightarrow> bytes) \<Rightarrow> bytes \<Rightarrow> bytes" where
  "ss58hash blake2b512 d = blake2b512 (SS58PRE @ d)"

text \<open>The prefix bytes of a version: the match on the masked identifier, casts included.\<close>

definition ss58_prefix :: "u16 \<Rightarrow> panic + bytes" where
  "ss58_prefix version =
     (let ident = version AND 0b0011111111111111
      in if ident \<le> 63 then Inr [ucast ident]
         else if 64 \<le> ident \<and> ident \<le> 16383 then
           (let first = drop_bit 2 (ucast (ident AND 0b0000000011111100) :: u8);
                second = (ucast (drop_bit 8 ident) :: u8)
                   OR push_bit 6 (ucast (ident AND 0b0000000000000011) :: u8)
            in Inr [first OR 0b01000000, second])
         else Inl (Unreachable ''masked out the upper two bits''))"

definition to_ss58 ::
  "(bytes \<Rightarrow> bytes) \<Rightarrow> (bytes \<Rightarrow> string) \<Rightarrow> bytes \<Rightarrow> u16 \<Rightarrow> panic + string" where
  "to_ss58 blake2b512 bs58_encode key version =
     (case ss58_prefix version of
        Inl e \<Rightarrow> Inl e
      | Inr prefix \<Rightarrow>
          (let v = prefix @ key;
               r = ss58hash blake2b512 v
           in if length r < 2 then Inl (IndexOutOfBounds 2 (length r))
              else Inr (bs58_encode (v @ take 2 r))))"

text \<open>
  How a reader takes the prefix apart, from the published SS58 format: a first byte below 64 is
  the identifier; from 64 to 127 it carries six bits of a 14-bit identifier, the second byte the
  rest.
\<close>

definition ss58_read_prefix :: "bytes \<Rightarrow> (u16 \<times> bytes) option" where
  "ss58_read_prefix bs =
     (case bs of
        b0 # rest \<Rightarrow>
          if b0 < 64 then Some (ucast b0, rest)
          else if b0 < 128 then
            (case rest of
               b1 # rest' \<Rightarrow>
                 Some (ucast (push_bit 2 b0 OR drop_bit 6 b1)
                         OR push_bit 8 (ucast (b1 AND 0b00111111)), rest')
             | [] \<Rightarrow> None)
          else None
      | [] \<Rightarrow> None)"

section \<open>Lemmas\<close>

lemma upto_16:
  "n < 16 \<Longrightarrow> n \<in> {0, 1, 2, 3, 4, 5, 6, 7, 8, 9, 10, 11, 12, 13, 14, 15 :: nat}"
  by (simp only: insert_iff empty_iff) presburger

lemma masked_below: "(v :: u16) AND 0b0011111111111111 \<le> 16383"
  by (rule word_and_le1)

lemma ident_join:
  fixes v :: u16
  defines "i \<equiv> v AND 0b0011111111111111"
  defines "b0 \<equiv> drop_bit 2 (ucast (i AND 0b11111100) :: u8) OR 0b01000000"
    and "b1 \<equiv> (ucast (drop_bit 8 i) :: u8) OR push_bit 6 (ucast (i AND 0b11) :: u8)"
  shows "ucast (push_bit 2 b0 OR drop_bit 6 b1) OR push_bit 8 (ucast (b1 AND 0b00111111)) = i"
proof (rule bit_word_eqI)
  fix n assume "n < LENGTH(16)"
  then have "n \<in> {0, 1, 2, 3, 4, 5, 6, 7, 8, 9, 10, 11, 12, 13, 14, 15}"
    using upto_16 by simp
  then show "bit (ucast (push_bit 2 b0 OR drop_bit 6 b1)
      OR push_bit 8 (ucast (b1 AND 0b00111111)) :: u16) n = bit i n"
    unfolding b0_def b1_def i_def by (elim insertE; simp add: bit_simps)
qed

lemma first_byte_range:
  fixes x :: u8
  shows "\<not> drop_bit 2 x OR 0b01000000 < 64" and "drop_bit 2 x OR 0b01000000 < 128"
proof -
  show "\<not> drop_bit 2 x OR 0b01000000 < 64"
    using le_word_or1 [of 64 "drop_bit 2 x"] by (simp add: not_less)
  have "(drop_bit 2 x OR 0b01000000) AND mask 7 = drop_bit 2 x OR 0b01000000"
  proof (rule bit_word_eqI)
    fix n assume "n < LENGTH(8)"
    then have "n \<in> {0, 1, 2, 3, 4, 5, 6, 7}"
      by (simp only: insert_iff empty_iff len_num0 len_of_numeral_defs) presburger
    then show "bit ((drop_bit 2 x OR 0b01000000) AND mask 7) n = bit (drop_bit 2 x OR 0b01000000) n"
      using bit_imp_le_length [of x 9] by (elim insertE) (auto simp: bit_simps)
  qed
  then show "drop_bit 2 x OR 0b01000000 < 128"
    using and_mask_less_size [of 7 "drop_bit 2 x OR 0b01000000"] by (simp add: word_size)
qed

lemma small_ident:
  fixes i :: u16
  assumes "i \<le> 63"
  shows "(ucast i :: u8) < 64" and "ucast (ucast i :: u8) = i"
proof -
  from assms have "unat i \<le> 63"
    by (simp add: word_le_nat_alt)
  then show "(ucast i :: u8) < 64" and "ucast (ucast i :: u8) = i"
    by (simp_all add: word_less_nat_alt unsigned_ucast_eq unsigned_take_bit_eq
        take_bit_nat_eq_self word_unat_eq_iff)
qed

lemma ss58_prefix_reads:
  "\<exists>bs. ss58_prefix v = Inr bs \<and> length bs = (if v AND 0x3FFF \<le> 63 then 1 else 2)
     \<and> ss58_read_prefix (bs @ rest) = Some (v AND 0x3FFF, rest)"
proof (cases "v AND 0x3FFF \<le> 63")
  case True
  then show ?thesis
    using small_ident [OF True] by (simp add: ss58_prefix_def ss58_read_prefix_def)
next
  case False
  then have "64 \<le> v AND 0x3FFF"
    by (simp add: word_le_nat_alt)
  with False masked_below [of v] show ?thesis
    using ident_join [of v] first_byte_range
    by (simp add: ss58_prefix_def ss58_read_prefix_def Let_def)
qed

lemma to_ss58_total:
  "(\<And>d. 2 \<le> length (blake d)) \<Longrightarrow> \<exists>name. to_ss58 blake bs58 key version = Inr name"
  using ss58_prefix_reads [of version "[]"]
  by (auto simp: to_ss58_def ss58hash_def Let_def not_less)

text \<open>
  C29. The network prefix survives: for every version the prefix is produced without reaching
  the unreachable arm, and a reader of the SS58 format gets back the version's lower 14 bits,
  with the key and checksum untouched. Two versions share a prefix exactly when they agree on
  those bits.
\<close>

theorem ss58_prefix_roundtrip:
  "(\<exists>bs. ss58_prefix v = Inr bs \<and> length bs = (if v AND 0x3FFF \<le> 63 then 1 else 2)
      \<and> ss58_read_prefix (bs @ rest) = Some (v AND 0x3FFF, rest))
   \<and> (ss58_prefix v = ss58_prefix w \<longleftrightarrow> v AND 0x3FFF = w AND 0x3FFF)"
proof -
  have "ss58_prefix v = ss58_prefix w \<longleftrightarrow> v AND 0x3FFF = w AND 0x3FFF"
  proof
    assume "ss58_prefix v = ss58_prefix w"
    with ss58_prefix_reads [of v "[]"] ss58_prefix_reads [of w "[]"]
    show "v AND 0x3FFF = w AND 0x3FFF" by auto
  next
    assume "v AND 0x3FFF = w AND 0x3FFF"
    then show "ss58_prefix v = ss58_prefix w"
      by (simp add: ss58_prefix_def)
  qed
  with ss58_prefix_reads [of v rest] show ?thesis by blast
qed

end
