(* ===== verification/Addresses.thy ===== *)
theory Addresses
  imports Rust_Str
begin

text \<open>
  Multiaddresses and the questions the program asks of them (\<open>util/p2p.rs\<close> and
  \<open>is_public_address\<close> of \<open>cli/src/utils.rs\<close>). A multiaddress is its sequence of
  protocols; the protocols the program never names are one constructor with their text. Peer
  identities are values of an arbitrary type \<open>'peer\<close>. \<open>IpNetwork::is_global\<close> is
  third-party code and an argument.
\<close>

section \<open>Multiaddresses\<close>

type_synonym ipv4_addr = "u8 list"   \<comment> \<open>four octets\<close>
type_synonym ipv6_addr = "u16 list"  \<comment> \<open>eight segments\<close>

datatype 'peer protocol =
    Ip4 ipv4_addr
  | Ip6 ipv6_addr
  | Dns string
  | Dns4 string
  | Dns6 string
  | Dnsaddr string
  | Tcp u16
  | Udp u16
  | Ws string
  | Wss string
  | P2p 'peer
  | OtherProtocol string

type_synonym 'peer multiaddr = "'peer protocol list"

datatype ip_addr = IpV4 ipv4_addr | IpV6 ipv6_addr

text \<open>\<open>address.iter().last()\<close> and \<open>address.iter().next()\<close>.\<close>

definition last_protocol :: "'peer multiaddr \<Rightarrow> 'peer protocol option" where
  "last_protocol a = (if a = [] then None else Some (last a))"

definition first_protocol :: "'peer multiaddr \<Rightarrow> 'peer protocol option" where
  "first_protocol a = (case a of [] \<Rightarrow> None | p # _ \<Rightarrow> Some p)"

definition get_peer_id :: "'peer multiaddr \<Rightarrow> 'peer option" where
  "get_peer_id address =
     (case last_protocol address of Some (P2p key) \<Rightarrow> Some key | _ \<Rightarrow> None)"

definition is_public_address :: "(ip_addr \<Rightarrow> bool) \<Rightarrow> 'peer multiaddr \<Rightarrow> bool" where
  "is_public_address is_global addr =
     (case first_protocol addr of
        Some (Ip4 ip) \<Rightarrow> is_global (IpV4 ip)
      | Some (Ip6 ip) \<Rightarrow> is_global (IpV6 ip)
      | Some (Dns _) \<Rightarrow> True
      | Some (Dns4 _) \<Rightarrow> True
      | Some (Dns6 _) \<Rightarrow> True
      | _ \<Rightarrow> False)"

section \<open>Facts\<close>

lemma get_peer_id_Some: "get_peer_id a = Some p \<longleftrightarrow> (\<exists>front. a = front @ [P2p p])"
proof
  assume "get_peer_id a = Some p"
  then have "a \<noteq> []" "last a = P2p p"
    by (auto simp: get_peer_id_def last_protocol_def split: option.splits protocol.splits if_splits)
  then show "\<exists>front. a = front @ [P2p p]"
    by (metis append_butlast_last_id)
qed (auto simp: get_peer_id_def last_protocol_def)

lemma get_peer_id_None: "get_peer_id a = None \<longleftrightarrow> (\<forall>p front. a \<noteq> front @ [P2p p])"
  using get_peer_id_Some [of a] by (metis option.exhaust option.distinct(1))

lemma is_public_address_cases:
  "is_public_address g a \<longleftrightarrow>
     (\<exists>rest ip. a = Ip4 ip # rest \<and> g (IpV4 ip))
     \<or> (\<exists>rest ip. a = Ip6 ip # rest \<and> g (IpV6 ip))
     \<or> (\<exists>rest d. a = Dns d # rest \<or> a = Dns4 d # rest \<or> a = Dns6 d # rest)"
  by (auto simp: is_public_address_def first_protocol_def split: list.splits protocol.splits)

lemma is_public_address_append [simp]:
  "a \<noteq> [] \<Longrightarrow> is_public_address g (a @ b) = is_public_address g a"
  by (cases a) (auto simp: is_public_address_def first_protocol_def)

end
