(* ===== verification/Swarm.thy ===== *)
theory Swarm
  imports Addresses Messages
begin

text \<open>
  The swarm as the commands see it: the operations they call on it, over any type \<open>'sw\<close> of
  swarm states, the events it hands them, and the identify information they keep. Shared by
  the discovery commands is also the loop that tops up a pool of queries.
\<close>

section \<open>Operations and events\<close>

text \<open>
  \<open>kad_get_closest_peers\<close> and \<open>kad_get_record\<close> start a Kademlia query and return its
  identifier, \<open>kad_add_address\<close> adds to the routing table, \<open>sw_dial\<close> dials an address
  (\<open>Some\<close> is an error), \<open>random_peer\<close> is \<open>PeerId::random\<close>, and \<open>read_byte\<close> is
  the SCALE input over a byte slice.
\<close>

text \<open>An error, as its \<open>Display\<close> and \<open>Debug\<close> texts.\<close>

type_synonym error_text = "string \<times> string"

record ('peer, 'q, 'sw) swarm_ops =
  kad_get_closest_peers :: "'peer \<Rightarrow> 'sw \<Rightarrow> 'q \<times> 'sw"
  kad_get_record :: "bytes \<Rightarrow> 'sw \<Rightarrow> 'q \<times> 'sw"
  kad_add_address :: "'peer \<Rightarrow> 'peer multiaddr \<Rightarrow> 'sw \<Rightarrow> 'sw"
  sw_dial :: "'peer multiaddr \<Rightarrow> 'sw \<Rightarrow> error_text option \<times> 'sw"
  random_peer :: "'sw \<Rightarrow> 'peer \<times> 'sw"
  read_byte :: "bytes \<Rightarrow> codec_error + u8 \<times> bytes"

record 'peer identify_info =
  info_agent_version :: string
  info_protocol_version :: string
  info_listen_addrs :: "'peer multiaddr list"
  info_protocols :: "string list"
  info_observed_addr :: "'peer multiaddr"

text \<open>
  A finished \<open>GetClosestPeers\<close> query carries peers with their addresses, whether it succeeded
  or timed out. A \<open>GetRecord\<close> query reports a found record (its key and value), the end of
  the query, or a failure.
\<close>

datatype 'peer query_result =
    GetClosestPeersOk "('peer \<times> 'peer multiaddr list) list"
  | GetClosestPeersTimeout "('peer \<times> 'peer multiaddr list) list"
  | FoundRecord bytes bytes
  | FinishedWithNoAdditionalRecord
  | GetRecordError
  | OtherQueryResult

datatype ('peer, 'q) kademlia_event =
    OutboundQueryProgressed 'q "'peer query_result"
  | RoutingUpdated 'peer "'peer multiaddr list"
  | RoutablePeer 'peer "'peer multiaddr"
  | PendingRoutablePeer 'peer "'peer multiaddr"
  | OtherKademliaEvent

datatype 'peer dial_error =
    TransportError "('peer multiaddr \<times> error_text) list"
  | WrongPeerId string "'peer multiaddr"  \<comment> \<open>the peer obtained, as it is printed\<close>
  | LocalPeerId "'peer multiaddr"
  | OtherDialError

text \<open>A connection we dialed comes with its address, one we accepted without.\<close>

datatype ('peer, 'q) swarm_event =
    Dialing "'peer option"
  | ConnectionUp 'peer "'peer multiaddr option"
  | OutgoingConnectionError "'peer dial_error"
  | DiscoveryEvent "('peer, 'q) kademlia_event"
  | Identified 'peer "'peer identify_info"
  | ProtocolOpen 'peer nat bytes bool
  | OtherSwarmEvent

text \<open>What a turn of a command's event loop (\<open>select!\<close>) picks.\<close>

datatype ('peer, 'q) loop_turn = OnSwarm "('peer, 'q) swarm_event" | OnResubmit | OnLog

text \<open>The peers of a finished closest-peers query.\<close>

fun closest_peers :: "'peer query_result \<Rightarrow> ('peer \<times> 'peer multiaddr list) list option" where
  "closest_peers (GetClosestPeersOk peers) = Some peers"
| "closest_peers (GetClosestPeersTimeout peers) = Some peers"
| "closest_peers _ = None"

section \<open>Shared updates\<close>

text \<open>The entry of a discovered peer: extend it, or make it.\<close>

definition note_addresses ::
  "'peer \<Rightarrow> 'peer multiaddr list \<Rightarrow> ('peer, 'peer multiaddr hash_set) hash_map
     \<Rightarrow> ('peer, 'peer multiaddr hash_set) hash_map" where
  "note_addresses peer addrs m =
     (case map_of m peer of
        Some known \<Rightarrow> AList.update peer (set_extend known addrs) m
      | None \<Rightarrow> AList.update peer (set_extend [] addrs) m)"

text \<open>The role announced in a handshake is recorded when it decodes.\<close>

definition note_role ::
  "(bytes \<Rightarrow> codec_error + u8 \<times> bytes) \<Rightarrow> 'peer \<Rightarrow> bytes
     \<Rightarrow> ('peer, protocol_role) hash_map \<Rightarrow> ('peer, protocol_role) hash_map" where
  "note_role rb peer handshake m =
     (case decode_role rb handshake of
        Inl _ \<Rightarrow> m
      | Inr (role, _) \<Rightarrow> AList.update peer role m)"

lemma note_addresses_lookup:
  "map_of (note_addresses p addrs m) q =
     (if q = p then Some (set_extend (case map_of m p of Some k \<Rightarrow> k | None \<Rightarrow> []) addrs)
      else map_of m q)"
  by (simp add: note_addresses_def update_conv' split: option.splits)

lemma wf_note_addresses [simp, intro]: "wf_map m \<Longrightarrow> wf_map (note_addresses p addrs m)"
  by (simp add: note_addresses_def split: option.splits)

lemma wf_note_role [simp, intro]: "wf_map m \<Longrightarrow> wf_map (note_role rb p h m)"
  by (simp add: note_role_def split: sum.splits)

section \<open>Topping up a pool of queries\<close>

text \<open>
  \<open>while pool.len() < limit { submit }\<close>: \<open>None\<close> is a loop that does not end.
\<close>

partial_function (option) fill_loop :: "('s \<Rightarrow> nat) \<Rightarrow> nat \<Rightarrow> ('s \<Rightarrow> 's) \<Rightarrow> 's \<Rightarrow> 's option" where
  "fill_loop size_of limit submit s =
     (if size_of s < limit then fill_loop size_of limit submit (submit s) else Some s)"

lemma fill_loop_inv:
  assumes "fill_loop size_of limit submit s = Some s'" and "I s"
    and "\<And>t. I t \<Longrightarrow> I (submit t)"
  shows "I s'"
proof -
  let ?P = "\<lambda>_ _ submit s s'. (\<forall>t. I t \<longrightarrow> I (submit t)) \<longrightarrow> I s \<longrightarrow> I s'"
  have "?P size_of limit submit s s'"
  proof (rule fill_loop.raw_induct [where P = ?P, OF _ assms(1)])
    fix loop size_of limit submit s s'
    assume IH: "\<And>l m f t y. loop l m f t = Some y \<Longrightarrow> ?P l m f t y"
      and body: "(if size_of s < limit then loop size_of limit submit (submit s) else Some s) = Some s'"
    show "?P size_of limit submit s s'"
      using body IH [of size_of limit submit "submit s" s'] by (cases "size_of s < limit") auto
  qed
  with assms(2,3) show ?thesis by blast
qed

text \<open>
  A pool whose submissions each add one query. The client's facts: topping up ends, at the
  limit, and does nothing on a full pool.
\<close>

locale query_pool =
  fixes pool :: "'s \<Rightarrow> 'q list" and submit :: "'s \<Rightarrow> 's" and ok :: "'s \<Rightarrow> bool" and limit :: nat
  assumes submit_ok: "ok s \<Longrightarrow> ok (submit s)"
    and submit_adds: "ok s \<Longrightarrow> length (pool (submit s)) = Suc (length (pool s))"
begin

abbreviation top_up :: "'s \<Rightarrow> 's option" where
  "top_up s \<equiv> fill_loop (\<lambda>s. length (pool s)) limit submit s"

lemma top_up_full: "limit \<le> length (pool s) \<Longrightarrow> top_up s = Some s"
  by (subst fill_loop.simps) simp

lemma top_up_iterates:
  "ok s \<Longrightarrow> top_up s = Some ((submit ^^ (limit - length (pool s))) s)"
proof (induction "limit - length (pool s)" arbitrary: s)
  case 0
  then show ?case by (simp add: top_up_full)
next
  case (Suc n)
  then have less: "length (pool s) < limit" by linarith
  have "n = limit - length (pool (submit s))"
    using Suc by (simp add: submit_adds)
  with Suc less show ?case
    by (subst fill_loop.simps) (simp add: submit_ok flip: Suc.hyps(2) add: funpow_swap1)
qed

lemma iterate_submit:
  "ok s \<Longrightarrow> ok ((submit ^^ n) s) \<and> length (pool ((submit ^^ n) s)) = n + length (pool s)"
  by (induction n) (simp_all add: submit_ok submit_adds)

lemma top_up_fills:
  assumes "ok s"
  shows "\<exists>s'. top_up s = Some s' \<and> ok s' \<and> length (pool s') = max limit (length (pool s))"
  using top_up_iterates [OF assms] iterate_submit [OF assms] by auto

end

text \<open>
  What libp2p documents of query identifiers: each query gets one not used before. \<open>issued\<close>
  is the set of identifiers handed out so far.
\<close>

definition fresh_query_ids :: "('peer, 'q, 'sw) swarm_ops \<Rightarrow> ('sw \<Rightarrow> 'q set) \<Rightarrow> bool" where
  "fresh_query_ids K issued \<longleftrightarrow>
     (\<forall>p sw. case kad_get_closest_peers K p sw of (q, sw') \<Rightarrow>
        q \<notin> issued sw \<and> issued sw' = insert q (issued sw))
     \<and> (\<forall>k sw. case kad_get_record K k sw of (q, sw') \<Rightarrow>
        q \<notin> issued sw \<and> issued sw' = insert q (issued sw))
     \<and> (\<forall>p a sw. issued (kad_add_address K p a sw) = issued sw)
     \<and> (\<forall>a sw. issued (snd (sw_dial K a sw)) = issued sw)
     \<and> (\<forall>sw. issued (snd (random_peer K sw)) = issued sw)"

lemma fresh_query_ids_facts:
  assumes "fresh_query_ids K issued"
  shows "kad_get_closest_peers K p sw = (q, sw') \<Longrightarrow>
      q \<notin> issued sw \<and> issued sw' = insert q (issued sw)"
    and "kad_get_record K k sw = (q, sw') \<Longrightarrow> q \<notin> issued sw \<and> issued sw' = insert q (issued sw)"
    and "issued (kad_add_address K p a sw) = issued sw"
    and "sw_dial K a sw = (r, sw') \<Longrightarrow> issued sw' = issued sw"
    and "random_peer K sw = (p, sw') \<Longrightarrow> issued sw' = issued sw"
  using assms unfolding fresh_query_ids_def by (auto split: prod.splits) (metis snd_conv)+

section \<open>A log of dials\<close>

text \<open>Any swarm, with a log of the addresses dialed kept beside its state.\<close>

definition dial_logged ::
  "('peer, 'q, 'sw) swarm_ops \<Rightarrow> ('peer, 'q, 'sw \<times> 'peer multiaddr list) swarm_ops" where
  "dial_logged K =
     \<lparr>kad_get_closest_peers = (\<lambda>p (sw, l).
        case kad_get_closest_peers K p sw of (q, sw') \<Rightarrow> (q, (sw', l))),
      kad_get_record = (\<lambda>k (sw, l). case kad_get_record K k sw of (q, sw') \<Rightarrow> (q, (sw', l))),
      kad_add_address = (\<lambda>p a (sw, l). (kad_add_address K p a sw, l)),
      sw_dial = (\<lambda>a (sw, l). case sw_dial K a sw of (r, sw') \<Rightarrow> (r, (sw', l @ [a]))),
      random_peer = (\<lambda>(sw, l). case random_peer K sw of (p, sw') \<Rightarrow> (p, (sw', l))),
      read_byte = read_byte K\<rparr>"

lemma dial_logged_log [simp]:
  "snd (snd (kad_get_closest_peers (dial_logged K) p x)) = snd x"
  "snd (snd (kad_get_record (dial_logged K) k x)) = snd x"
  "snd (kad_add_address (dial_logged K) p a x) = snd x"
  "snd (snd (sw_dial (dial_logged K) a x)) = snd x @ [a]"
  "snd (snd (random_peer (dial_logged K) x)) = snd x"
  by (simp_all add: dial_logged_def split: prod.splits)

lemma dial_logged_fresh:
  "fresh_query_ids K issued \<Longrightarrow> fresh_query_ids (dial_logged K) (\<lambda>x. issued (fst x))"
  by (auto simp: fresh_query_ids_def dial_logged_def split: prod.splits) (metis snd_conv)+

section \<open>A sample swarm\<close>

text \<open>Identifiers that count up, and a swarm that remembers nothing else.\<close>

definition counting_swarm :: "(nat, nat, nat) swarm_ops" where
  "counting_swarm =
     \<lparr>kad_get_closest_peers = (\<lambda>p n. (n, Suc n)), kad_get_record = (\<lambda>k n. (n, Suc n)),
      kad_add_address = (\<lambda>p a n. n), sw_dial = (\<lambda>a n. (None, n)), random_peer = (\<lambda>n. (n, n)),
      read_byte = (\<lambda>bs. case bs of [] \<Rightarrow> Inl (InputError ''empty'') | b # r \<Rightarrow> Inr (b, r))\<rparr>"

lemma counting_swarm_fresh: "fresh_query_ids counting_swarm (\<lambda>n. {0..<n})"
  by (auto simp: fresh_query_ids_def counting_swarm_def)

end
