(* ===== verification/Swarm_Builder.thy ===== *)
theory Swarm_Builder
  imports Addresses Messages Handler
begin

text \<open>
  Construction of the swarm: the discovery builder (\<open>subp2p-explorer/src/discovery.rs\<close>), the
  transport builder (\<open>subp2p-explorer/src/transport.rs\<close>) and \<open>build_swarm\<close> of
  \<open>cli/src/utils.rs\<close>. What the builders hand to libp2p is kept as records of settings.
  Durations are whole seconds. Parsers, hex decoding and \<open>H256::from_slice\<close> are arguments.
\<close>

section \<open>Discovery builder\<close>

record discovery_builder =
  max_packet_size :: nat
  record_ttl :: "nat option"
  provider_ttl :: "nat option"
  query_timeout :: nat

definition discovery_builder_new :: discovery_builder where
  "discovery_builder_new =
     \<lparr>max_packet_size = 16 * 1024 * 1024, record_ttl = None, provider_ttl = None,
      query_timeout = 15\<rparr>"

definition set_max_packet_size :: "nat \<Rightarrow> discovery_builder \<Rightarrow> discovery_builder" where
  "set_max_packet_size n b = b\<lparr>max_packet_size := n\<rparr>"

definition set_record_ttl :: "nat option \<Rightarrow> discovery_builder \<Rightarrow> discovery_builder" where
  "set_record_ttl t b = b\<lparr>record_ttl := t\<rparr>"

definition set_provider_ttl :: "nat option \<Rightarrow> discovery_builder \<Rightarrow> discovery_builder" where
  "set_provider_ttl t b = b\<lparr>provider_ttl := t\<rparr>"

definition set_query_timeout :: "nat \<Rightarrow> discovery_builder \<Rightarrow> discovery_builder" where
  "set_query_timeout t b = b\<lparr>query_timeout := t\<rparr>"

record 'peer kad_config =
  kad_protocol :: string
  kad_max_packet_size :: nat
  kad_record_ttl :: "nat option"
  kad_provider_ttl :: "nat option"
  kad_query_timeout :: nat
  kad_local_peer :: 'peer

text \<open>\<open>StreamProtocol::try_from_owned\<close> refuses a name that does not start with a slash.\<close>

definition discovery_build ::
  "'peer \<Rightarrow> string \<Rightarrow> discovery_builder \<Rightarrow> panic + 'peer kad_config" where
  "discovery_build local_peer_id genesis b =
     (let name = ''/'' @ genesis @ ''/kad''
      in if prefix ''/'' name then
           Inr \<lparr>kad_protocol = name, kad_max_packet_size = max_packet_size b,
                kad_record_ttl = record_ttl b, kad_provider_ttl = provider_ttl b,
                kad_query_timeout = query_timeout b, kad_local_peer = local_peer_id\<rparr>
         else Inl (UnwrapNone ''Protocol name starts with /; qed''))"

section \<open>Transport builder\<close>

definition KIB :: nat where "KIB = 1024"
definition MIB :: nat where "MIB = 1024 * KIB"

record transport_builder =
  transport_timeout :: nat
  yamux_window_size :: u32
  yamux_maximum_buffer_size :: nat

definition transport_builder_new :: transport_builder where
  "transport_builder_new =
     \<lparr>transport_timeout = 20, yamux_window_size = 256 * of_nat KIB,
      yamux_maximum_buffer_size = MIB\<rparr>"

definition set_transport_timeout :: "nat \<Rightarrow> transport_builder \<Rightarrow> transport_builder" where
  "set_transport_timeout t b = b\<lparr>transport_timeout := t\<rparr>"

definition set_yamux_window_size :: "u32 \<Rightarrow> transport_builder \<Rightarrow> transport_builder" where
  "set_yamux_window_size n b = b\<lparr>yamux_window_size := n\<rparr>"

definition set_yamux_maximum_buffer_size :: "nat \<Rightarrow> transport_builder \<Rightarrow> transport_builder" where
  "set_yamux_maximum_buffer_size n b = b\<lparr>yamux_maximum_buffer_size := n\<rparr>"

text \<open>
  \<open>build\<close>: TCP without delay under DNS and WebSocket, Noise with the key pair, the default
  Yamux configuration \<open>yamux_default\<close>, and the builder's timeout.
\<close>

record ('key, 'yamux) transport_config =
  tc_nodelay :: bool
  tc_websocket :: bool
  tc_noise_key :: 'key
  tc_yamux :: 'yamux
  tc_timeout :: nat

definition transport_build ::
  "'yamux \<Rightarrow> 'key \<Rightarrow> transport_builder \<Rightarrow> ('key, 'yamux) transport_config" where
  "transport_build yamux_default keypair b =
     \<lparr>tc_nodelay = True, tc_websocket = True, tc_noise_key = keypair, tc_yamux = yamux_default,
      tc_timeout = transport_timeout b\<rparr>"

section \<open>The swarm of the commands\<close>

text \<open>
  Each bootnode is parsed as an address, and the text after its last slash as a peer; both
  parsers' failures panic (\<open>expect\<close>).
\<close>

definition parse_bootnode ::
  "(string \<Rightarrow> 'peer multiaddr option) \<Rightarrow> (string \<Rightarrow> 'peer option) \<Rightarrow> string
     \<Rightarrow> panic + 'peer \<times> 'peer multiaddr" where
  "parse_bootnode parse_multiaddr parse_peer bootnode =
     (let peer = last (split_char CHR ''/'' bootnode)
      in case parse_multiaddr bootnode of
           None \<Rightarrow> Inl (UnwrapNone ''Valid multiaddress; qed'')
         | Some multiaddress \<Rightarrow>
             (case parse_peer peer of
                None \<Rightarrow> Inl (UnwrapNone ''Valid peer ID; qed'')
              | Some peer_id \<Rightarrow> Inr (peer_id, multiaddress)))"

fun parse_bootnodes ::
  "(string \<Rightarrow> 'peer multiaddr option) \<Rightarrow> (string \<Rightarrow> 'peer option) \<Rightarrow> string list
     \<Rightarrow> panic + ('peer \<times> 'peer multiaddr) list" where
  "parse_bootnodes pm pp [] = Inr []"
| "parse_bootnodes pm pp (b # bs) =
     (case parse_bootnode pm pp b of
        Inl e \<Rightarrow> Inl e
      | Inr x \<Rightarrow> (case parse_bootnodes pm pp bs of Inl e \<Rightarrow> Inl e | Inr xs \<Rightarrow> Inr (x # xs)))"

record 'peer built_swarm =
  bs_discovery :: "'peer kad_config"
  bs_protocols :: protocols_data
  bs_known :: "('peer \<times> 'peer multiaddr) list"

definition build_swarm ::
  "(string \<Rightarrow> 'peer multiaddr option) \<Rightarrow> (string \<Rightarrow> 'peer option) \<Rightarrow> (string \<Rightarrow> 'e + bytes)
     \<Rightarrow> (bytes \<Rightarrow> panic + block_hash) \<Rightarrow> 'peer \<Rightarrow> string \<Rightarrow> string list \<Rightarrow> nat
     \<Rightarrow> panic + ('e + 'peer built_swarm)" where
  "build_swarm parse_multiaddr parse_peer hex_decode from_slice local_peer_id genesis0 bootnodes
       timeout =
     (let genesis = trim_start_matches ''0x'' genesis0
      in case parse_bootnodes parse_multiaddr parse_peer bootnodes of
           Inl e \<Rightarrow> Inl e
         | Inr nodes \<Rightarrow>
             (case hex_decode genesis of
                Inl e \<Rightarrow> Inr (Inl e)
              | Inr raw \<Rightarrow>
                  (case from_slice raw of
                     Inl e \<Rightarrow> Inl e
                   | Inr g_hash \<Rightarrow>
                       (case discovery_build local_peer_id genesis
                               (set_query_timeout timeout
                                 (set_provider_ttl (Some 0)
                                   (set_record_ttl (Some 0) discovery_builder_new))) of
                          Inl e \<Rightarrow> Inl e
                        | Inr disc \<Rightarrow>
                            Inr (Inr \<lparr>bs_discovery = disc,
                              bs_protocols = \<lparr>data_genesis_hash = g_hash,
                                node_role = FullNode\<rparr>,
                              bs_known = nodes\<rparr>)))))"

section \<open>Properties\<close>

text \<open>
  The swarm the commands use speaks the chain they were asked for: however often the given
  genesis text starts with \<open>0x\<close>, its DHT protocol name is made of the text without it, which
  is also what the notification handshake's genesis hash is decoded from; the routing table
  starts with every bootnode, in order, under the peer its own text names; and records are
  stored with a zero lifetime.
\<close>

theorem build_swarm_result:
  assumes "build_swarm pm pp hex_decode from_slice me genesis bootnodes qt = Inr (Inr b)"
  shows "kad_protocol (bs_discovery b) = ''/'' @ trim_start_matches ''0x'' genesis @ ''/kad''
    \<and> \<not> prefix ''0x'' (trim_start_matches ''0x'' genesis)
    \<and> (\<exists>raw. hex_decode (trim_start_matches ''0x'' genesis) = Inr raw
        \<and> from_slice raw = Inr (data_genesis_hash (bs_protocols b)))
    \<and> node_role (bs_protocols b) = FullNode
    \<and> map Some (map snd (bs_known b)) = map pm bootnodes
    \<and> map Some (map fst (bs_known b)) = map (\<lambda>n. pp (last (split_char CHR ''/'' n))) bootnodes
    \<and> kad_record_ttl (bs_discovery b) = Some 0 \<and> kad_provider_ttl (bs_discovery b) = Some 0
    \<and> kad_query_timeout (bs_discovery b) = qt"
proof -
  have nodes: "map Some (map snd xs) = map pm bootnodes
      \<and> map Some (map fst xs) = map (\<lambda>n. pp (last (split_char CHR ''/'' n))) bootnodes"
    if "parse_bootnodes pm pp bootnodes = Inr xs" for xs
    using that
    by (induction bootnodes arbitrary: xs)
      (auto simp: parse_bootnode_def Let_def split: sum.splits option.splits)
  show ?thesis
    using assms nodes trim_start_matches_result [of "''0x''" genesis]
    by (auto simp: build_swarm_def Let_def discovery_build_def set_query_timeout_def
        set_provider_ttl_def set_record_ttl_def split: sum.splits if_splits)
qed

theorem build_swarm_result_witness:
  "\<exists>b. build_swarm (\<lambda>_. Some [P2p (3 :: nat)]) (\<lambda>s. Some (length s))
        (\<lambda>s. if s = ''ab'' then Inr [171] else Inl ()) Inr 9 ''0x0xab'' [''/a/bcd''] 20 = Inr (Inr b)
     \<and> kad_protocol (bs_discovery b) = ''/ab/kad'' \<and> map fst (bs_known b) = [3]"
proof -
  have trim: "trim_start_matches ''0x'' ''0x0xab'' = ''ab''"
    by (simp add: trim_start_matches.simps)
  obtain b where b: "build_swarm (\<lambda>_. Some [P2p (3 :: nat)]) (\<lambda>s. Some (length s))
      (\<lambda>s. if s = ''ab'' then Inr [171] else Inl ()) Inr 9 ''0x0xab'' [''/a/bcd''] 20 = Inr (Inr b)"
    by (simp add: build_swarm_def trim parse_bootnode_def discovery_build_def)
  from build_swarm_result [OF b] b show ?thesis
    by (auto simp: trim)
qed

text \<open>
  The Yamux settings of the transport builder have no effect: transports built with
  different window and buffer sizes are the same.
\<close>

theorem yamux_settings_ignored:
  "transport_build y k (set_yamux_window_size n (set_yamux_maximum_buffer_size m b)) =
     transport_build y k b
   \<and> tc_timeout (transport_build y k (set_transport_timeout t b)) = t"
  by (simp add: transport_build_def set_yamux_window_size_def set_yamux_maximum_buffer_size_def
      set_transport_timeout_def)

end
