(* ===== verification/Network_Discovery.thy ===== *)
theory Network_Discovery
  imports Swarm Swarm_Builder
begin

text \<open>
  The \<open>discover-network\<close> command (\<open>cli/src/commands/discovery.rs\<close>): a pool of random DHT
  walks, dialing of every address they surface, and the summary printed at the end. The event
  loop is a sequence of the calls \<open>select!\<close> makes: an event of the swarm, a tick of the
  resubmission timer or a tick of the logging timer, in any order.
\<close>

section \<open>State and operations\<close>

definition MAX_QUERIES :: nat where
  "MAX_QUERIES = 128"

record ('peer, 'q, 'sw) network_discovery =
  nd_swarm :: 'sw
  nd_queries :: "'q hash_set"
  nd_discovered :: "('peer, 'peer multiaddr hash_set) hash_map"
  nd_peer_details :: "('peer, 'peer identify_info) hash_map"
  nd_peer_role :: "('peer, protocol_role) hash_map"
  nd_dialed_peers :: "('peer, nat) hash_map"
  nd_dialed_addresses :: "'peer multiaddr hash_set"

definition network_discovery_new :: "'sw \<Rightarrow> ('peer, 'q, 'sw) network_discovery" where
  "network_discovery_new sw =
     \<lparr>nd_swarm = sw, nd_queries = [], nd_discovered = [], nd_peer_details = [],
      nd_peer_role = [], nd_dialed_peers = [], nd_dialed_addresses = []\<rparr>"

text \<open>One turn of the loop: a query for a random peer.\<close>

definition nd_submit ::
  "('peer, 'q, 'sw) swarm_ops \<Rightarrow> ('peer, 'q, 'sw) network_discovery
     \<Rightarrow> ('peer, 'q, 'sw) network_discovery" where
  "nd_submit K s =
     (case random_peer K (nd_swarm s) of (target, sw1) \<Rightarrow>
      (case kad_get_closest_peers K target sw1 of (q, sw2) \<Rightarrow>
         s\<lparr>nd_swarm := sw2, nd_queries := List.insert q (nd_queries s)\<rparr>))"

definition nd_top_up_queries ::
  "('peer, 'q, 'sw) swarm_ops \<Rightarrow> ('peer, 'q, 'sw) network_discovery
     \<Rightarrow> ('peer, 'q, 'sw) network_discovery option" where
  "nd_top_up_queries K s = fill_loop (\<lambda>s. length (nd_queries s)) MAX_QUERIES (nd_submit K) s"

definition nd_force_dial ::
  "('peer, 'q, 'sw) swarm_ops \<Rightarrow> 'peer \<Rightarrow> 'peer multiaddr \<Rightarrow> ('peer, 'q, 'sw) network_discovery
     \<Rightarrow> ('peer, 'q, 'sw) network_discovery" where
  "nd_force_dial K peer addr s =
     (if addr \<in> set (nd_dialed_addresses s) then s
      else
        (let sw1 = kad_add_address K peer addr (nd_swarm s)
         in case sw_dial K addr sw1 of (_, sw2) \<Rightarrow>
              s\<lparr>nd_dialed_addresses := List.insert addr (nd_dialed_addresses s), nd_swarm := sw2\<rparr>))"

definition nd_dialed_peer ::
  "'peer option \<Rightarrow> ('peer, 'q, 'sw) network_discovery \<Rightarrow> ('peer, 'q, 'sw) network_discovery" where
  "nd_dialed_peer peer_id s =
     (case peer_id of
        None \<Rightarrow> s
      | Some p \<Rightarrow> s\<lparr>nd_dialed_peers := map_entry p (\<lambda>num. num + 1) 0 (nd_dialed_peers s)\<rparr>)"

definition nd_handle_kad ::
  "('peer, 'q, 'sw) swarm_ops \<Rightarrow> ('peer, 'q) kademlia_event \<Rightarrow> ('peer, 'q, 'sw) network_discovery
     \<Rightarrow> ('peer, 'q, 'sw) network_discovery option" where
  "nd_handle_kad K event s =
     (case event of
        OutboundQueryProgressed i result \<Rightarrow>
          (case closest_peers result of
             Some _ \<Rightarrow> nd_top_up_queries K (s\<lparr>nd_queries := set_remove i (nd_queries s)\<rparr>)
           | None \<Rightarrow> Some s)
      | RoutingUpdated peer addrs \<Rightarrow>
          (let s1 = fold (nd_force_dial K peer) addrs s
           in Some (s1\<lparr>nd_discovered := note_addresses peer addrs (nd_discovered s1)\<rparr>))
      | RoutablePeer peer address \<Rightarrow>
          (let s1 = nd_force_dial K peer address s
           in Some (s1\<lparr>nd_discovered := note_addresses peer [address] (nd_discovered s1)\<rparr>))
      | PendingRoutablePeer peer address \<Rightarrow>
          (let s1 = nd_force_dial K peer address s
           in Some (s1\<lparr>nd_discovered := note_addresses peer [address] (nd_discovered s1)\<rparr>))
      | OtherKademliaEvent \<Rightarrow> Some s)"

definition nd_handle_event ::
  "('peer, 'q, 'sw) swarm_ops \<Rightarrow> ('peer, 'q) swarm_event \<Rightarrow> ('peer, 'q, 'sw) network_discovery
     \<Rightarrow> ('peer, 'q, 'sw) network_discovery option" where
  "nd_handle_event K event s =
     (case event of
        Dialing peer_id \<Rightarrow> Some (nd_dialed_peer peer_id s)
      | DiscoveryEvent ev \<Rightarrow> nd_handle_kad K ev s
      | Identified peer_id info \<Rightarrow>
          Some (s\<lparr>nd_peer_details := AList.update peer_id info (nd_peer_details s)\<rparr>)
      | ProtocolOpen peer_id index received_handshake inbound \<Rightarrow>
          Some (s\<lparr>nd_peer_role :=
            note_role (read_byte K) peer_id received_handshake (nd_peer_role s)\<rparr>)
      | _ \<Rightarrow> Some s)"

text \<open>The event loop: the priming, then the turns.\<close>

definition nd_turn ::
  "('peer, 'q, 'sw) swarm_ops \<Rightarrow> ('peer, 'q) loop_turn \<Rightarrow> ('peer, 'q, 'sw) network_discovery
     \<Rightarrow> ('peer, 'q, 'sw) network_discovery option" where
  "nd_turn K turn s =
     (case turn of
        OnSwarm event \<Rightarrow> nd_handle_event K event s
      | OnResubmit \<Rightarrow> nd_top_up_queries K s
      | OnLog \<Rightarrow> Some s)"

fun nd_turns ::
  "('peer, 'q, 'sw) swarm_ops \<Rightarrow> ('peer, 'q) loop_turn list \<Rightarrow> ('peer, 'q, 'sw) network_discovery
     \<Rightarrow> ('peer, 'q, 'sw) network_discovery option" where
  "nd_turns K [] s = Some s"
| "nd_turns K (t # ts) s = (case nd_turn K t s of None \<Rightarrow> None | Some s' \<Rightarrow> nd_turns K ts s')"

definition nd_drive_events ::
  "('peer, 'q, 'sw) swarm_ops \<Rightarrow> ('peer, 'q) loop_turn list \<Rightarrow> ('peer, 'q, 'sw) network_discovery
     \<Rightarrow> ('peer, 'q, 'sw) network_discovery option" where
  "nd_drive_events K turns s =
     (case nd_top_up_queries K s of None \<Rightarrow> None | Some s' \<Rightarrow> nd_turns K turns s')"

section \<open>The pool of queries\<close>

definition nd_pool_ok ::
  "('peer, 'q, 'sw) swarm_ops \<Rightarrow> ('sw \<Rightarrow> 'q set) \<Rightarrow> ('peer, 'q, 'sw) network_discovery \<Rightarrow> bool" where
  "nd_pool_ok K issued s \<longleftrightarrow>
     fresh_query_ids K issued \<and> distinct (nd_queries s) \<and> set (nd_queries s) \<subseteq> issued (nd_swarm s)"

interpretation nd_pool: query_pool nd_queries "nd_submit K" "nd_pool_ok K issued" MAX_QUERIES
proof
  fix s
  assume ok: "nd_pool_ok K issued s"
  obtain p sw1 q sw2 where r: "random_peer K (nd_swarm s) = (p, sw1)"
    and g: "kad_get_closest_peers K p sw1 = (q, sw2)"
    by (metis surj_pair)
  from ok have fresh: "fresh_query_ids K issued"
    by (simp add: nd_pool_ok_def)
  have "q \<notin> issued (nd_swarm s) \<and> issued sw2 = insert q (issued (nd_swarm s))"
    using fresh_query_ids_facts(5) [OF fresh r] fresh_query_ids_facts(1) [OF fresh g] by simp
  then show "nd_pool_ok K issued (nd_submit K s)"
    and "length (nd_queries (nd_submit K s)) = Suc (length (nd_queries s))"
    using ok r g by (auto simp: nd_pool_ok_def nd_submit_def container_simps)
qed

text \<open>Dialing touches neither the pool nor the identifiers handed out.\<close>

lemma nd_force_dial_simps [simp]:
  "nd_queries (nd_force_dial K p a s) = nd_queries s"
  "nd_discovered (nd_force_dial K p a s) = nd_discovered s"
  by (simp_all add: nd_force_dial_def Let_def split: prod.splits)

lemma nd_force_dial_ok: "nd_pool_ok K issued s \<Longrightarrow> nd_pool_ok K issued (nd_force_dial K p a s)"
  using fresh_query_ids_facts(3,4) [of K issued]
  by (simp add: nd_pool_ok_def) (simp add: nd_force_dial_def Let_def split: prod.splits)

lemma nd_fold_dial:
  "nd_pool_ok K issued s \<Longrightarrow>
     nd_pool_ok K issued (fold (nd_force_dial K p) as s)
     \<and> nd_queries (fold (nd_force_dial K p) as s) = nd_queries s"
  by (induction as arbitrary: s) (simp_all add: nd_force_dial_ok)

definition nd_full :: "('peer, 'q, 'sw) swarm_ops \<Rightarrow> ('sw \<Rightarrow> 'q set) \<Rightarrow> ('peer, 'q, 'sw) network_discovery \<Rightarrow> bool" where
  "nd_full K issued s \<longleftrightarrow> nd_pool_ok K issued s \<and> length (nd_queries s) = MAX_QUERIES"

lemma nd_top_up_full:
  assumes "nd_pool_ok K issued s" and "length (nd_queries s) \<le> MAX_QUERIES"
  shows "\<exists>s'. nd_top_up_queries K s = Some s' \<and> nd_full K issued s'"
  using nd_pool.top_up_fills [OF assms(1)] assms(2)
  by (auto simp: nd_top_up_queries_def nd_full_def)

lemma nd_full_other [simp]:
  "nd_full K issued (s\<lparr>nd_discovered := d\<rparr>) = nd_full K issued s"
  "nd_full K issued (s\<lparr>nd_peer_details := pd\<rparr>) = nd_full K issued s"
  "nd_full K issued (s\<lparr>nd_peer_role := pr\<rparr>) = nd_full K issued s"
  "nd_full K issued (nd_dialed_peer x s) = nd_full K issued s"
  by (simp_all add: nd_full_def nd_pool_ok_def nd_dialed_peer_def split: option.splits)

lemma nd_kad_full:
  assumes "nd_full K issued s"
  shows "\<exists>s'. nd_handle_kad K ev s = Some s' \<and> nd_full K issued s'"
proof (cases ev)
  case (OutboundQueryProgressed i result)
  let ?s = "s\<lparr>nd_queries := set_remove i (nd_queries s)\<rparr>"
  have "nd_pool_ok K issued ?s" "length (nd_queries ?s) \<le> MAX_QUERIES"
    using assms length_filter_le [of _ "nd_queries s"]
    by (auto simp: nd_full_def nd_pool_ok_def distinct_removeAll removeAll_filter_not_eq)
  from nd_top_up_full [OF this] show ?thesis
    using assms OutboundQueryProgressed by (auto simp: nd_handle_kad_def split: option.splits)
next
  case (RoutingUpdated p as)
  then show ?thesis
    using assms nd_fold_dial [of K issued s p as]
    by (auto simp: nd_handle_kad_def Let_def nd_full_def nd_pool_ok_def)
next
  case (RoutablePeer p a)
  then show ?thesis
    using assms nd_force_dial_ok [of K issued s p a]
    by (simp add: nd_handle_kad_def Let_def nd_full_def nd_pool_ok_def)
next
  case (PendingRoutablePeer p a)
  then show ?thesis
    using assms nd_force_dial_ok [of K issued s p a]
    by (simp add: nd_handle_kad_def Let_def nd_full_def nd_pool_ok_def)
next
  case OtherKademliaEvent
  then show ?thesis using assms by (simp add: nd_handle_kad_def)
qed

lemma nd_turn_full:
  assumes "nd_full K issued s"
  shows "\<exists>s'. nd_turn K t s = Some s' \<and> nd_full K issued s'"
proof (cases t)
  case (OnSwarm ev)
  then show ?thesis
    using assms nd_kad_full [OF assms]
    by (cases ev) (auto simp: nd_turn_def nd_handle_event_def)
next
  case OnResubmit
  then show ?thesis
    using assms nd_top_up_full [of K issued s] by (simp add: nd_turn_def nd_full_def)
next
  case OnLog
  then show ?thesis using assms by (simp add: nd_turn_def)
qed

lemma nd_turns_full:
  "nd_full K issued s \<Longrightarrow> \<exists>s'. nd_turns K ts s = Some s' \<and> nd_full K issued s'"
proof (induction ts arbitrary: s)
  case (Cons t ts)
  from nd_turn_full [OF Cons.prems] obtain s' where
    "nd_turn K t s = Some s'" "nd_full K issued s'" by blast
  with Cons.IH show ?case by simp
qed simp

text \<open>
  C11. The pool of random walks is always full: if Kademlia never reuses a query identifier,
  the priming and every later turn of the event loop return, whatever the events, and leave
  exactly 128 distinct queries in flight.
\<close>

theorem network_discovery_pool_full:
  assumes "fresh_query_ids K issued"
  shows "\<exists>s'. nd_drive_events K turns (network_discovery_new sw) = Some s'
    \<and> length (nd_queries s') = 128 \<and> distinct (nd_queries s')
    \<and> set (nd_queries s') \<subseteq> issued (nd_swarm s')"
proof -
  have "nd_pool_ok K issued (network_discovery_new sw)"
    "length (nd_queries (network_discovery_new sw)) \<le> MAX_QUERIES"
    using assms by (simp_all add: nd_pool_ok_def network_discovery_new_def)
  from nd_top_up_full [OF this] obtain s1 where
    s1: "nd_top_up_queries K (network_discovery_new sw) = Some s1" "nd_full K issued s1" by blast
  from nd_turns_full [OF s1(2)] s1(1) show ?thesis
    by (auto simp: nd_drive_events_def nd_full_def nd_pool_ok_def MAX_QUERIES_def)
qed

theorem network_discovery_pool_full_witness:
  "\<exists>s'. nd_drive_events counting_swarm
        [OnSwarm (DiscoveryEvent (OutboundQueryProgressed 5 (GetClosestPeersOk []))), OnResubmit]
        (network_discovery_new 0) = Some s' \<and> length (nd_queries s') = 128"
  using network_discovery_pool_full [OF counting_swarm_fresh, of
      "[OnSwarm (DiscoveryEvent (OutboundQueryProgressed 5 (GetClosestPeersOk []))), OnResubmit]" 0]
  by auto

section \<open>Dialing\<close>

text \<open>Every address recorded for a peer.\<close>

definition known_addresses ::
  "('peer, 'peer multiaddr hash_set) hash_map \<Rightarrow> 'peer multiaddr set" where
  "known_addresses m = {a. \<exists>p as. map_of m p = Some as \<and> a \<in> set as}"

lemma known_addresses_empty [simp]: "known_addresses [] = {}"
  by (simp add: known_addresses_def)

lemma known_addresses_note [simp]:
  "known_addresses (note_addresses p addrs m) = known_addresses m \<union> set addrs"
proof -
  have "set (set_extend (case map_of m p of Some k \<Rightarrow> k | None \<Rightarrow> []) addrs)
      = (case map_of m p of Some k \<Rightarrow> set k | None \<Rightarrow> {}) \<union> set addrs"
    by (simp split: option.splits)
  then show ?thesis
    by (auto simp: known_addresses_def note_addresses_lookup split: option.splits if_splits)
      (metis option.distinct(1) option.inject)+
qed

definition dials_ok ::
  "('peer, 'q, 'sw \<times> 'peer multiaddr list) network_discovery \<Rightarrow> bool" where
  "dials_ok s \<longleftrightarrow>
     distinct (snd (nd_swarm s)) \<and> set (snd (nd_swarm s)) = set (nd_dialed_addresses s)"

lemma force_dial_ok:
  "dials_ok s \<Longrightarrow> dials_ok (nd_force_dial (dial_logged K) p a s)"
  "set (nd_dialed_addresses (nd_force_dial (dial_logged K) p a s))
     = insert a (set (nd_dialed_addresses s))"
proof -
  let ?sw1 = "kad_add_address (dial_logged K) p a (nd_swarm s)"
  obtain r sw2 where d: "sw_dial (dial_logged K) a ?sw1 = (r, sw2)"
    by (metis surj_pair)
  have "snd sw2 = snd (nd_swarm s) @ [a]"
    using dial_logged_log(4) [of K a ?sw1] d by simp
  with d show "dials_ok s \<Longrightarrow> dials_ok (nd_force_dial (dial_logged K) p a s)"
    and "set (nd_dialed_addresses (nd_force_dial (dial_logged K) p a s))
      = insert a (set (nd_dialed_addresses s))"
    by (auto simp: nd_force_dial_def Let_def dials_ok_def)
qed

lemma fold_dial_ok:
  "dials_ok s \<Longrightarrow> dials_ok (fold (nd_force_dial (dial_logged K) p) as s)
   \<and> set (nd_dialed_addresses (fold (nd_force_dial (dial_logged K) p) as s))
       = set (nd_dialed_addresses s) \<union> set as
   \<and> nd_discovered (fold (nd_force_dial (dial_logged K) p) as s) = nd_discovered s"
  by (induction as arbitrary: s) (auto simp: force_dial_ok)

text \<open>The invariant of the event loop: what is known has been dialed, once.\<close>

definition dial_inv ::
  "('peer, 'q, 'sw \<times> 'peer multiaddr list) network_discovery \<Rightarrow> bool" where
  "dial_inv s \<longleftrightarrow> dials_ok s \<and> set (nd_dialed_addresses s) = known_addresses (nd_discovered s)"

lemma dial_inv_submit: "dial_inv s \<Longrightarrow> dial_inv (nd_submit (dial_logged K) s)"
proof -
  obtain p sw1 q sw2 where r: "random_peer (dial_logged K) (nd_swarm s) = (p, sw1)"
    and g: "kad_get_closest_peers (dial_logged K) p sw1 = (q, sw2)"
    by (metis surj_pair)
  have "snd sw2 = snd (nd_swarm s)"
    using dial_logged_log(5) [of K "nd_swarm s"] dial_logged_log(1) [of K p sw1] r g by simp
  with r g show "dial_inv s \<Longrightarrow> dial_inv (nd_submit (dial_logged K) s)"
    by (simp add: dial_inv_def dials_ok_def nd_submit_def)
qed

lemma dial_inv_top_up:
  "nd_top_up_queries (dial_logged K) s = Some s' \<Longrightarrow> dial_inv s \<Longrightarrow> dial_inv s'"
  unfolding nd_top_up_queries_def
  by (erule fill_loop_inv [where I = dial_inv]) (auto intro: dial_inv_submit)

lemma dial_inv_other [simp]:
  "dial_inv (s\<lparr>nd_queries := qs\<rparr>) = dial_inv s"
  "dial_inv (s\<lparr>nd_peer_details := pd\<rparr>) = dial_inv s"
  "dial_inv (s\<lparr>nd_peer_role := pr\<rparr>) = dial_inv s"
  "dial_inv (nd_dialed_peer x s) = dial_inv s"
  by (simp_all add: dial_inv_def dials_ok_def nd_dialed_peer_def split: option.splits)

lemma dial_inv_dial_note:
  "dial_inv s \<Longrightarrow> s1 = fold (nd_force_dial (dial_logged K) p) as s \<Longrightarrow>
     dial_inv (s1\<lparr>nd_discovered := note_addresses p as (nd_discovered s1)\<rparr>)"
  using fold_dial_ok [of s K p as] by (simp add: dial_inv_def dials_ok_def)

lemma dial_inv_kad:
  assumes "nd_handle_kad (dial_logged K) ev s = Some s'" and "dial_inv s"
  shows "dial_inv s'"
proof (cases ev)
  case (OutboundQueryProgressed i result)
  then show ?thesis
    using assms dial_inv_top_up [of K "s\<lparr>nd_queries := set_remove i (nd_queries s)\<rparr>" s']
    by (auto simp: nd_handle_kad_def split: option.splits)
next
  case (RoutingUpdated p as)
  then show ?thesis
    using assms dial_inv_dial_note [OF assms(2) refl, where K = K and p = p and as = as]
    by (auto simp: nd_handle_kad_def Let_def)
next
  case (RoutablePeer p a)
  then show ?thesis
    using assms dial_inv_dial_note [OF assms(2) refl, where K = K and p = p and as = "[a]"]
    by (auto simp: nd_handle_kad_def Let_def)
next
  case (PendingRoutablePeer p a)
  then show ?thesis
    using assms dial_inv_dial_note [OF assms(2) refl, where K = K and p = p and as = "[a]"]
    by (auto simp: nd_handle_kad_def Let_def)
next
  case OtherKademliaEvent
  then show ?thesis using assms by (simp add: nd_handle_kad_def)
qed

lemma dial_inv_turn:
  assumes "nd_turn (dial_logged K) t s = Some s'" and "dial_inv s"
  shows "dial_inv s'"
  using assms dial_inv_top_up [of K s s'] dial_inv_kad [of K _ s s']
  by (auto simp: nd_turn_def nd_handle_event_def split: loop_turn.splits swarm_event.splits)

lemma dial_inv_turns:
  "nd_turns (dial_logged K) ts s = Some s' \<Longrightarrow> dial_inv s \<Longrightarrow> dial_inv s'"
  by (induction ts arbitrary: s) (auto split: option.splits dest: dial_inv_turn)

text \<open>
  C27. Every address the walks surface is dialed, and none twice: in every state the event loop
  reaches, the log of dials has no repetition and its addresses are exactly those recorded for
  the discovered peers.
\<close>

theorem each_address_dialed_once:
  assumes "nd_drive_events (dial_logged K) turns (network_discovery_new (sw, [])) = Some s'"
  shows "distinct (snd (nd_swarm s'))
    \<and> set (snd (nd_swarm s')) = known_addresses (nd_discovered s')"
proof -
  have "dial_inv (network_discovery_new (sw, []))"
    by (simp add: dial_inv_def dials_ok_def network_discovery_new_def)
  with assms have "dial_inv s'"
    by (auto simp: nd_drive_events_def split: option.splits dest: dial_inv_top_up dial_inv_turns)
  then show ?thesis
    by (simp add: dial_inv_def dials_ok_def)
qed

theorem each_address_dialed_once_witness:
  "\<exists>s'. nd_drive_events (dial_logged counting_swarm)
        [OnSwarm (DiscoveryEvent (RoutingUpdated 1 [[Tcp 1], [Tcp 2], [Tcp 1]]))]
        (network_discovery_new (0, [])) = Some s'
     \<and> distinct (snd (nd_swarm s'))"
proof -
  let ?ts = "[OnSwarm (DiscoveryEvent (RoutingUpdated 1 [[Tcp 1], [Tcp 2], [Tcp 1]]))]"
  obtain s' where s': "nd_drive_events (dial_logged counting_swarm) ?ts
      (network_discovery_new (0, [])) = Some s'"
    using nd_top_up_full [of "dial_logged counting_swarm" "\<lambda>x. {0..<fst x}"
        "network_discovery_new (0, [])"] dial_logged_fresh [OF counting_swarm_fresh]
    by (auto simp: nd_drive_events_def nd_turn_def nd_handle_event_def nd_handle_kad_def Let_def
        nd_pool_ok_def network_discovery_new_def)
  with each_address_dialed_once [OF s'] show ?thesis by blast
qed

section \<open>Counting dials\<close>

definition dials_of :: "'peer \<Rightarrow> ('peer, 'q) loop_turn list \<Rightarrow> nat" where
  "dials_of p turns = length (filter (\<lambda>t. t = OnSwarm (Dialing (Some p))) turns)"

lemma nd_force_dial_dialed_peers [simp]:
  "nd_dialed_peers (nd_force_dial K p a s) = nd_dialed_peers s"
  by (simp add: nd_force_dial_def Let_def split: prod.splits)

lemma nd_fold_dialed_peers [simp]:
  "nd_dialed_peers (fold (nd_force_dial K p) as s) = nd_dialed_peers s"
  by (induction as arbitrary: s) simp_all

lemma nd_top_up_dialed_peers:
  "nd_top_up_queries K s = Some s' \<Longrightarrow> nd_dialed_peers s' = nd_dialed_peers s"
  unfolding nd_top_up_queries_def
  by (erule fill_loop_inv [where I = "\<lambda>t. nd_dialed_peers t = nd_dialed_peers s"])
    (auto simp: nd_submit_def split: prod.splits)

lemma nd_turn_dialed_peers:
  "nd_turn K t s = Some s' \<Longrightarrow>
     nd_dialed_peers s' = (case t of
        OnSwarm (Dialing (Some p)) \<Rightarrow> map_entry p (\<lambda>num. num + 1) 0 (nd_dialed_peers s)
      | _ \<Rightarrow> nd_dialed_peers s)"
  by (auto simp: nd_turn_def nd_handle_event_def nd_handle_kad_def nd_dialed_peer_def Let_def
      split: loop_turn.splits swarm_event.splits kademlia_event.splits option.splits
      dest: nd_top_up_dialed_peers)

text \<open>
  The dial counter is one short: a peer that was dialed \<open>n\<close> times, for \<open>n\<close> at least
  one, is recorded with the number \<open>n - 1\<close>, so that one dial counts as zero.
\<close>

theorem dialed_peers_one_short:
  assumes "nd_turns K turns (network_discovery_new sw) = Some s'"
  shows "map_of (nd_dialed_peers s') p =
    (if dials_of p turns = 0 then None else Some (dials_of p turns - 1))"
proof -
  have step: "map_of (nd_dialed_peers s') p =
      (case map_of (nd_dialed_peers s) p of
         None \<Rightarrow> if dials_of p ts = 0 then None else Some (dials_of p ts - 1)
       | Some n \<Rightarrow> Some (n + dials_of p ts))"
    if "nd_turns K ts s = Some s'" for ts s
    using that
  proof (induction ts arbitrary: s)
    case (Cons t ts)
    then obtain s1 where s1: "nd_turn K t s = Some s1" "nd_turns K ts s1 = Some s'"
      by (auto split: option.splits)
    show ?case
      using Cons.IH [OF s1(2)] nd_turn_dialed_peers [OF s1(1)]
      by (auto simp: dials_of_def map_of_map_entry
          split: loop_turn.splits swarm_event.splits option.splits)
  qed (simp add: dials_of_def split: option.splits)
  from step [OF assms] show ?thesis
    by (simp add: network_discovery_new_def)
qed

theorem dialed_peers_one_short_witness:
  "\<exists>s'. nd_turns counting_swarm [OnSwarm (Dialing (Some 3))] (network_discovery_new 0) = Some s'
     \<and> map_of (nd_dialed_peers s') 3 = Some 0"
proof -
  obtain s' where s': "nd_turns counting_swarm [OnSwarm (Dialing (Some 3))]
      (network_discovery_new 0) = Some s'"
    by (simp add: nd_turn_def nd_handle_event_def)
  with dialed_peers_one_short [OF s', of 3] show ?thesis
    by (simp add: dials_of_def)
qed

section \<open>The summary\<close>

text \<open>Peers that speak a protocol whose name contains the genesis text.\<close>

definition supports_genesis :: "string \<Rightarrow> 'peer identify_info \<Rightarrow> bool" where
  "supports_genesis genesis info = list_ex (\<lambda>proto. str_contains proto genesis) (info_protocols info)"

definition genesis_infos ::
  "string \<Rightarrow> ('peer, 'peer identify_info) hash_map \<Rightarrow> ('peer, 'peer identify_info) hash_map" where
  "genesis_infos genesis details = filter (\<lambda>(_, info). supports_genesis genesis info) details"

definition public_infos ::
  "(ip_addr \<Rightarrow> bool) \<Rightarrow> ('peer, 'peer identify_info) hash_map
     \<Rightarrow> ('peer, 'peer identify_info) hash_map" where
  "public_infos is_global infos =
     filter (\<lambda>(_, info). list_ex (is_public_address is_global) (info_listen_addrs info)) infos"

definition authority_peers :: "('peer, protocol_role) hash_map \<Rightarrow> 'peer list" where
  "authority_peers peer_roles = map fst (filter (\<lambda>(_, role). role = Authority) peer_roles)"

text \<open>
  Where an address is: \<open>locate\<close> is the lookup in the GeoIP database, \<open>lookup_ip\<close> the DNS
  resolver (\<open>None\<close> is a failed lookup).
\<close>

definition locate_address ::
  "(ip_addr \<Rightarrow> 'loc option) \<Rightarrow> (string \<Rightarrow> ip_addr list option) \<Rightarrow> 'peer multiaddr \<Rightarrow> 'loc option" where
  "locate_address locate lookup_ip addr =
     (let by_name = (\<lambda>dns. case lookup_ip dns of
                             None \<Rightarrow> None
                           | Some ips \<Rightarrow> (case List.map_filter locate ips of [] \<Rightarrow> None | l # _ \<Rightarrow> Some l))
      in case first_protocol addr of
           Some (Ip4 ip) \<Rightarrow> locate (IpV4 ip)
         | Some (Ip6 ip) \<Rightarrow> locate (IpV6 ip)
         | Some (Dns dns) \<Rightarrow> by_name dns
         | Some (Dns4 dns) \<Rightarrow> by_name dns
         | Some (Dns6 dns) \<Rightarrow> by_name dns
         | _ \<Rightarrow> None)"

text \<open>The first address of a peer that has a location decides: the loop breaks there.\<close>

fun locate_first ::
  "('peer multiaddr \<Rightarrow> 'loc option) \<Rightarrow> 'peer multiaddr list \<Rightarrow> 'loc option" where
  "locate_first located [] = None"
| "locate_first located (addr # addrs) =
     (case located addr of Some l \<Rightarrow> Some l | None \<Rightarrow> locate_first located addrs)"

definition geolocate_step ::
  "('peer multiaddr \<Rightarrow> 'loc option) \<Rightarrow> ('loc \<Rightarrow> string) \<Rightarrow> 'peer \<times> 'peer identify_info
     \<Rightarrow> (string, nat) hash_map \<times> ('peer, 'loc) hash_map
     \<Rightarrow> (string, nat) hash_map \<times> ('peer, 'loc) hash_map" where
  "geolocate_step located city_of entry acc =
     (case entry of (peer, info) \<Rightarrow> (case acc of (cities, geolocated) \<Rightarrow>
        (case locate_first located (info_listen_addrs info) of
           None \<Rightarrow> (cities, geolocated)
         | Some l \<Rightarrow>
             (map_entry (city_of l) (\<lambda>num. num + 1) 1 cities,
              AList.update peer l geolocated))))"

definition geolocate ::
  "('peer multiaddr \<Rightarrow> 'loc option) \<Rightarrow> ('loc \<Rightarrow> string) \<Rightarrow> ('peer, 'peer identify_info) hash_map
     \<Rightarrow> (string, nat) hash_map \<times> ('peer, 'loc) hash_map" where
  "geolocate located city_of infos = fold (geolocate_step located city_of) infos ([], [])"

text \<open>
  The cities printed: sorted by falling count, stably over the map's own order, and cut off.
\<close>

definition top_cities ::
  "((string \<times> nat) list \<Rightarrow> (string \<times> nat) list) \<Rightarrow> nat option \<Rightarrow> (string, nat) hash_map
     \<Rightarrow> (string \<times> nat) list" where
  "top_cities iter_order num_cities cities =
     take (case num_cities of Some n \<Rightarrow> n | None \<Rightarrow> 10)
       (sort_key (\<lambda>entry. - int (snd entry)) (iter_order cities))"

text \<open>
  The genesis text given with its usual \<open>0x\<close> matches no peer: the protocol names of a
  chain are made of the bare hexadecimal text, which the filter finds, while the filter with
  the prefixed text finds none of them, although the swarm itself was built for that chain.
\<close>

theorem prefixed_genesis_matches_nothing:
  assumes "set g \<subseteq> set ''0123456789abcdef''" and "g \<noteq> []"
    and "info_protocols info =
      [''/'' @ g @ ''/block-announces/1'', ''/'' @ g @ ''/transactions/1'', ''/'' @ g @ ''/kad'']"
  shows "supports_genesis g info \<and> \<not> supports_genesis (''0x'' @ g) info
    \<and> trim_start_matches ''0x'' (''0x'' @ g) = g"
proof -
  have x: "CHR ''x'' \<notin> set g"
    using assms(1) by auto
  have "\<not> str_contains proto (''0x'' @ g)" if "proto \<in> set (info_protocols info)" for proto
    using that x assms(3) str_contains_set [of proto "''0x'' @ g"] by auto
  moreover have "str_contains (''/'' @ g @ ''/kad'') g"
    by (simp only: str_contains_iff sublist_appendI)
  moreover have "\<not> prefix ''0x'' g"
    using x by (auto simp: prefix_def)
  ultimately show ?thesis
    using assms(3)
    by (auto simp: supports_genesis_def list_ex_iff trim_start_matches_strips trim_start_matches_id
        simp del: append_Cons append.simps(2))
qed

theorem prefixed_genesis_matches_nothing_witness:
  "\<not> supports_genesis ''0x91b1''
     (\<lparr>info_agent_version = ''node'', info_protocol_version = ''1'', info_listen_addrs = [],
       info_protocols = [''/91b1/block-announces/1'', ''/91b1/transactions/1'', ''/91b1/kad''],
       info_observed_addr = []\<rparr> :: nat identify_info)"
proof -
  let ?info = "\<lparr>info_agent_version = ''node'', info_protocol_version = ''1'',
    info_listen_addrs = [],
    info_protocols = [''/91b1/block-announces/1'', ''/91b1/transactions/1'', ''/91b1/kad''],
    info_observed_addr = []\<rparr> :: nat identify_info"
  have "set ''91b1'' \<subseteq> set ''0123456789abcdef''" "''91b1'' \<noteq> []"
    and "info_protocols ?info = [''/'' @ ''91b1'' @ ''/block-announces/1'',
      ''/'' @ ''91b1'' @ ''/transactions/1'', ''/'' @ ''91b1'' @ ''/kad'']"
    by simp_all
  from prefixed_genesis_matches_nothing [OF this]
  have "\<not> supports_genesis (''0x'' @ ''91b1'') ?info" by blast
  then show ?thesis by simp
qed

end
