(* ===== verification/Peer_Discovery.thy ===== *)
theory Peer_Discovery
  imports Swarm
begin

text \<open>
  The \<open>discover-peer\<close> command (\<open>cli/src/commands/discover_peer.rs\<close>): the hunt for one
  peer, with a pool of DHT queries all keyed on it, and the record of what the DHT says of it.
  The state also keeps, in order, what the loop has printed: one entry for each report with new
  addresses, which \<open>Discovery_Commands\<close> turns into the lines of the terminal.
\<close>

section \<open>State and operations\<close>

definition PEER_MAX_QUERIES :: nat where
  "PEER_MAX_QUERIES = 128"

text \<open>
  A report that is printed: where it came from, its new addresses, and how many addresses and
  reports there are by then.
\<close>

record 'peer dht_progress =
  dp_source :: string
  dp_new_addrs :: "'peer multiaddr list"
  dp_known :: nat
  dp_reports :: nat

record ('peer, 'q, 'sw) peer_discovery =
  pdc_target :: 'peer
  pdc_swarm :: 'sw
  pdc_queries :: "'q hash_set"
  pdc_discovered :: "('peer, 'peer multiaddr hash_set) hash_map"
  pdc_peer_details :: "('peer, 'peer identify_info) hash_map"
  pdc_peer_role :: "('peer, protocol_role) hash_map"
  pdc_dialed_addresses :: "'peer multiaddr hash_set"
  pdc_target_identified :: bool
  pdc_target_dht_reports :: nat
  pdc_target_known_addresses :: "'peer multiaddr hash_set"
  pdc_printed :: "'peer dht_progress list"

definition peer_discovery_new :: "'peer \<Rightarrow> 'sw \<Rightarrow> ('peer, 'q, 'sw) peer_discovery" where
  "peer_discovery_new target sw =
     \<lparr>pdc_target = target, pdc_swarm = sw, pdc_queries = [], pdc_discovered = [],
      pdc_peer_details = [], pdc_peer_role = [], pdc_dialed_addresses = [],
      pdc_target_identified = False, pdc_target_dht_reports = 0, pdc_target_known_addresses = [],
      pdc_printed = []\<rparr>"

text \<open>An address of a report: the set of known addresses, and the new ones in their order.\<close>

definition note_address ::
  "'peer multiaddr \<Rightarrow> 'peer multiaddr hash_set \<times> 'peer multiaddr list
     \<Rightarrow> 'peer multiaddr hash_set \<times> 'peer multiaddr list" where
  "note_address addr acc =
     (case acc of (known, new_addrs) \<Rightarrow>
        if addr \<in> set known then (known, new_addrs) else (List.insert addr known, new_addrs @ [addr]))"

definition note_target_addresses ::
  "string \<Rightarrow> 'peer multiaddr list \<Rightarrow> ('peer, 'q, 'sw) peer_discovery
     \<Rightarrow> ('peer, 'q, 'sw) peer_discovery" where
  "note_target_addresses source addrs s =
     (case fold note_address addrs (pdc_target_known_addresses s, []) of
        (known, new_addrs) \<Rightarrow>
          s\<lparr>pdc_target_dht_reports := pdc_target_dht_reports s + 1,
            pdc_target_known_addresses := known,
            pdc_printed := pdc_printed s @
              (if new_addrs = [] then []
               else [\<lparr>dp_source = source, dp_new_addrs = new_addrs, dp_known = length known,
                      dp_reports = pdc_target_dht_reports s + 1\<rparr>])\<rparr>)"

definition pdc_submit ::
  "('peer, 'q, 'sw) swarm_ops \<Rightarrow> ('peer, 'q, 'sw) peer_discovery
     \<Rightarrow> ('peer, 'q, 'sw) peer_discovery" where
  "pdc_submit K s =
     (case kad_get_closest_peers K (pdc_target s) (pdc_swarm s) of (q, sw) \<Rightarrow>
        s\<lparr>pdc_swarm := sw, pdc_queries := List.insert q (pdc_queries s)\<rparr>)"

definition pdc_top_up_queries ::
  "('peer, 'q, 'sw) swarm_ops \<Rightarrow> ('peer, 'q, 'sw) peer_discovery
     \<Rightarrow> ('peer, 'q, 'sw) peer_discovery option" where
  "pdc_top_up_queries K s =
     fill_loop (\<lambda>s. length (pdc_queries s)) PEER_MAX_QUERIES (pdc_submit K) s"

definition pdc_force_dial ::
  "('peer, 'q, 'sw) swarm_ops \<Rightarrow> 'peer \<Rightarrow> 'peer multiaddr \<Rightarrow> ('peer, 'q, 'sw) peer_discovery
     \<Rightarrow> ('peer, 'q, 'sw) peer_discovery" where
  "pdc_force_dial K peer addr s =
     (if addr \<in> set (pdc_dialed_addresses s) then s
      else
        (let sw1 = kad_add_address K peer addr (pdc_swarm s)
         in case sw_dial K addr sw1 of (_, sw2) \<Rightarrow>
              s\<lparr>pdc_dialed_addresses := List.insert addr (pdc_dialed_addresses s),
                pdc_swarm := sw2\<rparr>))"

text \<open>What the three address events share: note the target's, dial, record.\<close>

definition pdc_on_addresses ::
  "('peer, 'q, 'sw) swarm_ops \<Rightarrow> string \<Rightarrow> 'peer \<Rightarrow> 'peer multiaddr list
     \<Rightarrow> ('peer, 'q, 'sw) peer_discovery \<Rightarrow> ('peer, 'q, 'sw) peer_discovery" where
  "pdc_on_addresses K source peer addrs s =
     (let s1 = (if peer = pdc_target s then note_target_addresses source addrs s else s);
          s2 = fold (pdc_force_dial K peer) addrs s1
      in s2\<lparr>pdc_discovered := note_addresses peer addrs (pdc_discovered s2)\<rparr>)"

definition pdc_handle_kad ::
  "('peer, 'q, 'sw) swarm_ops \<Rightarrow> ('peer, 'q) kademlia_event \<Rightarrow> ('peer, 'q, 'sw) peer_discovery
     \<Rightarrow> ('peer, 'q, 'sw) peer_discovery option" where
  "pdc_handle_kad K event s =
     (case event of
        OutboundQueryProgressed i result \<Rightarrow>
          (case closest_peers result of
             Some peers \<Rightarrow>
               (let s1 = s\<lparr>pdc_queries := set_remove i (pdc_queries s)\<rparr>;
                    target_addrs = concat (map snd (filter (\<lambda>(p, _). p = pdc_target s1) peers));
                    s2 = (if target_addrs \<noteq> [] then note_target_addresses ''closest-peers response'' target_addrs s1 else s1)
                in pdc_top_up_queries K s2)
           | None \<Rightarrow> Some s)
      | RoutingUpdated peer addrs \<Rightarrow> Some (pdc_on_addresses K ''RoutingUpdated'' peer addrs s)
      | RoutablePeer peer address \<Rightarrow> Some (pdc_on_addresses K ''RoutablePeer'' peer [address] s)
      | PendingRoutablePeer peer address \<Rightarrow> Some (pdc_on_addresses K ''RoutablePeer'' peer [address] s)
      | OtherKademliaEvent \<Rightarrow> Some s)"

definition pdc_handle_event ::
  "('peer, 'q, 'sw) swarm_ops \<Rightarrow> ('peer, 'q) swarm_event \<Rightarrow> ('peer, 'q, 'sw) peer_discovery
     \<Rightarrow> ('peer, 'q, 'sw) peer_discovery option" where
  "pdc_handle_event K event s =
     (case event of
        DiscoveryEvent ev \<Rightarrow> pdc_handle_kad K ev s
      | Identified peer_id info \<Rightarrow>
          Some (s\<lparr>pdc_target_identified :=
                    (if peer_id = pdc_target s then True else pdc_target_identified s),
                  pdc_peer_details := AList.update peer_id info (pdc_peer_details s)\<rparr>)
      | ProtocolOpen peer_id index received_handshake inbound \<Rightarrow>
          Some (s\<lparr>pdc_peer_role :=
            note_role (read_byte K) peer_id received_handshake (pdc_peer_role s)\<rparr>)
      | _ \<Rightarrow> Some s)"

definition pdc_turn ::
  "('peer, 'q, 'sw) swarm_ops \<Rightarrow> ('peer, 'q) loop_turn \<Rightarrow> ('peer, 'q, 'sw) peer_discovery
     \<Rightarrow> ('peer, 'q, 'sw) peer_discovery option" where
  "pdc_turn K turn s =
     (case turn of
        OnSwarm event \<Rightarrow> pdc_handle_event K event s
      | OnResubmit \<Rightarrow> pdc_top_up_queries K s
      | OnLog \<Rightarrow> Some s)"

fun pdc_turns ::
  "('peer, 'q, 'sw) swarm_ops \<Rightarrow> ('peer, 'q) loop_turn list \<Rightarrow> ('peer, 'q, 'sw) peer_discovery
     \<Rightarrow> ('peer, 'q, 'sw) peer_discovery option" where
  "pdc_turns K [] s = Some s"
| "pdc_turns K (t # ts) s = (case pdc_turn K t s of None \<Rightarrow> None | Some s' \<Rightarrow> pdc_turns K ts s')"

definition pdc_drive_events ::
  "('peer, 'q, 'sw) swarm_ops \<Rightarrow> ('peer, 'q) loop_turn list \<Rightarrow> ('peer, 'q, 'sw) peer_discovery
     \<Rightarrow> ('peer, 'q, 'sw) peer_discovery option" where
  "pdc_drive_events K turns s =
     (case pdc_top_up_queries K s of None \<Rightarrow> None | Some s' \<Rightarrow> pdc_turns K turns s')"

section \<open>The pool of queries\<close>

definition pdc_pool_ok ::
  "('peer, 'q, 'sw) swarm_ops \<Rightarrow> ('sw \<Rightarrow> 'q set) \<Rightarrow> ('peer, 'q, 'sw) peer_discovery \<Rightarrow> bool" where
  "pdc_pool_ok K issued s \<longleftrightarrow>
     fresh_query_ids K issued \<and> distinct (pdc_queries s)
     \<and> set (pdc_queries s) \<subseteq> issued (pdc_swarm s)"

interpretation pdc_pool: query_pool pdc_queries "pdc_submit K" "pdc_pool_ok K issued" PEER_MAX_QUERIES
proof
  fix s
  assume ok: "pdc_pool_ok K issued s"
  obtain q sw where g: "kad_get_closest_peers K (pdc_target s) (pdc_swarm s) = (q, sw)"
    by (metis surj_pair)
  from ok have "fresh_query_ids K issued"
    by (simp add: pdc_pool_ok_def)
  from fresh_query_ids_facts(1) [OF this g]
  show "pdc_pool_ok K issued (pdc_submit K s)"
    and "length (pdc_queries (pdc_submit K s)) = Suc (length (pdc_queries s))"
    using ok g by (auto simp: pdc_pool_ok_def pdc_submit_def container_simps)
qed

lemma pdc_force_dial_simps [simp]:
  "pdc_queries (pdc_force_dial K p a s) = pdc_queries s"
  "pdc_target (pdc_force_dial K p a s) = pdc_target s"
  "pdc_peer_details (pdc_force_dial K p a s) = pdc_peer_details s"
  "pdc_target_identified (pdc_force_dial K p a s) = pdc_target_identified s"
  "pdc_target_known_addresses (pdc_force_dial K p a s) = pdc_target_known_addresses s"
  "pdc_target_dht_reports (pdc_force_dial K p a s) = pdc_target_dht_reports s"
  by (simp_all add: pdc_force_dial_def Let_def split: prod.splits)

lemma pdc_fold_dial [simp]:
  "pdc_queries (fold (pdc_force_dial K p) as s) = pdc_queries s"
  "pdc_target (fold (pdc_force_dial K p) as s) = pdc_target s"
  "pdc_peer_details (fold (pdc_force_dial K p) as s) = pdc_peer_details s"
  "pdc_target_identified (fold (pdc_force_dial K p) as s) = pdc_target_identified s"
  "pdc_target_known_addresses (fold (pdc_force_dial K p) as s) = pdc_target_known_addresses s"
  "pdc_target_dht_reports (fold (pdc_force_dial K p) as s) = pdc_target_dht_reports s"
  by (induction as arbitrary: s) simp_all

lemma pdc_force_dial_ok:
  "pdc_pool_ok K issued s \<Longrightarrow> pdc_pool_ok K issued (pdc_force_dial K p a s)"
  using fresh_query_ids_facts(3,4) [of K issued]
  by (simp add: pdc_pool_ok_def) (simp add: pdc_force_dial_def Let_def split: prod.splits)

lemma pdc_fold_dial_ok:
  "pdc_pool_ok K issued s \<Longrightarrow> pdc_pool_ok K issued (fold (pdc_force_dial K p) as s)"
  by (induction as arbitrary: s) (simp_all add: pdc_force_dial_ok)

lemma fold_note_address:
  "fold note_address as (known, new_addrs) =
     (set_extend known as, new_addrs @ snd (fold note_address as (known, [])))"
proof (induction as arbitrary: known new_addrs)
  case (Cons a as)
  show ?case
  proof (cases "a \<in> set known")
    case True
    with Cons.IH [of known new_addrs] show ?thesis
      by (simp add: note_address_def set_extend_def)
  next
    case False
    with Cons.IH [of "a # known" "new_addrs @ [a]"] Cons.IH [of "a # known" "[a]"] show ?thesis
      by (simp only: fold_simps note_address_def prod.case if_False set_extend_def List.insert_def
          append_assoc snd_conv o_apply) (simp add: set_extend_def)
  qed
qed (simp add: set_extend_def)

lemma note_target_addresses_known:
  "\<exists>printed. note_target_addresses src as s =
     s\<lparr>pdc_target_dht_reports := pdc_target_dht_reports s + 1,
       pdc_target_known_addresses := set_extend (pdc_target_known_addresses s) as,
       pdc_printed := printed\<rparr>"
proof -
  obtain new_addrs where "fold note_address as (pdc_target_known_addresses s, []) =
      (set_extend (pdc_target_known_addresses s) as, new_addrs)"
    using fold_note_address [of as "pdc_target_known_addresses s" "[]"] by blast
  then show ?thesis
    unfolding note_target_addresses_def by (simp only: prod.case) (rule exI, rule refl)
qed

lemma note_target_addresses_simps [simp]:
  "pdc_queries (note_target_addresses src as s) = pdc_queries s"
  "pdc_swarm (note_target_addresses src as s) = pdc_swarm s"
  "pdc_target (note_target_addresses src as s) = pdc_target s"
  "pdc_peer_details (note_target_addresses src as s) = pdc_peer_details s"
  "pdc_target_identified (note_target_addresses src as s) = pdc_target_identified s"
  "pdc_target_dht_reports (note_target_addresses src as s) = Suc (pdc_target_dht_reports s)"
  "set (pdc_target_known_addresses (note_target_addresses src as s))
     = set (pdc_target_known_addresses s) \<union> set as"
  using note_target_addresses_known [of src as s] by auto

lemma pdc_on_addresses_queries [simp]:
  "pdc_queries (pdc_on_addresses K src p as s) = pdc_queries s"
  "pdc_target (pdc_on_addresses K src p as s) = pdc_target s"
  by (simp_all add: pdc_on_addresses_def Let_def)

lemma pdc_on_addresses_ok:
  "pdc_pool_ok K issued s \<Longrightarrow> pdc_pool_ok K issued (pdc_on_addresses K src p as s)"
  using pdc_fold_dial_ok [of K issued s p as]
    pdc_fold_dial_ok [of K issued "note_target_addresses src as s" p as]
  by (auto simp: pdc_on_addresses_def Let_def pdc_pool_ok_def)

definition pdc_full ::
  "('peer, 'q, 'sw) swarm_ops \<Rightarrow> ('sw \<Rightarrow> 'q set) \<Rightarrow> ('peer, 'q, 'sw) peer_discovery \<Rightarrow> bool" where
  "pdc_full K issued s \<longleftrightarrow> pdc_pool_ok K issued s \<and> length (pdc_queries s) = PEER_MAX_QUERIES"

lemma pdc_top_up_full:
  assumes "pdc_pool_ok K issued s" and "length (pdc_queries s) \<le> PEER_MAX_QUERIES"
  shows "\<exists>s'. pdc_top_up_queries K s = Some s' \<and> pdc_full K issued s'"
  using pdc_pool.top_up_fills [OF assms(1)] assms(2)
  by (auto simp: pdc_top_up_queries_def pdc_full_def)

lemma pdc_kad_full:
  assumes "pdc_full K issued s"
  shows "\<exists>s'. pdc_handle_kad K ev s = Some s' \<and> pdc_full K issued s'"
proof (cases ev)
  case (OutboundQueryProgressed i result)
  have "\<exists>s'. pdc_top_up_queries K t = Some s' \<and> pdc_full K issued s'"
    if "pdc_queries t = set_remove i (pdc_queries s)" "pdc_swarm t = pdc_swarm s" for t
    using assms that length_filter_le [of _ "pdc_queries s"]
    by (intro pdc_top_up_full)
      (auto simp: pdc_full_def pdc_pool_ok_def distinct_removeAll removeAll_filter_not_eq)
  then show ?thesis
    using assms OutboundQueryProgressed
    by (auto simp: pdc_handle_kad_def Let_def split: option.splits)
qed (use assms in \<open>simp_all add: pdc_handle_kad_def pdc_full_def pdc_on_addresses_ok\<close>)

lemma pdc_turn_full:
  assumes "pdc_full K issued s"
  shows "\<exists>s'. pdc_turn K t s = Some s' \<and> pdc_full K issued s'"
proof (cases t)
  case (OnSwarm ev)
  then show ?thesis
    using assms pdc_kad_full [OF assms]
    by (cases ev) (auto simp: pdc_turn_def pdc_handle_event_def pdc_full_def pdc_pool_ok_def)
next
  case OnResubmit
  then show ?thesis
    using assms pdc_top_up_full [of K issued s] by (simp add: pdc_turn_def pdc_full_def)
next
  case OnLog
  then show ?thesis using assms by (simp add: pdc_turn_def)
qed

lemma pdc_turns_full:
  "pdc_full K issued s \<Longrightarrow> \<exists>s'. pdc_turns K ts s = Some s' \<and> pdc_full K issued s'"
proof (induction ts arbitrary: s)
  case (Cons t ts)
  from pdc_turn_full [OF Cons.prems] obtain s' where
    "pdc_turn K t s = Some s'" "pdc_full K issued s'" by blast
  with Cons.IH show ?case by simp
qed simp

text \<open>
  The hunt keeps exactly 128 queries on its target in flight: if Kademlia never reuses a
  query identifier, the priming and every turn of the event loop return and leave the pool
  full, whatever the events.
\<close>

theorem peer_discovery_pool_full:
  assumes "fresh_query_ids K issued"
  shows "\<exists>s'. pdc_drive_events K turns (peer_discovery_new target sw) = Some s'
    \<and> length (pdc_queries s') = 128 \<and> distinct (pdc_queries s')
    \<and> set (pdc_queries s') \<subseteq> issued (pdc_swarm s')"
proof -
  have "pdc_pool_ok K issued (peer_discovery_new target sw)"
    "length (pdc_queries (peer_discovery_new target sw)) \<le> PEER_MAX_QUERIES"
    using assms by (simp_all add: pdc_pool_ok_def peer_discovery_new_def)
  from pdc_top_up_full [OF this] obtain s1 where
    s1: "pdc_top_up_queries K (peer_discovery_new target sw) = Some s1" "pdc_full K issued s1"
    by blast
  from pdc_turns_full [OF s1(2)] s1(1) show ?thesis
    by (auto simp: pdc_drive_events_def pdc_full_def pdc_pool_ok_def PEER_MAX_QUERIES_def)
qed

theorem peer_discovery_pool_full_witness:
  "\<exists>s'. pdc_drive_events counting_swarm
        [OnSwarm (DiscoveryEvent (OutboundQueryProgressed 5 (GetClosestPeersTimeout [])))]
        (peer_discovery_new 9 0) = Some s' \<and> length (pdc_queries s') = 128"
  using peer_discovery_pool_full [OF counting_swarm_fresh, of
      "[OnSwarm (DiscoveryEvent (OutboundQueryProgressed 5 (GetClosestPeersTimeout [])))]" 9 0]
  by auto

section \<open>What is learned of the target\<close>

text \<open>The address lists a turn reports for the target.\<close>

fun target_reports :: "'peer \<Rightarrow> ('peer, 'q) loop_turn \<Rightarrow> 'peer multiaddr list list" where
  "target_reports target (OnSwarm (DiscoveryEvent (OutboundQueryProgressed i result))) =
     (case closest_peers result of
        None \<Rightarrow> []
      | Some peers \<Rightarrow>
          filter (\<lambda>as. as \<noteq> []) [concat (map snd (filter (\<lambda>(p, _). p = target) peers))])"
| "target_reports target (OnSwarm (DiscoveryEvent (RoutingUpdated p as))) =
     (if p = target then [as] else [])"
| "target_reports target (OnSwarm (DiscoveryEvent (RoutablePeer p a))) =
     (if p = target then [[a]] else [])"
| "target_reports target (OnSwarm (DiscoveryEvent (PendingRoutablePeer p a))) =
     (if p = target then [[a]] else [])"
| "target_reports target _ = []"

definition identifies :: "'peer \<Rightarrow> ('peer, 'q) loop_turn \<Rightarrow> bool" where
  "identifies p t \<longleftrightarrow> (\<exists>info. t = OnSwarm (Identified p info))"

text \<open>The part of the state that speaks of the target.\<close>

definition target_view ::
  "('peer, 'q, 'sw) peer_discovery \<Rightarrow> 'peer \<times> nat \<times> 'peer multiaddr set \<times> bool \<times> 'peer set" where
  "target_view s =
     (pdc_target s, pdc_target_dht_reports s, set (pdc_target_known_addresses s),
      pdc_target_identified s, fst ` set (pdc_peer_details s))"

lemma target_view_top_up:
  "pdc_top_up_queries K s = Some s' \<Longrightarrow> target_view s' = target_view s"
  unfolding pdc_top_up_queries_def
  by (erule fill_loop_inv [where I = "\<lambda>t. target_view t = target_view s"])
    (auto simp: target_view_def pdc_submit_def split: prod.splits)

definition learned ::
  "'peer multiaddr list list \<Rightarrow> 'peer set \<Rightarrow> 'peer \<times> nat \<times> 'peer multiaddr set \<times> bool \<times> 'peer set
     \<Rightarrow> 'peer \<times> nat \<times> 'peer multiaddr set \<times> bool \<times> 'peer set" where
  "learned reports ids view =
     (case view of (target, n, known, found, details) \<Rightarrow>
        (target, n + length reports, known \<union> \<Union> (set ` set reports), found \<or> target \<in> ids,
         details \<union> ids))"

lemma target_view_on_addresses:
  "target_view (pdc_on_addresses K src p as s) =
     learned (if p = pdc_target s then [as] else []) {} (target_view s)"
  by (simp add: target_view_def learned_def pdc_on_addresses_def Let_def)

lemma target_view_kad:
  assumes "pdc_handle_kad K ev s = Some s'"
  shows "target_view s' =
    learned (target_reports (pdc_target s) (OnSwarm (DiscoveryEvent ev))) {} (target_view s)"
proof (cases ev)
  case (OutboundQueryProgressed i result)
  show ?thesis
  proof (cases "closest_peers result")
    case None
    then show ?thesis
      using assms OutboundQueryProgressed
      by (simp add: pdc_handle_kad_def learned_def split: prod.splits)
  next
    case (Some peers)
    let ?as = "concat (map snd (filter (\<lambda>(p, _). p = pdc_target s) peers))"
    let ?s1 = "s\<lparr>pdc_queries := set_remove i (pdc_queries s)\<rparr>"
    have "target_view s' = target_view (if ?as \<noteq> [] then note_target_addresses ''closest-peers response'' ?as ?s1 else ?s1)"
      using assms OutboundQueryProgressed Some
      by (intro target_view_top_up [of K]) (simp add: pdc_handle_kad_def Let_def cong: if_cong)
    then show ?thesis
      using OutboundQueryProgressed Some
      by (cases "?as = []") (simp_all add: target_view_def learned_def del: concat_eq_Nil_conv)
  qed
next
  case OtherKademliaEvent
  then show ?thesis
    using assms by (simp add: pdc_handle_kad_def learned_def split: prod.splits)
qed (use assms in \<open>auto simp: pdc_handle_kad_def target_view_on_addresses\<close>)

lemma target_view_turn:
  assumes "pdc_turn K t s = Some s'"
  shows "target_view s' =
    learned (target_reports (pdc_target s) t) {p. identifies p t} (target_view s)"
proof (cases t)
  case (OnSwarm ev)
  then show ?thesis
  proof (cases ev)
    case (DiscoveryEvent k)
    with assms OnSwarm target_view_kad [of K k s s'] show ?thesis
      by (simp add: pdc_turn_def pdc_handle_event_def identifies_def)
  next
    case (Identified p info)
    with assms OnSwarm have "s' = s\<lparr>pdc_target_identified :=
        (if p = pdc_target s then True else pdc_target_identified s),
        pdc_peer_details := AList.update p info (pdc_peer_details s)\<rparr>"
      by (simp add: pdc_turn_def pdc_handle_event_def)
    with OnSwarm Identified show ?thesis
      by (simp add: identifies_def target_view_def learned_def keys_update)
  qed (use assms OnSwarm in
      \<open>auto simp: pdc_turn_def pdc_handle_event_def identifies_def target_view_def learned_def\<close>)
next
  case OnResubmit
  with assms show ?thesis
    using target_view_top_up [of K s s']
    by (simp add: pdc_turn_def identifies_def learned_def split: prod.splits)
next
  case OnLog
  with assms show ?thesis
    by (simp add: pdc_turn_def identifies_def learned_def split: prod.splits)
qed

text \<open>
  C28. The summary of the hunt is exact. After any turns of the event loop, the number of DHT
  reports is the number of events that named the target, the known addresses are exactly those
  reported for it, whether or not a dial succeeded, and the target counts as identified exactly
  when an identify response of it has arrived, which is also when its details are on record.
\<close>

theorem target_summary_exact:
  assumes "pdc_drive_events K turns (peer_discovery_new target sw) = Some s'"
  shows "pdc_target_dht_reports s' = length (concat (map (target_reports target) turns))
    \<and> set (pdc_target_known_addresses s')
        = \<Union> (set ` set (concat (map (target_reports target) turns)))
    \<and> (pdc_target_identified s' \<longleftrightarrow> list_ex (identifies target) turns)
    \<and> (pdc_target_identified s' \<longleftrightarrow> target \<in> fst ` set (pdc_peer_details s'))"
proof -
  have run: "pdc_target s = target \<Longrightarrow> pdc_turns K ts s = Some s' \<Longrightarrow>
      pdc_target_dht_reports s' =
        pdc_target_dht_reports s + length (concat (map (target_reports target) ts))
      \<and> set (pdc_target_known_addresses s') = set (pdc_target_known_addresses s)
          \<union> \<Union> (set ` set (concat (map (target_reports target) ts)))
      \<and> (pdc_target_identified s' \<longleftrightarrow> pdc_target_identified s \<or> list_ex (identifies target) ts)
      \<and> (target \<in> fst ` set (pdc_peer_details s') \<longleftrightarrow>
          target \<in> fst ` set (pdc_peer_details s) \<or> list_ex (identifies target) ts)" for ts s
  proof (induction ts arbitrary: s)
    case (Cons t ts)
    then obtain s1 where s1: "pdc_turn K t s = Some s1" "pdc_turns K ts s1 = Some s'"
      by (auto split: option.splits)
    note view = target_view_turn [OF s1(1), unfolded target_view_def learned_def]
    from Cons.IH [OF _ s1(2)] view Cons.prems(1) show ?case
      by auto
  qed auto
  from assms obtain s1 where s1: "pdc_top_up_queries K (peer_discovery_new target sw) = Some s1"
    "pdc_turns K turns s1 = Some s'"
    by (auto simp: pdc_drive_events_def split: option.splits)
  from target_view_top_up [OF s1(1)]
  have "pdc_target s1 = target" "pdc_target_dht_reports s1 = 0"
    "set (pdc_target_known_addresses s1) = {}" "\<not> pdc_target_identified s1"
    "fst ` set (pdc_peer_details s1) = {}"
    by (auto simp: target_view_def peer_discovery_new_def)
  with run [OF this(1) s1(2)] show ?thesis by simp
qed

theorem target_summary_exact_witness:
  "\<exists>s'. pdc_drive_events counting_swarm
        [OnSwarm (DiscoveryEvent (RoutablePeer 9 [Tcp 1])),
         OnSwarm (DiscoveryEvent (RoutablePeer 9 [Tcp 1]))] (peer_discovery_new 9 0) = Some s'
     \<and> pdc_target_dht_reports s' = 2 \<and> set (pdc_target_known_addresses s') = {[Tcp 1]}
     \<and> \<not> pdc_target_identified s'"
proof -
  let ?ts = "[OnSwarm (DiscoveryEvent (RoutablePeer 9 [Tcp 1])),
    OnSwarm (DiscoveryEvent (RoutablePeer 9 [Tcp 1]))]"
  have "pdc_pool_ok counting_swarm (\<lambda>n. {0..<n}) (peer_discovery_new 9 0)"
    "length (pdc_queries (peer_discovery_new 9 0 :: (nat, nat, nat) peer_discovery))
      \<le> PEER_MAX_QUERIES"
    by (simp_all add: pdc_pool_ok_def counting_swarm_fresh peer_discovery_new_def)
  from pdc_top_up_full [OF this] obtain s' where
    s': "pdc_drive_events counting_swarm ?ts (peer_discovery_new 9 0) = Some s'"
    by (auto simp: pdc_drive_events_def pdc_turn_def pdc_handle_event_def pdc_handle_kad_def)
  from target_summary_exact [OF s'] s' show ?thesis
    by (auto simp: identifies_def)
qed

end
