(* ===== verification/Authority_Records.thy ===== *)
theory Authority_Records
  imports Addresses
begin

text \<open>
  The records authorities publish in the DHT (\<open>util/authorities.rs\<close>) and the signature scheme
  of the chain (\<open>util/crypto.rs\<close>). The protobuf schema, the SCALE codec, schnorrkel, the
  hash and the identity keys of libp2p are third-party or generated code: the operations of
  \<open>sr25519_ops\<close> and \<open>record_ops\<close>.
\<close>

section \<open>Signatures of the chain\<close>

record ('sig, 'pub) sr25519_ops =
  signature_from_bytes :: "bytes \<Rightarrow> 'sig option"
  public_from_bytes :: "bytes \<Rightarrow> 'pub option"
  verify_simple :: "'pub \<Rightarrow> bytes \<Rightarrow> bytes \<Rightarrow> 'sig \<Rightarrow> bool"

definition SIGNING_CTX :: bytes where
  "SIGNING_CTX = [0x73, 0x75, 0x62, 0x73, 0x74, 0x72, 0x61, 0x74, 0x65]"

definition sr25519_verify ::
  "('sig, 'pub) sr25519_ops \<Rightarrow> bytes \<Rightarrow> bytes \<Rightarrow> bytes \<Rightarrow> bool" where
  "sr25519_verify C sig message pubkey =
     (case signature_from_bytes C sig of
        None \<Rightarrow> False
      | Some signature \<Rightarrow>
          (case public_from_bytes C pubkey of
             None \<Rightarrow> False
           | Some public \<Rightarrow> verify_simple C public SIGNING_CTX message signature))"

section \<open>Records\<close>

record peer_signature =
  ps_signature :: bytes
  ps_public_key :: bytes

record signed_authority_record =
  sar_record :: bytes
  sar_auth_signature :: bytes
  sar_peer_signature :: "peer_signature option"

record ('peer, 'key, 'e) record_ops =
  decode_signed_record :: "bytes \<Rightarrow> 'e + signed_authority_record"
  decode_signature :: "bytes \<Rightarrow> 'e + bytes"
  decode_authority_record :: "bytes \<Rightarrow> 'e + bytes list"
  multiaddr_of_bytes :: "bytes \<Rightarrow> 'e + 'peer multiaddr"
  try_decode_protobuf :: "bytes \<Rightarrow> 'e + 'key"
  to_peer_id :: "'key \<Rightarrow> 'peer"
  key_verify :: "'key \<Rightarrow> bytes \<Rightarrow> bytes \<Rightarrow> bool"

datatype 'e record_error =
    Codec 'e
  | CannotVerifyPayload
  | NoAddressesFound
  | PeerIdsDiffer
  | PayloadNotSigned
  | PeerIdMismatch
  | PeerSignatureInvalid

text \<open>\<open>sha2_256\<close> is \<open>Code::Sha2_256.digest\<close>, \<open>record_key\<close> is \<open>KademliaKey::new\<close>.\<close>

definition hash_authority_id :: "(bytes \<Rightarrow> bytes) \<Rightarrow> (bytes \<Rightarrow> 'kad_key) \<Rightarrow> bytes \<Rightarrow> 'kad_key" where
  "hash_authority_id sha2_256 record_key i = record_key (sha2_256 i)"

text \<open>\<open>collect\<close> of an iterator of results: the first error, or all values in order.\<close>

fun collect_results :: "('e + 'a) list \<Rightarrow> 'e + 'a list" where
  "collect_results [] = Inr []"
| "collect_results (Inl e # rs) = Inl e"
| "collect_results (Inr x # rs) =
     (case collect_results rs of Inl e \<Rightarrow> Inl e | Inr xs \<Rightarrow> Inr (x # xs))"

text \<open>The peers named by the last component of each address, as a set.\<close>

definition named_peers :: "'peer multiaddr list \<Rightarrow> 'peer hash_set" where
  "named_peers addresses = set_extend [] (List.map_filter get_peer_id addresses)"

definition decode_dht_record ::
  "('sig, 'pub) sr25519_ops \<Rightarrow> ('peer, 'key, 'e) record_ops \<Rightarrow> bytes \<Rightarrow> bytes
     \<Rightarrow> 'e record_error + 'peer \<times> 'peer multiaddr list" where
  "decode_dht_record C R v authority_id =
     (case decode_signed_record R v of Inl e \<Rightarrow> Inl (Codec e) | Inr payload \<Rightarrow>
     (case decode_signature R (sar_auth_signature payload) of Inl e \<Rightarrow> Inl (Codec e)
      | Inr auth_signature \<Rightarrow>
      if \<not> sr25519_verify C auth_signature (sar_record payload) authority_id
      then Inl CannotVerifyPayload
      else
     (case decode_authority_record R (sar_record payload) of Inl e \<Rightarrow> Inl (Codec e)
      | Inr raw_addresses \<Rightarrow>
     (case collect_results (map (multiaddr_of_bytes R) raw_addresses) of Inl e \<Rightarrow> Inl (Codec e)
      | Inr addresses \<Rightarrow>
      if addresses = [] then Inl NoAddressesFound
      else
      (let peer_ids = named_peers addresses
       in if length peer_ids \<noteq> 1 then Inl PeerIdsDiffer
          else
          (let peer_id = hd peer_ids
           in case sar_peer_signature payload of
                None \<Rightarrow> Inl PayloadNotSigned
              | Some peer_signature \<Rightarrow>
                  (case try_decode_protobuf R (ps_public_key peer_signature) of
                     Inl e \<Rightarrow> Inl (Codec e)
                   | Inr public_key \<Rightarrow>
                       if peer_id \<noteq> to_peer_id R public_key then Inl PeerIdMismatch
                       else if \<not> key_verify R public_key (sar_record payload)
                                  (ps_signature peer_signature)
                       then Inl PeerSignatureInvalid
                       else Inr (peer_id, addresses))))))))"

section \<open>Lemmas\<close>

lemma collect_results_map_Inr [simp]: "collect_results (map Inr xs) = Inr xs"
  by (induction xs) simp_all

lemma collect_results_eq_Inr: "collect_results rs = Inr xs \<longleftrightarrow> rs = map Inr xs"
proof
  show "collect_results rs = Inr xs \<Longrightarrow> rs = map Inr xs"
    by (induction rs arbitrary: xs rule: collect_results.induct) (auto split: sum.splits)
qed simp

lemma named_peers_set [simp]: "set (named_peers as) = {p. \<exists>a \<in> set as. get_peer_id a = Some p}"
  by (force simp: named_peers_def map_filter_def)

lemma named_peers_distinct [simp]: "distinct (named_peers as)"
  by (simp add: named_peers_def)

lemma named_peers_one:
  "length (named_peers as) = 1 \<and> hd (named_peers as) = p \<longleftrightarrow> set (named_peers as) = {p}"
proof
  assume "length (named_peers as) = 1 \<and> hd (named_peers as) = p"
  then show "set (named_peers as) = {p}"
    by (cases "named_peers as") (auto simp del: named_peers_set)
next
  assume eq: "set (named_peers as) = {p}"
  have "length (named_peers as) = card (set (named_peers as))"
    using distinct_card [OF named_peers_distinct] by (rule sym)
  then have "length (named_peers as) = 1"
    using eq by simp
  moreover from this eq have "hd (named_peers as) = p"
    by (cases "named_peers as") (auto simp del: named_peers_set)
  ultimately show "length (named_peers as) = 1 \<and> hd (named_peers as) = p" ..
qed

text \<open>
  C20. A DHT record is accepted exactly when it is genuine: the authority's signature verifies
  over the record's bytes, all its addresses decode and there is at least one, the addresses
  that name a peer name exactly one peer, the attached key is the key of that peer, and its
  signature verifies over the same bytes. The result is that peer with all the addresses, in
  order.
\<close>

theorem decode_dht_record_exact:
  "decode_dht_record C R v authority_id = Inr (p, addresses) \<longleftrightarrow>
     (\<exists>payload sig raw ps key.
        decode_signed_record R v = Inr payload
        \<and> decode_signature R (sar_auth_signature payload) = Inr sig
        \<and> sr25519_verify C sig (sar_record payload) authority_id
        \<and> decode_authority_record R (sar_record payload) = Inr raw
        \<and> map (multiaddr_of_bytes R) raw = map Inr addresses \<and> addresses \<noteq> []
        \<and> set (named_peers addresses) = {p}
        \<and> sar_peer_signature payload = Some ps
        \<and> try_decode_protobuf R (ps_public_key ps) = Inr key
        \<and> to_peer_id R key = p
        \<and> key_verify R key (sar_record payload) (ps_signature ps))"
  (is "?lhs \<longleftrightarrow> ?rhs")
proof
  assume ?lhs
  then show ?rhs
    using named_peers_one [of addresses p]
    by (auto simp: decode_dht_record_def Let_def collect_results_eq_Inr simp del: named_peers_set
        split: sum.splits if_splits option.splits)
next
  assume ?rhs
  then show ?lhs
    using named_peers_one [of addresses p]
    by (auto simp: decode_dht_record_def Let_def simp del: named_peers_set)
qed

text \<open>Operations under which every signature is good and every address is one of two.\<close>

definition sample_sr25519 :: "(bytes, bytes) sr25519_ops" where
  "sample_sr25519 =
     \<lparr>signature_from_bytes = Some, public_from_bytes = Some, verify_simple = (\<lambda>_ _ _ _. True)\<rparr>"

definition sample_record_ops :: "(nat, nat, nat) record_ops" where
  "sample_record_ops =
     \<lparr>decode_signed_record = (\<lambda>bs. Inr \<lparr>sar_record = bs, sar_auth_signature = [],
        sar_peer_signature = Some \<lparr>ps_signature = [], ps_public_key = []\<rparr>\<rparr>),
      decode_signature = Inr, decode_authority_record = (\<lambda>bs. Inr (map (\<lambda>b. [b]) bs)),
      multiaddr_of_bytes = (\<lambda>bs. Inr (if bs = [0] then [Ip4 [8, 8, 8, 8]] else [Ip4 [1, 1, 1, 1], P2p 7])),
      try_decode_protobuf = (\<lambda>_. Inr 7), to_peer_id = (\<lambda>k. k), key_verify = (\<lambda>_ _ _. True)\<rparr>"

text \<open>
  Accepting a record does not mean that every address points to its peer: addresses that
  name no peer at all are let through beside one that does.
\<close>

theorem bare_address_accepted:
  "decode_dht_record sample_sr25519 sample_record_ops [0, 1] [] =
     Inr (7, [[Ip4 [8, 8, 8, 8]], [Ip4 [1, 1, 1, 1], P2p 7]])
   \<and> get_peer_id [Ip4 [8, 8, 8, 8]] = (None :: nat option)"
  by (simp add: decode_dht_record_def sample_sr25519_def sample_record_ops_def sr25519_verify_def
      named_peers_def set_extend_def map_filter_def get_peer_id_def last_protocol_def)

end
