(* ===== verification/Authority_Discovery.thy ===== *)
theory Authority_Discovery
  imports Swarm Authority_Records
begin

text \<open>
  Discovery of the authorities through the DHT (\<open>AuthorityDiscovery\<close> of
  \<open>cli/src/commands/authorities.rs\<close>): record queries for every authority, at most 128 at a
  time, random walks beside them, verification of the records found, and one dial per address
  with its outcome. Time only decides when a turn of the event loop comes and what is logged;
  the fields that hold it are left out. The iteration order of the set of remaining
  authorities and the shuffle are arguments.
\<close>

section \<open>State\<close>

type_synonym authority = bytes

definition MAX_RECORD_QUERIES :: nat where
  "MAX_RECORD_QUERIES = 128"

definition MAX_DISCOVERY_QUERIES :: nat where
  "MAX_DISCOVERY_QUERIES = 32"

datatype dial_outcome = DialSuccess | DialFailed string

record 'peer peer_details_entry =
  pde_authority_id :: authority
  pde_addresses :: "'peer multiaddr hash_set"

record ('peer, 'q, 'sw) authority_discovery =
  ad_swarm :: 'sw
  ad_queries :: "('q, authority) hash_map"
  ad_queries_discovery :: "'q hash_set"
  ad_records_keys :: "(bytes, authority) hash_map"
  ad_peer_details :: "('peer, 'peer peer_details_entry) hash_map"
  ad_peer_info :: "('peer, 'peer identify_info) hash_map"
  ad_authority_to_details :: "(authority, 'peer multiaddr hash_set) hash_map"
  ad_authorities :: "authority list"
  ad_query_index :: nat
  ad_dht_errors :: nat
  ad_remaining :: "authority hash_set"
  ad_finished_query :: bool
  ad_show_progress :: bool
  ad_dial_outcomes :: "('peer multiaddr, dial_outcome) hash_map"
  ad_dialed :: "'peer multiaddr hash_set"

text \<open>
  What the operations rest on: the swarm, the signature scheme, the record codec, the hash of
  an authority, and the two orders.
\<close>

record ('peer, 'q, 'sw, 'sig, 'pub, 'key, 'e) ad_env =
  env_swarm :: "('peer, 'q, 'sw) swarm_ops"
  env_crypto :: "('sig, 'pub) sr25519_ops"
  env_records :: "('peer, 'key, 'e) record_ops"
  env_sha2 :: "bytes \<Rightarrow> bytes"
  env_iter :: "authority list \<Rightarrow> authority list"
  env_shuffle :: "authority list \<Rightarrow> authority list"

definition authority_discovery_new ::
  "'sw \<Rightarrow> authority list \<Rightarrow> ('peer, 'q, 'sw) authority_discovery" where
  "authority_discovery_new sw authorities =
     \<lparr>ad_swarm = sw, ad_queries = [], ad_queries_discovery = [], ad_records_keys = [],
      ad_peer_details = [], ad_peer_info = [], ad_authority_to_details = [],
      ad_authorities = authorities, ad_query_index = 0, ad_dht_errors = 0,
      ad_remaining = set_extend [] authorities, ad_finished_query = False,
      ad_show_progress = False, ad_dial_outcomes = [], ad_dialed = []\<rparr>"

section \<open>Queries\<close>

definition query_dht_record ::
  "('peer, 'q, 'sw, 'sig, 'pub, 'key, 'e) ad_env \<Rightarrow> authority
     \<Rightarrow> ('peer, 'q, 'sw) authority_discovery \<Rightarrow> ('peer, 'q, 'sw) authority_discovery" where
  "query_dht_record E authority s =
     (let key = hash_authority_id (env_sha2 E) (\<lambda>k. k) authority
      in case kad_get_record (env_swarm E) key (ad_swarm s) of (i, sw) \<Rightarrow>
           s\<lparr>ad_records_keys := AList.update key authority (ad_records_keys s),
             ad_swarm := sw, ad_queries := AList.update i authority (ad_queries s)\<rparr>)"

definition query_dht_records ::
  "('peer, 'q, 'sw, 'sig, 'pub, 'key, 'e) ad_env \<Rightarrow> authority list
     \<Rightarrow> ('peer, 'q, 'sw) authority_discovery \<Rightarrow> ('peer, 'q, 'sw) authority_discovery" where
  "query_dht_records E authorities s = fold (query_dht_record E) authorities s"

definition query_random_peer ::
  "('peer, 'q, 'sw, 'sig, 'pub, 'key, 'e) ad_env
     \<Rightarrow> ('peer, 'q, 'sw) authority_discovery \<Rightarrow> ('peer, 'q, 'sw) authority_discovery" where
  "query_random_peer E s =
     (case random_peer (env_swarm E) (ad_swarm s) of (p, sw1) \<Rightarrow>
      (case kad_get_closest_peers (env_swarm E) p sw1 of (i, sw2) \<Rightarrow>
         s\<lparr>ad_swarm := sw2, ad_queries_discovery := List.insert i (ad_queries_discovery s)\<rparr>))"

definition query_peer_info ::
  "('peer, 'q, 'sw, 'sig, 'pub, 'key, 'e) ad_env
     \<Rightarrow> ('peer, 'q, 'sw) authority_discovery \<Rightarrow> ('peer, 'q, 'sw) authority_discovery" where
  "query_peer_info E s =
     (if length (ad_queries_discovery s) < MAX_DISCOVERY_QUERIES
      then (query_random_peer E ^^ (MAX_DISCOVERY_QUERIES - length (ad_queries_discovery s))) s
      else s)"

text \<open>The loop over the initial list; each turn moves the query index, so it ends.\<close>

lemma query_dht_record_list [simp]:
  "ad_authorities (query_dht_record E a s) = ad_authorities s"
  "ad_query_index (query_dht_record E a s) = ad_query_index s"
  "ad_remaining (query_dht_record E a s) = ad_remaining s"
  "ad_queries_discovery (query_dht_record E a s) = ad_queries_discovery s"
  "ad_authority_to_details (query_dht_record E a s) = ad_authority_to_details s"
  "ad_dial_outcomes (query_dht_record E a s) = ad_dial_outcomes s"
  "ad_dialed (query_dht_record E a s) = ad_dialed s"
  "ad_peer_details (query_dht_record E a s) = ad_peer_details s"
  by (simp_all add: query_dht_record_def Let_def split: prod.splits)

function advance_initial ::
  "('peer, 'q, 'sw, 'sig, 'pub, 'key, 'e) ad_env
     \<Rightarrow> ('peer, 'q, 'sw) authority_discovery \<Rightarrow> ('peer, 'q, 'sw) authority_discovery" where
  "advance_initial E s =
     (if length (ad_queries s) < MAX_RECORD_QUERIES then
        (case nth_opt (ad_authorities s) (ad_query_index s) of
           Some next_authority \<Rightarrow>
             (let s1 = query_dht_records E [next_authority] s
              in advance_initial E (s1\<lparr>ad_query_index := ad_query_index s1 + 1\<rparr>))
         | None \<Rightarrow> s)
      else s)"
  by pat_completeness auto
termination
  by (relation "measure (\<lambda>(E, s). length (ad_authorities s) - ad_query_index s)")
    (auto simp: query_dht_records_def nth_opt_def Let_def split: if_splits)

declare advance_initial.simps [simp del]

definition backfill_remaining ::
  "('peer, 'q, 'sw, 'sig, 'pub, 'key, 'e) ad_env
     \<Rightarrow> ('peer, 'q, 'sw) authority_discovery \<Rightarrow> ('peer, 'q, 'sw) authority_discovery" where
  "backfill_remaining E s =
     (if length (ad_authorities s) \<le> ad_query_index s \<and> length (ad_queries s) < MAX_RECORD_QUERIES
      then
        (let in_flight = set (values_of (ad_queries s));
             backfill = take (MAX_RECORD_QUERIES - length (ad_queries s))
               (filter (\<lambda>a. a \<notin> in_flight) (env_iter E (ad_remaining s)))
         in if backfill \<noteq> [] then query_dht_records E backfill s else s)
      else s)"

definition advance_dht_queries ::
  "('peer, 'q, 'sw, 'sig, 'pub, 'key, 'e) ad_env
     \<Rightarrow> ('peer, 'q, 'sw) authority_discovery \<Rightarrow> ('peer, 'q, 'sw) authority_discovery" where
  "advance_dht_queries E s = query_peer_info E (backfill_remaining E (advance_initial E s))"

definition resubmit_remaining_dht_queries ::
  "('peer, 'q, 'sw, 'sig, 'pub, 'key, 'e) ad_env
     \<Rightarrow> ('peer, 'q, 'sw) authority_discovery \<Rightarrow> ('peer, 'q, 'sw) authority_discovery" where
  "resubmit_remaining_dht_queries E s =
     (let s1 = s\<lparr>ad_queries := []\<rparr>;
          remaining = env_shuffle E (env_iter E (ad_remaining s1));
          s2 = query_dht_records E (take MAX_RECORD_QUERIES remaining) s1
      in if length remaining < MAX_RECORD_QUERIES then query_peer_info E s2 else s2)"

section \<open>Events\<close>

text \<open>The text of an error: its \<open>Display\<close> form, or its \<open>Debug\<close> form if that is empty.\<close>

definition error_message :: "error_text \<Rightarrow> string" where
  "error_message e = (if fst e = [] then snd e else fst e)"

definition ad_dial ::
  "('peer, 'q, 'sw) swarm_ops \<Rightarrow> 'peer multiaddr \<Rightarrow> ('peer, 'q, 'sw) authority_discovery
     \<Rightarrow> ('peer, 'q, 'sw) authority_discovery" where
  "ad_dial K addr s =
     (if addr \<in> set (ad_dialed s) then s
      else
        (let s1 = s\<lparr>ad_dialed := List.insert addr (ad_dialed s)\<rparr>
         in case sw_dial K addr (ad_swarm s1) of
              (Some e, sw) \<Rightarrow>
                s1\<lparr>ad_swarm := sw,
                   ad_dial_outcomes :=
                     AList.update addr (DialFailed (error_message e)) (ad_dial_outcomes s1)\<rparr>
            | (None, sw) \<Rightarrow> s1\<lparr>ad_swarm := sw\<rparr>))"

definition record_accepted ::
  "('peer, 'q, 'sw) swarm_ops \<Rightarrow> authority \<Rightarrow> 'peer \<Rightarrow> 'peer multiaddr list
     \<Rightarrow> ('peer, 'q, 'sw) authority_discovery \<Rightarrow> ('peer, 'q, 'sw) authority_discovery" where
  "record_accepted K authority peer_id addresses s =
     (let s1 = s\<lparr>ad_authority_to_details :=
                   map_entry authority (\<lambda>known. set_extend known addresses)
                     (set_extend [] addresses) (ad_authority_to_details s),
                 ad_peer_details :=
                   map_entry peer_id
                     (\<lambda>d. d\<lparr>pde_addresses := set_extend (pde_addresses d) addresses\<rparr>)
                     \<lparr>pde_authority_id = authority, pde_addresses = set_extend [] addresses\<rparr>
                     (ad_peer_details s)\<rparr>;
          s2 = s1\<lparr>ad_swarm := fold (kad_add_address K peer_id) addresses (ad_swarm s1)\<rparr>;
          s3 = fold (ad_dial K) addresses s2
      in s3\<lparr>ad_remaining := set_remove authority (ad_remaining s3)\<rparr>)"

definition on_get_record ::
  "('peer, 'q, 'sw, 'sig, 'pub, 'key, 'e) ad_env \<Rightarrow> 'q \<Rightarrow> 'peer query_result
     \<Rightarrow> ('peer, 'q, 'sw) authority_discovery \<Rightarrow> ('peer, 'q, 'sw) authority_discovery" where
  "on_get_record E i result s =
     (let s1 = s\<lparr>ad_queries := map_remove i (ad_queries s)\<rparr>
      in case result of
           FoundRecord key v \<Rightarrow>
             (case map_of (ad_records_keys s1) key of
                None \<Rightarrow> advance_dht_queries E s1
              | Some authority \<Rightarrow>
                  (case decode_dht_record (env_crypto E) (env_records E) v authority of
                     Inl _ \<Rightarrow>
                       advance_dht_queries E (s1\<lparr>ad_dht_errors := ad_dht_errors s1 + 1\<rparr>)
                   | Inr (peer_id, addresses) \<Rightarrow>
                       advance_dht_queries E
                         (record_accepted (env_swarm E) authority peer_id addresses s1)))
         | _ \<Rightarrow> advance_dht_queries E s1)"

definition set_outcome ::
  "'peer multiaddr \<Rightarrow> dial_outcome \<Rightarrow> ('peer, 'q, 'sw) authority_discovery
     \<Rightarrow> ('peer, 'q, 'sw) authority_discovery" where
  "set_outcome addr outcome s =
     (if addr \<in> set (ad_dialed s)
      then s\<lparr>ad_dial_outcomes := AList.update addr outcome (ad_dial_outcomes s)\<rparr> else s)"

definition on_dial_error ::
  "'peer dial_error \<Rightarrow> ('peer, 'q, 'sw) authority_discovery
     \<Rightarrow> ('peer, 'q, 'sw) authority_discovery" where
  "on_dial_error err s =
     (case err of
        TransportError attempts \<Rightarrow>
          fold (\<lambda>(addr, e). set_outcome addr (DialFailed (''transport: '' @ error_message e)))
            attempts s
      | WrongPeerId obtained address \<Rightarrow>
          set_outcome address (DialFailed (''wrong peer ID: '' @ obtained)) s
      | LocalPeerId address \<Rightarrow> set_outcome address (DialFailed ''dialed local peer ID'') s
      | OtherDialError \<Rightarrow> s)"

text \<open>\<open>GetRecord\<close> results carry records, ends and errors; the others are closest peers.\<close>

definition handle_swarm ::
  "('peer, 'q, 'sw, 'sig, 'pub, 'key, 'e) ad_env \<Rightarrow> ('peer, 'q) swarm_event
     \<Rightarrow> ('peer, 'q, 'sw) authority_discovery \<Rightarrow> ('peer, 'q, 'sw) authority_discovery" where
  "handle_swarm E event s =
     (case event of
        DiscoveryEvent (OutboundQueryProgressed i result) \<Rightarrow>
          (case result of
             FoundRecord _ _ \<Rightarrow> on_get_record E i result s
           | FinishedWithNoAdditionalRecord \<Rightarrow> on_get_record E i result s
           | GetRecordError \<Rightarrow> on_get_record E i result s
           | GetClosestPeersOk _ \<Rightarrow>
               query_peer_info E
                 (s\<lparr>ad_queries_discovery := set_remove i (ad_queries_discovery s)\<rparr>)
           | GetClosestPeersTimeout _ \<Rightarrow>
               query_peer_info E
                 (s\<lparr>ad_queries_discovery := set_remove i (ad_queries_discovery s)\<rparr>)
           | OtherQueryResult \<Rightarrow> s)
      | Identified peer_id info \<Rightarrow>
          s\<lparr>ad_peer_info := AList.update peer_id info (ad_peer_info s)\<rparr>
      | ConnectionUp peer_id (Some address) \<Rightarrow> set_outcome address DialSuccess s
      | OutgoingConnectionError err \<Rightarrow> on_dial_error err s
      | _ \<Rightarrow> s)"

definition set_show_progress ::
  "bool \<Rightarrow> ('peer, 'q, 'sw) authority_discovery \<Rightarrow> ('peer, 'q, 'sw) authority_discovery" where
  "set_show_progress b s = s\<lparr>ad_show_progress := b\<rparr>"

text \<open>
  The event loop: \<open>discover\<close> advances the queries once, then takes turns until the exit timer
  fires.
\<close>

datatype ('peer, 'q) ad_turn =
  AdSwarm "('peer, 'q) swarm_event" | AdResubmit | AdProgress | AdExit

fun ad_loop ::
  "('peer, 'q, 'sw, 'sig, 'pub, 'key, 'e) ad_env \<Rightarrow> ('peer, 'q) ad_turn list
     \<Rightarrow> ('peer, 'q, 'sw) authority_discovery \<Rightarrow> ('peer, 'q, 'sw) authority_discovery" where
  "ad_loop E [] s = s"
| "ad_loop E (AdSwarm event # ts) s = ad_loop E ts (handle_swarm E event s)"
| "ad_loop E (AdResubmit # ts) s = ad_loop E ts (resubmit_remaining_dht_queries E s)"
| "ad_loop E (AdProgress # ts) s = ad_loop E ts s"
| "ad_loop E (AdExit # ts) s = s"

definition discover ::
  "('peer, 'q, 'sw, 'sig, 'pub, 'key, 'e) ad_env \<Rightarrow> ('peer, 'q) ad_turn list
     \<Rightarrow> ('peer, 'q, 'sw) authority_discovery \<Rightarrow> ('peer, 'q, 'sw) authority_discovery" where
  "discover E turns s = ad_loop E turns (advance_dht_queries E s)"

definition into_results ::
  "('peer, 'q, 'sw) authority_discovery
     \<Rightarrow> (authority, 'peer multiaddr hash_set) hash_map \<times> ('peer, 'peer identify_info) hash_map
        \<times> ('peer multiaddr, dial_outcome) hash_map" where
  "into_results s = (ad_authority_to_details s, ad_peer_info s, ad_dial_outcomes s)"

section \<open>Invariant\<close>

text \<open>
  The facts about the maps. An address is vouched for when it is one of the addresses of a
  record that \<open>decode_dht_record\<close> accepts for its authority.
\<close>

definition vouched ::
  "('peer, 'q, 'sw, 'sig, 'pub, 'key, 'e) ad_env \<Rightarrow> authority \<Rightarrow> 'peer multiaddr \<Rightarrow> bool" where
  "vouched E authority a \<longleftrightarrow>
     (\<exists>v p addresses. decode_dht_record (env_crypto E) (env_records E) v authority = Inr (p, addresses)
        \<and> a \<in> set addresses)"

definition addresses_in :: "(authority, 'peer multiaddr hash_set) hash_map \<Rightarrow> 'peer multiaddr set" where
  "addresses_in m = \<Union> (set ` snd ` set m)"

definition ad_maps_ok ::
  "('peer, 'q, 'sw, 'sig, 'pub, 'key, 'e) ad_env \<Rightarrow> ('peer, 'q, 'sw) authority_discovery \<Rightarrow> bool" where
  "ad_maps_ok E s \<longleftrightarrow>
     wf_map (ad_authority_to_details s)
     \<and> set (ad_remaining s) = set (ad_authorities s) - fst ` set (ad_authority_to_details s)
     \<and> fst ` set (ad_authority_to_details s) \<subseteq> set (ad_authorities s)
     \<and> snd ` set (ad_records_keys s) \<subseteq> set (ad_authorities s)
     \<and> snd ` set (ad_queries s) \<subseteq> set (ad_authorities s)
     \<and> fst ` set (ad_dial_outcomes s) \<subseteq> addresses_in (ad_authority_to_details s)
     \<and> set (ad_dialed s) = addresses_in (ad_authority_to_details s)
     \<and> (\<forall>(authority, as) \<in> set (ad_authority_to_details s). \<forall>a \<in> set as. vouched E authority a)"

lemma snd_update_subset: "snd ` set (AList.update k v m) \<subseteq> insert v (snd ` set m)"
  by (induction m) auto

lemma snd_delete_subset: "snd ` set (AList.delete k m) \<subseteq> snd ` set m"
  by (auto simp: AList.delete_eq)

lemma maps_query_record:
  assumes "ad_maps_ok E s" and "a \<in> set (ad_authorities s)"
  shows "ad_maps_ok E (query_dht_record E a s)"
proof -
  obtain i sw where g: "kad_get_record (env_swarm E) (env_sha2 E a) (ad_swarm s) = (i, sw)"
    by (metis surj_pair)
  let ?s = "query_dht_record E a s"
  have "snd ` set (ad_records_keys ?s) \<subseteq> insert a (snd ` set (ad_records_keys s))"
    "snd ` set (ad_queries ?s) \<subseteq> insert a (snd ` set (ad_queries s))"
    using g snd_update_subset
    by (simp_all add: query_dht_record_def hash_authority_id_def Let_def)
  moreover have "insert a (snd ` set (ad_records_keys s)) \<subseteq> set (ad_authorities s)"
    "insert a (snd ` set (ad_queries s)) \<subseteq> set (ad_authorities s)"
    using assms by (simp_all add: ad_maps_ok_def)
  ultimately have "snd ` set (ad_records_keys ?s) \<subseteq> set (ad_authorities s)"
    "snd ` set (ad_queries ?s) \<subseteq> set (ad_authorities s)"
    by blast+
  with assms(1) show ?thesis
    by (simp add: ad_maps_ok_def)
qed

lemma query_records_list [simp]:
  "ad_authorities (query_dht_records E as s) = ad_authorities s"
  "ad_query_index (query_dht_records E as s) = ad_query_index s"
  "ad_remaining (query_dht_records E as s) = ad_remaining s"
  "ad_queries_discovery (query_dht_records E as s) = ad_queries_discovery s"
  "ad_authority_to_details (query_dht_records E as s) = ad_authority_to_details s"
  by (induction as arbitrary: s) (simp_all add: query_dht_records_def)

lemma maps_query_records:
  "ad_maps_ok E s \<Longrightarrow> set as \<subseteq> set (ad_authorities s) \<Longrightarrow> ad_maps_ok E (query_dht_records E as s)"
  by (induction as arbitrary: s) (simp_all add: query_dht_records_def maps_query_record)

text \<open>Everything \<open>query_peer_info\<close> leaves alone.\<close>

definition ad_rest ::
  "('peer, 'q, 'sw) authority_discovery
     \<Rightarrow> ('q, authority) hash_map \<times> (bytes, authority) hash_map
       \<times> (authority, 'peer multiaddr hash_set) hash_map \<times> authority list \<times> nat \<times> authority list
       \<times> ('peer multiaddr, dial_outcome) hash_map \<times> 'peer multiaddr list" where
  "ad_rest s =
     (ad_queries s, ad_records_keys s, ad_authority_to_details s, ad_authorities s,
      ad_query_index s, ad_remaining s, ad_dial_outcomes s, ad_dialed s)"

lemma maps_ok_rest: "ad_rest s = ad_rest t \<Longrightarrow> ad_maps_ok E s = ad_maps_ok E t"
  by (simp add: ad_rest_def ad_maps_ok_def)

lemma random_peers_rest: "ad_rest ((query_random_peer E ^^ n) s) = ad_rest s"
  by (induction n) (simp_all add: query_random_peer_def ad_rest_def split: prod.splits)

lemma query_peer_info_rest: "ad_rest (query_peer_info E s) = ad_rest s"
  by (simp add: query_peer_info_def random_peers_rest)

lemma maps_query_peer_info [simp]: "ad_maps_ok E (query_peer_info E s) = ad_maps_ok E s"
  using maps_ok_rest [OF query_peer_info_rest] .

lemma maps_advance_initial: "ad_maps_ok E s \<Longrightarrow> ad_maps_ok E (advance_initial E s)"
proof (induction E s rule: advance_initial.induct)
  case (1 E s)
  show ?case
  proof (cases "length (ad_queries s) < MAX_RECORD_QUERIES")
    case True
    show ?thesis
    proof (cases "nth_opt (ad_authorities s) (ad_query_index s)")
      case (Some a)
      then have "a \<in> set (ad_authorities s)"
        by (auto simp: nth_opt_eq_Some_iff)
      with 1(2) have "ad_maps_ok E (query_dht_records E [a] s)"
        by (simp add: maps_query_records)
      then have "ad_maps_ok E ((query_dht_records E [a] s)\<lparr>ad_query_index :=
          ad_query_index (query_dht_records E [a] s) + 1\<rparr>)"
        by (simp add: ad_maps_ok_def)
      with 1(1) [OF True Some refl] True Some show ?thesis
        by (simp add: advance_initial.simps [of E s] Let_def)
    qed (use 1(2) in \<open>simp add: advance_initial.simps\<close>)
  qed (use 1(2) in \<open>simp add: advance_initial.simps\<close>)
qed

lemma maps_backfill:
  assumes "permuting (env_iter E)" and "ad_maps_ok E s"
  shows "ad_maps_ok E (backfill_remaining E s)"
proof -
  have "set (env_iter E (ad_remaining s)) \<subseteq> set (ad_authorities s)"
    using assms by (auto simp: permuting_set ad_maps_ok_def)
  then have "set (take n (filter P (env_iter E (ad_remaining s)))) \<subseteq> set (ad_authorities s)" for n P
    by (meson filter_is_subset order_trans set_take_subset)
  with assms(2) show ?thesis
    by (simp add: backfill_remaining_def Let_def maps_query_records)
qed

lemma maps_advance:
  "permuting (env_iter E) \<Longrightarrow> ad_maps_ok E s \<Longrightarrow> ad_maps_ok E (advance_dht_queries E s)"
  by (simp add: advance_dht_queries_def maps_backfill maps_advance_initial)

lemma maps_resubmit:
  assumes "permuting (env_iter E)" and "permuting (env_shuffle E)" and "ad_maps_ok E s"
  shows "ad_maps_ok E (resubmit_remaining_dht_queries E s)"
proof -
  let ?s1 = "s\<lparr>ad_queries := []\<rparr>"
  have "set (env_shuffle E (env_iter E (ad_remaining s))) \<subseteq> set (ad_authorities s)"
    using assms by (auto simp: permuting_set ad_maps_ok_def)
  then have "set (take n (env_shuffle E (env_iter E (ad_remaining s)))) \<subseteq> set (ad_authorities s)" for n
    by (meson order_trans set_take_subset)
  moreover have "ad_maps_ok E ?s1"
    using assms(3) by (simp add: ad_maps_ok_def)
  ultimately have "ad_maps_ok E (query_dht_records E
      (take MAX_RECORD_QUERIES (env_shuffle E (env_iter E (ad_remaining s)))) ?s1)"
    by (simp add: maps_query_records)
  then show ?thesis
    by (simp add: resubmit_remaining_dht_queries_def Let_def del: take_all take_all_iff)
qed

lemma dial_rest:
  "ad_authority_to_details (ad_dial K a s) = ad_authority_to_details s"
  "ad_remaining (ad_dial K a s) = ad_remaining s"
  "ad_authorities (ad_dial K a s) = ad_authorities s"
  "ad_records_keys (ad_dial K a s) = ad_records_keys s"
  "ad_queries (ad_dial K a s) = ad_queries s"
  "ad_queries_discovery (ad_dial K a s) = ad_queries_discovery s"
  "set (ad_dialed (ad_dial K a s)) = insert a (set (ad_dialed s))"
  "fst ` set (ad_dial_outcomes (ad_dial K a s)) \<subseteq> insert a (fst ` set (ad_dial_outcomes s))"
  by (auto simp: ad_dial_def Let_def keys_update split: prod.splits option.splits)

lemma dials_rest:
  "ad_authority_to_details (fold (ad_dial K) as s) = ad_authority_to_details s"
  "ad_remaining (fold (ad_dial K) as s) = ad_remaining s"
  "ad_authorities (fold (ad_dial K) as s) = ad_authorities s"
  "ad_records_keys (fold (ad_dial K) as s) = ad_records_keys s"
  "ad_queries (fold (ad_dial K) as s) = ad_queries s"
  "ad_queries_discovery (fold (ad_dial K) as s) = ad_queries_discovery s"
  "set (ad_dialed (fold (ad_dial K) as s)) = set (ad_dialed s) \<union> set as"
  by (induction as arbitrary: s) (simp_all add: dial_rest)

lemma dials_outcomes:
  "fst ` set (ad_dial_outcomes (fold (ad_dial K) as s)) \<subseteq> fst ` set (ad_dial_outcomes s) \<union> set as"
proof (induction as arbitrary: s)
  case (Cons a as)
  from Cons.IH [of "ad_dial K a s"] dial_rest(8) [of K a s]
  have "fst ` set (ad_dial_outcomes (fold (ad_dial K) as (ad_dial K a s)))
      \<subseteq> insert a (fst ` set (ad_dial_outcomes s)) \<union> set as"
    by (meson Un_mono dual_order.trans order_refl)
  then show ?case by simp
qed simp

lemma set_update_wf:
  "wf_map m \<Longrightarrow> set (AList.update k v m) = insert (k, v) {x \<in> set m. fst x \<noteq> k}"
  by (induction m) (auto simp: rev_image_eqI)

lemma set_map_entry:
  "wf_map m \<Longrightarrow> set (map_entry k f v m) =
     insert (k, case map_of m k of None \<Rightarrow> v | Some old \<Rightarrow> f old) {x \<in> set m. fst x \<noteq> k}"
  by (simp add: map_entry_def set_update_wf)

lemma addresses_in_entry:
  assumes "wf_map m"
  shows "addresses_in (map_entry k (\<lambda>known. set_extend known as) (set_extend [] as) m)
    = addresses_in m \<union> set as"
proof -
  define rest where "rest = {x \<in> set m. fst x \<noteq> k}"
  show ?thesis
  proof (cases "map_of m k")
    case None
    then have "set m = rest"
      by (force simp: rest_def map_of_eq_None_keys)
    with None assms show ?thesis
      by (auto simp: addresses_in_def set_map_entry simp flip: rest_def)
  next
    case (Some old)
    have "(k, old) \<in> set m"
      using Some by (rule map_of_SomeD)
    moreover have uniq: "\<And>x. x \<in> set m \<Longrightarrow> fst x = k \<Longrightarrow> x = (k, old)"
      using map_of_is_SomeI [OF assms] Some by fastforce
    ultimately have m: "set m = insert (k, old) rest"
      unfolding rest_def using uniq by blast
    have "set (map_entry k (\<lambda>known. set_extend known as) (set_extend [] as) m)
        = insert (k, set_extend old as) rest"
      using Some by (simp add: set_map_entry [OF assms] rest_def)
    then show ?thesis
      by (auto simp: addresses_in_def m)
  qed
qed

lemma maps_record_accepted:
  assumes ok: "ad_maps_ok E s" and auth: "authority \<in> set (ad_authorities s)"
    and dec: "decode_dht_record (env_crypto E) (env_records E) v authority = Inr (p, addresses)"
  shows "ad_maps_ok E (record_accepted K authority p addresses s)"
proof -
  let ?t = "record_accepted K authority p addresses s"
  let ?m = "ad_authority_to_details s"
  let ?m' = "map_entry authority (\<lambda>known. set_extend known addresses) (set_extend [] addresses) ?m"
  have wf: "wf_map ?m"
    using ok by (simp add: ad_maps_ok_def)
  have details: "ad_authority_to_details ?t = ?m'"
    and rem: "ad_remaining ?t = set_remove authority (ad_remaining s)"
    and others: "ad_authorities ?t = ad_authorities s" "ad_records_keys ?t = ad_records_keys s"
      "ad_queries ?t = ad_queries s"
    and dialed: "set (ad_dialed ?t) = set (ad_dialed s) \<union> set addresses"
    by (simp_all add: record_accepted_def Let_def dials_rest)
  have "fst ` set (ad_dial_outcomes ?t) \<subseteq> fst ` set (ad_dial_outcomes s) \<union> set addresses"
    using dials_outcomes [of K addresses] by (simp add: record_accepted_def Let_def dials_outcomes
        order_trans [OF dials_outcomes])
  moreover have "fst ` set (ad_dial_outcomes s) \<subseteq> addresses_in ?m"
    using ok by (simp add: ad_maps_ok_def)
  ultimately have outcomes: "fst ` set (ad_dial_outcomes ?t) \<subseteq> addresses_in ?m \<union> set addresses"
    by blast
  have vouched: "\<forall>(a, as) \<in> set ?m'. \<forall>x \<in> set as. vouched E a x"
  proof -
    have old: "\<forall>(a, as) \<in> set ?m. \<forall>x \<in> set as. vouched E a x"
      using ok by (simp add: ad_maps_ok_def)
    have "vouched E authority x" if "x \<in> set addresses" for x
      using dec that by (auto simp: vouched_def)
    moreover have "vouched E authority x" if "map_of ?m authority = Some as" "x \<in> set as" for as x
      using old map_of_SomeD [OF that(1)] that(2) by fast
    ultimately show ?thesis
      using old wf by (auto simp: set_map_entry split: option.splits)
  qed
  show ?thesis
    unfolding ad_maps_ok_def details rem others
    using ok auth outcomes vouched dialed wf
    by (auto simp: ad_maps_ok_def addresses_in_entry keys_map_entry)
qed

lemma maps_set_outcome: "ad_maps_ok E s \<Longrightarrow> ad_maps_ok E (set_outcome a out s)"
  by (simp add: set_outcome_def ad_maps_ok_def keys_update)

lemma maps_on_dial_error: "ad_maps_ok E s \<Longrightarrow> ad_maps_ok E (on_dial_error err s)"
proof -
  assume ok: "ad_maps_ok E s"
  have "ad_maps_ok E (fold (\<lambda>(addr, e).
      set_outcome addr (DialFailed (''transport: '' @ error_message e))) attempts s)" for attempts
    using ok by (induction attempts arbitrary: s) (auto simp: maps_set_outcome split: prod.splits)
  with ok show ?thesis
    by (simp add: on_dial_error_def maps_set_outcome split: dial_error.splits)
qed

lemma maps_other [simp]:
  "ad_maps_ok E (s\<lparr>ad_queries_discovery := qs\<rparr>) = ad_maps_ok E s"
  "ad_maps_ok E (s\<lparr>ad_peer_info := pi\<rparr>) = ad_maps_ok E s"
  "ad_maps_ok E (s\<lparr>ad_dht_errors := n\<rparr>) = ad_maps_ok E s"
  by (simp_all add: ad_maps_ok_def)

lemma maps_remove_query:
  assumes "ad_maps_ok E s"
  shows "ad_maps_ok E (s\<lparr>ad_queries := map_remove i (ad_queries s)\<rparr>)"
proof -
  have "snd ` set (map_remove i (ad_queries s)) \<subseteq> set (ad_authorities s)"
    using assms by (intro order_trans [OF snd_delete_subset]) (simp add: ad_maps_ok_def)
  with assms show ?thesis by (simp add: ad_maps_ok_def)
qed

lemma maps_on_get_record:
  assumes "permuting (env_iter E)" and "ad_maps_ok E s"
  shows "ad_maps_ok E (on_get_record E i result s)"
proof -
  let ?s1 = "s\<lparr>ad_queries := map_remove i (ad_queries s)\<rparr>"
  have s1: "ad_maps_ok E ?s1"
    using assms(2) by (rule maps_remove_query)
  have accepted: "ad_maps_ok E (record_accepted (env_swarm E) a p as ?s1)"
    if "map_of (ad_records_keys s) k = Some a"
      "decode_dht_record (env_crypto E) (env_records E) v a = Inr (p, as)" for k a v p as
  proof (rule maps_record_accepted [OF s1 _ that(2)])
    have "a \<in> snd ` set (ad_records_keys s)"
      using map_of_SomeD [OF that(1)] by (rule image_eqI [rotated]) simp
    moreover have "snd ` set (ad_records_keys s) \<subseteq> set (ad_authorities s)"
      using assms(2) by (simp add: ad_maps_ok_def)
    ultimately show "a \<in> set (ad_authorities ?s1)" by auto
  qed
  show ?thesis
  proof (cases result)
    case (FoundRecord k v)
    show ?thesis
    proof (cases "map_of (ad_records_keys s) k")
      case (Some a)
      show ?thesis
      proof (cases "decode_dht_record (env_crypto E) (env_records E) v a")
        case (Inr x)
        obtain p as where "x = (p, as)" by (cases x)
        with FoundRecord Some Inr maps_advance [OF assms(1) accepted] show ?thesis
          by (simp add: on_get_record_def Let_def)
      qed (use FoundRecord Some s1 in
          \<open>simp add: on_get_record_def Let_def maps_advance [OF assms(1)]\<close>)
    qed (use FoundRecord s1 in \<open>simp add: on_get_record_def Let_def maps_advance [OF assms(1)]\<close>)
  qed (use s1 in \<open>simp_all add: on_get_record_def Let_def maps_advance [OF assms(1)]\<close>)
qed

lemma maps_handle_swarm:
  assumes "permuting (env_iter E)" and "ad_maps_ok E s"
  shows "ad_maps_ok E (handle_swarm E ev s)"
  using assms maps_on_get_record [OF assms]
  by (auto simp: handle_swarm_def maps_set_outcome maps_on_dial_error
      split: swarm_event.splits kademlia_event.splits query_result.splits option.splits)

lemma maps_loop:
  assumes "permuting (env_iter E)" and "permuting (env_shuffle E)"
  shows "ad_maps_ok E s \<Longrightarrow> ad_maps_ok E (ad_loop E ts s)"
proof (induction ts arbitrary: s)
  case (Cons t ts)
  then show ?case
    using assms by (cases t) (simp_all add: maps_handle_swarm maps_resubmit)
qed simp

section \<open>Bounds on what is in flight\<close>

definition ad_bounded :: "('peer, 'q, 'sw) authority_discovery \<Rightarrow> bool" where
  "ad_bounded s \<longleftrightarrow>
     length (ad_queries s) \<le> MAX_RECORD_QUERIES
     \<and> length (ad_queries_discovery s) \<le> MAX_DISCOVERY_QUERIES"

lemma query_records_length:
  "length (ad_queries (query_dht_records E as s)) \<le> length (ad_queries s) + length as"
proof (induction as arbitrary: s)
  case (Cons a as)
  have "length (ad_queries (query_dht_record E a s)) \<le> Suc (length (ad_queries s))"
    by (simp add: query_dht_record_def Let_def length_update_le split: prod.splits)
  with Cons [of "query_dht_record E a s"] show ?case
    by (simp add: query_dht_records_def)
qed (simp add: query_dht_records_def)

lemma random_peer_length:
  "length (ad_queries_discovery (query_random_peer E s)) \<le> Suc (length (ad_queries_discovery s))"
  by (simp add: query_random_peer_def length_set_insert split: prod.splits)

lemma random_peers_length:
  "length (ad_queries_discovery ((query_random_peer E ^^ n) s)) \<le> length (ad_queries_discovery s) + n"
proof (induction n)
  case (Suc n)
  with random_peer_length [of E "(query_random_peer E ^^ n) s"] show ?case by simp
qed simp

lemma bounded_peer_info: "ad_bounded s \<Longrightarrow> ad_bounded (query_peer_info E s)"
  using query_peer_info_rest [of E s]
    random_peers_length [where E = E and s = s
      and n = "MAX_DISCOVERY_QUERIES - length (ad_queries_discovery s)"]
  by (auto simp: ad_bounded_def ad_rest_def query_peer_info_def)

lemma bounded_advance_initial: "ad_bounded s \<Longrightarrow> ad_bounded (advance_initial E s)"
proof (induction E s rule: advance_initial.induct)
  case (1 E s)
  show ?case
  proof (cases "length (ad_queries s) < MAX_RECORD_QUERIES
      \<and> ad_query_index s < length (ad_authorities s)")
    case True
    let ?a = "ad_authorities s ! ad_query_index s"
    have "ad_bounded ((query_dht_records E [?a] s)\<lparr>ad_query_index :=
        ad_query_index (query_dht_records E [?a] s) + 1\<rparr>)"
      using 1(2) True query_records_length [of E "[?a]" s] by (simp add: ad_bounded_def)
    with 1(1) [of ?a, OF _ _ refl] True show ?thesis
      by (simp add: advance_initial.simps [of E s] Let_def)
  next
    case False
    with 1(2) show ?thesis
      by (auto simp: advance_initial.simps [of E s] nth_opt_def)
  qed
qed

lemma bounded_backfill: "ad_bounded s \<Longrightarrow> ad_bounded (backfill_remaining E s)"
proof -
  assume b: "ad_bounded s"
  have "ad_bounded (query_dht_records E (take (MAX_RECORD_QUERIES - length (ad_queries s)) xs) s)" for xs
    using b query_records_length [of E "take (MAX_RECORD_QUERIES - length (ad_queries s)) xs" s]
    by (auto simp: ad_bounded_def)
  with b show ?thesis by (simp add: backfill_remaining_def Let_def)
qed

lemma bounded_advance: "ad_bounded s \<Longrightarrow> ad_bounded (advance_dht_queries E s)"
  by (simp add: advance_dht_queries_def bounded_peer_info bounded_backfill bounded_advance_initial)

lemma bounded_resubmit: "ad_bounded s \<Longrightarrow> ad_bounded (resubmit_remaining_dht_queries E s)"
proof -
  assume b: "ad_bounded s"
  have "ad_bounded (query_dht_records E (take MAX_RECORD_QUERIES xs) (s\<lparr>ad_queries := []\<rparr>))" for xs
    using b query_records_length [of E "take MAX_RECORD_QUERIES xs" "s\<lparr>ad_queries := []\<rparr>"]
    by (simp add: ad_bounded_def)
  then show ?thesis
    by (simp add: resubmit_remaining_dht_queries_def Let_def bounded_peer_info del: take_all take_all_iff)
qed

lemma bounded_get_record: "ad_bounded s \<Longrightarrow> ad_bounded (on_get_record E i result s)"
proof -
  assume b: "ad_bounded s"
  let ?s1 = "s\<lparr>ad_queries := map_remove i (ad_queries s)\<rparr>"
  have s1: "ad_bounded ?s1"
    using b length_map_remove_le [of i "ad_queries s"] by (simp add: ad_bounded_def)
  then have "ad_bounded (?s1\<lparr>ad_dht_errors := n\<rparr>)"
    "ad_bounded (record_accepted K a p as ?s1)" for n K a p as
    by (simp_all add: ad_bounded_def record_accepted_def Let_def dials_rest)
  with s1 show ?thesis
    by (simp add: on_get_record_def Let_def bounded_advance
        split: query_result.splits option.splits sum.splits prod.splits)
qed

lemma set_outcome_queries [simp]:
  "ad_queries (set_outcome a out s) = ad_queries s"
  "ad_queries_discovery (set_outcome a out s) = ad_queries_discovery s"
  "ad_remaining (set_outcome a out s) = ad_remaining s"
  "ad_swarm (set_outcome a out s) = ad_swarm s"
  by (simp_all add: set_outcome_def)

lemma on_dial_error_queries [simp]:
  "ad_queries (on_dial_error err s) = ad_queries s"
  "ad_queries_discovery (on_dial_error err s) = ad_queries_discovery s"
  "ad_remaining (on_dial_error err s) = ad_remaining s"
  "ad_swarm (on_dial_error err s) = ad_swarm s"
proof -
  let ?out = "\<lambda>(addr, e). set_outcome addr (DialFailed (''transport: '' @ error_message e))"
  have "ad_queries (fold ?out as s) = ad_queries s
      \<and> ad_queries_discovery (fold ?out as s) = ad_queries_discovery s
      \<and> ad_remaining (fold ?out as s) = ad_remaining s \<and> ad_swarm (fold ?out as s) = ad_swarm s" for as
    by (induction as arbitrary: s) auto
  then show "ad_queries (on_dial_error err s) = ad_queries s"
    "ad_queries_discovery (on_dial_error err s) = ad_queries_discovery s"
    "ad_remaining (on_dial_error err s) = ad_remaining s"
    "ad_swarm (on_dial_error err s) = ad_swarm s"
    unfolding on_dial_error_def by (simp_all split: dial_error.splits)
qed

lemma bounded_discovery_removed:
  "ad_bounded s \<Longrightarrow>
     ad_bounded (s\<lparr>ad_queries_discovery := set_remove i (ad_queries_discovery s)\<rparr>)"
  using le_trans [OF length_filter_le [of "(\<noteq>) i" "ad_queries_discovery s"]]
  by (simp add: ad_bounded_def removeAll_filter_not_eq)

lemma bounded_handle: "ad_bounded s \<Longrightarrow> ad_bounded (handle_swarm E ev s)"
proof -
  assume b: "ad_bounded s"
  have same: "ad_bounded t" if "ad_queries t = ad_queries s"
    "ad_queries_discovery t = ad_queries_discovery s" for t
    using b that by (simp add: ad_bounded_def)
  show ?thesis
    by (auto simp: handle_swarm_def b same bounded_get_record bounded_peer_info
        bounded_discovery_removed
        split: swarm_event.splits kademlia_event.splits query_result.splits option.splits)
qed

lemma bounded_loop: "ad_bounded s \<Longrightarrow> ad_bounded (ad_loop E ts s)"
proof (induction ts arbitrary: s)
  case (Cons t ts)
  then show ?case by (cases t) (simp_all add: bounded_handle bounded_resubmit)
qed simp

text \<open>
  At most 128 record queries and at most 32 random walks are in flight, in every state of
  the discovery, whatever Kademlia and the network do, and for any list of authorities.
\<close>

theorem authority_queries_bounded:
  "length (ad_queries (discover E turns (authority_discovery_new sw authorities))) \<le> 128
   \<and> length (ad_queries_discovery (discover E turns (authority_discovery_new sw authorities))) \<le> 32"
proof -
  have "ad_bounded (discover E turns (authority_discovery_new sw authorities))"
    unfolding discover_def
    by (intro bounded_loop bounded_advance) (simp add: ad_bounded_def authority_discovery_new_def)
  then show ?thesis
    by (simp add: ad_bounded_def MAX_RECORD_QUERIES_def MAX_DISCOVERY_QUERIES_def)
qed

section \<open>Soundness of the results\<close>

text \<open>The initial list of authorities never changes.\<close>

lemma authorities_peer_info [simp]: "ad_authorities (query_peer_info E s) = ad_authorities s"
  using query_peer_info_rest [of E s] by (simp add: ad_rest_def)

lemma authorities_advance_initial [simp]: "ad_authorities (advance_initial E s) = ad_authorities s"
proof (induction E s rule: advance_initial.induct)
  case (1 E s)
  then show ?case
    by (subst advance_initial.simps) (auto simp: Let_def split: option.splits)
qed

lemma details_advance_initial [simp]:
  "ad_authority_to_details (advance_initial E s) = ad_authority_to_details s"
proof (induction E s rule: advance_initial.induct)
  case (1 E s)
  then show ?case
    by (subst advance_initial.simps) (auto simp: Let_def split: option.splits)
qed

lemma details_advance [simp]:
  "ad_authority_to_details (advance_dht_queries E s) = ad_authority_to_details s"
proof -
  have "ad_authority_to_details (query_peer_info E t) = ad_authority_to_details t" for t
    using query_peer_info_rest [of E t] by (simp add: ad_rest_def)
  then show ?thesis
    by (simp add: advance_dht_queries_def backfill_remaining_def Let_def)
qed

lemma authorities_advance [simp]: "ad_authorities (advance_dht_queries E s) = ad_authorities s"
  by (simp add: advance_dht_queries_def backfill_remaining_def Let_def)

lemma authorities_resubmit [simp]:
  "ad_authorities (resubmit_remaining_dht_queries E s) = ad_authorities s"
  by (simp add: resubmit_remaining_dht_queries_def Let_def)

lemma authorities_get_record [simp]: "ad_authorities (on_get_record E i r s) = ad_authorities s"
  by (simp add: on_get_record_def record_accepted_def Let_def dials_rest
      split: query_result.splits option.splits sum.splits prod.splits)

lemma authorities_outcome [simp]: "ad_authorities (set_outcome a out s) = ad_authorities s"
  by (simp add: set_outcome_def)

lemma authorities_dial_error [simp]: "ad_authorities (on_dial_error err s) = ad_authorities s"
proof -
  have "ad_authorities (fold (\<lambda>(addr, e). set_outcome addr (f e)) as s) = ad_authorities s"
    for f :: "error_text \<Rightarrow> dial_outcome" and as
    by (induction as arbitrary: s) auto
  then show ?thesis by (simp add: on_dial_error_def split: dial_error.splits)
qed

lemma authorities_handle [simp]: "ad_authorities (handle_swarm E ev s) = ad_authorities s"
  by (auto simp: handle_swarm_def
      split: swarm_event.splits kademlia_event.splits query_result.splits option.splits)

lemma authorities_loop [simp]: "ad_authorities (ad_loop E ts s) = ad_authorities s"
proof (induction ts arbitrary: s)
  case (Cons t ts)
  then show ?case by (cases t) simp_all
qed simp

lemma wf_map_keys_length:
  assumes "wf_map m" and "fst ` set m \<subseteq> set xs"
  shows "length m \<le> length xs"
proof -
  have "length m = card (fst ` set m)"
    using distinct_card [OF assms(1)] by simp
  also have "\<dots> \<le> card (set xs)"
    using assms(2) by (simp add: card_mono)
  also have "\<dots> \<le> length xs" by (rule card_length)
  finally show ?thesis .
qed

lemma maps_new [simp]:
  "ad_maps_ok E (authority_discovery_new sw authorities)"
  "ad_maps_ok E (set_show_progress b (authority_discovery_new sw authorities))"
  by (simp_all add: ad_maps_ok_def authority_discovery_new_def addresses_in_def set_show_progress_def)

lemma new_facts [simp]:
  "ad_authorities (authority_discovery_new sw authorities) = authorities"
  "ad_dial_outcomes (authority_discovery_new sw authorities) = []"
  "ad_authorities (set_show_progress b s) = ad_authorities s"
  "ad_dial_outcomes (set_show_progress b s) = ad_dial_outcomes s"
  by (simp_all add: authority_discovery_new_def set_show_progress_def)

lemma discover_maps:
  "permuting (env_iter E) \<Longrightarrow> permuting (env_shuffle E) \<Longrightarrow> ad_maps_ok E s \<Longrightarrow>
     ad_maps_ok E (discover E turns s)"
  by (simp add: discover_def maps_loop maps_advance)

lemma authorities_discover [simp]: "ad_authorities (discover E turns s) = ad_authorities s"
  by (simp add: discover_def)

text \<open>The outcomes are kept once per address.\<close>

lemma outcomes_peer_info [simp]: "ad_dial_outcomes (query_peer_info E s) = ad_dial_outcomes s"
  using query_peer_info_rest [of E s] by (simp add: ad_rest_def)

lemma outcomes_query_records [simp]:
  "ad_dial_outcomes (query_dht_records E as s) = ad_dial_outcomes s"
  by (induction as arbitrary: s) (simp_all add: query_dht_records_def)

lemma outcomes_advance_initial [simp]: "ad_dial_outcomes (advance_initial E s) = ad_dial_outcomes s"
proof (induction E s rule: advance_initial.induct)
  case (1 E s)
  then show ?case
    by (subst advance_initial.simps) (simp add: Let_def split: option.splits)
qed

lemma outcomes_advance [simp]:
  "ad_dial_outcomes (advance_dht_queries E s) = ad_dial_outcomes s"
  "ad_dial_outcomes (resubmit_remaining_dht_queries E s) = ad_dial_outcomes s"
  by (simp_all add: advance_dht_queries_def resubmit_remaining_dht_queries_def
      backfill_remaining_def Let_def)

lemma wf_outcome: "wf_map (ad_dial_outcomes s) \<Longrightarrow> wf_map (ad_dial_outcomes (set_outcome a out s))"
  by (simp add: set_outcome_def wf_map_update)

lemma wf_dials: "wf_map (ad_dial_outcomes s) \<Longrightarrow> wf_map (ad_dial_outcomes (fold (ad_dial K) as s))"
proof (induction as arbitrary: s)
  case (Cons a as)
  then have "wf_map (ad_dial_outcomes (ad_dial K a s))"
    by (auto simp: ad_dial_def Let_def wf_map_update split: prod.splits option.splits)
  with Cons.IH show ?case by simp
qed simp

lemma wf_dial_error: "wf_map (ad_dial_outcomes s) \<Longrightarrow> wf_map (ad_dial_outcomes (on_dial_error err s))"
proof -
  let ?out = "\<lambda>(addr, e). set_outcome addr (DialFailed (''transport: '' @ error_message e))"
  assume "wf_map (ad_dial_outcomes s)"
  moreover from this have "wf_map (ad_dial_outcomes (fold ?out as s))" for as
    by (induction as arbitrary: s) (auto simp: wf_outcome)
  ultimately show ?thesis
    unfolding on_dial_error_def by (auto simp: wf_outcome split: dial_error.splits)
qed

lemma wf_handle: "wf_map (ad_dial_outcomes s) \<Longrightarrow> wf_map (ad_dial_outcomes (handle_swarm E ev s))"
  by (auto simp: handle_swarm_def on_get_record_def record_accepted_def Let_def wf_outcome wf_dials
      wf_dial_error
      split: swarm_event.splits kademlia_event.splits query_result.splits option.splits sum.splits)

lemma wf_loop: "wf_map (ad_dial_outcomes s) \<Longrightarrow> wf_map (ad_dial_outcomes (ad_loop E ts s))"
proof (induction ts arbitrary: s)
  case (Cons t ts)
  then show ?case by (cases t) (simp_all add: wf_handle)
qed simp

lemma discover_outcomes:
  "wf_map (ad_dial_outcomes s) \<Longrightarrow> wf_map (ad_dial_outcomes (discover E turns s))"
  by (simp add: discover_def wf_loop)

text \<open>
  C6. What the discovery returns is genuine. After any run, whatever the network answered, a
  result is recorded only for an authority of the initial list, each of its addresses comes
  from a record that was verified for that very authority, the authorities still searched for
  are exactly the others, and every recorded address was dialed and no other, with outcomes
  for dialed addresses only. There are at most as many results as authorities.
\<close>

theorem authority_results_sound:
  assumes "permuting (env_iter E)" and "permuting (env_shuffle E)"
    and "s' = discover E turns (authority_discovery_new sw authorities)"
    and "into_results s' = (details, info, outcomes)"
  shows "fst ` set details \<subseteq> set authorities
    \<and> (\<forall>authority as a. (authority, as) \<in> set details \<longrightarrow> a \<in> set as \<longrightarrow> vouched E authority a)
    \<and> set (ad_remaining s') = set authorities - fst ` set details
    \<and> set (ad_dialed s') = addresses_in details
    \<and> fst ` set outcomes \<subseteq> set (ad_dialed s')
    \<and> length details \<le> length authorities"
proof -
  have "ad_maps_ok E s'" "ad_authorities s' = authorities"
    unfolding assms(3) using assms(1,2) by (simp_all add: discover_maps)
  with assms(4) wf_map_keys_length [of details authorities] show ?thesis
    by (auto simp: ad_maps_ok_def into_results_def)
qed

definition sample_ad_env :: "(nat, nat, nat, bytes, bytes, nat, nat) ad_env" where
  "sample_ad_env =
     \<lparr>env_swarm = counting_swarm, env_crypto = sample_sr25519, env_records = sample_record_ops,
      env_sha2 = (\<lambda>b. b), env_iter = (\<lambda>xs. xs), env_shuffle = rev\<rparr>"

theorem authority_results_sound_witness:
  "\<exists>details info outcomes.
     into_results (discover sample_ad_env
        [AdSwarm (DiscoveryEvent (OutboundQueryProgressed 0 (FoundRecord [5] [0, 1])))]
        (authority_discovery_new 0 [[5], [6]])) = (details, info, outcomes)
     \<and> fst ` set details \<subseteq> {[5], [6]}"
proof -
  let ?s = "discover sample_ad_env
    [AdSwarm (DiscoveryEvent (OutboundQueryProgressed 0 (FoundRecord [5] [0, 1])))]
    (authority_discovery_new 0 [[5], [6]])"
  obtain details info outcomes where r: "into_results ?s = (details, info, outcomes)"
    by (metis prod_cases3)
  from authority_results_sound [OF _ _ refl r] r show ?thesis
    by (auto simp: sample_ad_env_def)
qed

section \<open>No authority is left idle\<close>

definition ids_ok ::
  "('peer, 'q, 'sw, 'sig, 'pub, 'key, 'e) ad_env \<Rightarrow> ('sw \<Rightarrow> 'q set)
     \<Rightarrow> ('peer, 'q, 'sw) authority_discovery \<Rightarrow> bool" where
  "ids_ok E issued s \<longleftrightarrow>
     fresh_query_ids (env_swarm E) issued \<and> fst ` set (ad_queries s) \<subseteq> issued (ad_swarm s)"

definition busy :: "('peer, 'q, 'sw) authority_discovery \<Rightarrow> bool" where
  "busy s \<longleftrightarrow>
     length (ad_queries s) = MAX_RECORD_QUERIES \<or> set (ad_remaining s) \<subseteq> snd ` set (ad_queries s)"

lemma update_fresh: "k \<notin> fst ` set m \<Longrightarrow> AList.update k v m = m @ [(k, v)]"
  by (induction m) auto

lemma ids_query_record:
  assumes "ids_ok E issued s"
  shows "ids_ok E issued (query_dht_record E a s)"
    and "\<exists>i. ad_queries (query_dht_record E a s) = ad_queries s @ [(i, a)]"
proof -
  obtain i sw where g: "kad_get_record (env_swarm E) (env_sha2 E a) (ad_swarm s) = (i, sw)"
    by (metis surj_pair)
  have "i \<notin> issued (ad_swarm s) \<and> issued sw = insert i (issued (ad_swarm s))"
    using assms fresh_query_ids_facts(2) [OF _ g, of issued] by (simp add: ids_ok_def)
  moreover from this assms have "i \<notin> fst ` set (ad_queries s)"
    by (auto simp: ids_ok_def)
  ultimately show "ids_ok E issued (query_dht_record E a s)"
    and "\<exists>i. ad_queries (query_dht_record E a s) = ad_queries s @ [(i, a)]"
    using assms g
    by (auto simp: ids_ok_def query_dht_record_def hash_authority_id_def Let_def update_fresh)
qed

lemma ids_query_records:
  assumes "ids_ok E issued s"
  shows "ids_ok E issued (query_dht_records E as s)
    \<and> map snd (ad_queries (query_dht_records E as s)) = map snd (ad_queries s) @ as"
  using assms
proof (induction as arbitrary: s)
  case (Cons a as)
  from ids_query_record(2) [OF Cons.prems, of a] obtain i where
    "ad_queries (query_dht_record E a s) = ad_queries s @ [(i, a)]" ..
  with Cons.IH [OF ids_query_record(1) [OF Cons.prems, of a]] show ?case
    by (simp add: query_dht_records_def)
qed (simp add: query_dht_records_def)

lemma ids_random_peer:
  assumes "ids_ok E issued s"
  shows "ids_ok E issued (query_random_peer E s)"
proof -
  obtain p sw1 i sw2 where r: "random_peer (env_swarm E) (ad_swarm s) = (p, sw1)"
    and g: "kad_get_closest_peers (env_swarm E) p sw1 = (i, sw2)"
    by (metis surj_pair)
  have "issued sw2 = insert i (issued (ad_swarm s))"
    using assms fresh_query_ids_facts(5) [OF _ r, of issued] fresh_query_ids_facts(1) [OF _ g, of issued]
    by (simp add: ids_ok_def)
  with assms r g show ?thesis
    by (auto simp: ids_ok_def query_random_peer_def)
qed

lemma ids_peer_info: "ids_ok E issued s \<Longrightarrow> ids_ok E issued (query_peer_info E s)"
proof -
  have "ids_ok E issued s \<Longrightarrow> ids_ok E issued ((query_random_peer E ^^ n) s)" for n
    by (induction n) (simp_all add: ids_random_peer)
  then show "ids_ok E issued s \<Longrightarrow> ids_ok E issued (query_peer_info E s)"
    by (simp add: query_peer_info_def)
qed

lemma busy_peer_info [simp]: "busy (query_peer_info E s) = busy s"
  using query_peer_info_rest [of E s] by (simp add: ad_rest_def busy_def)

lemma ids_advance_initial:
  "ids_ok E issued s \<Longrightarrow> ids_ok E issued (advance_initial E s)
   \<and> (length (ad_queries (advance_initial E s)) < MAX_RECORD_QUERIES \<longrightarrow>
        length (ad_authorities s) \<le> ad_query_index (advance_initial E s))"
proof (induction E s rule: advance_initial.induct)
  case (1 E s)
  show ?case
  proof (cases "length (ad_queries s) < MAX_RECORD_QUERIES
      \<and> ad_query_index s < length (ad_authorities s)")
    case True
    let ?a = "ad_authorities s ! ad_query_index s"
    let ?t = "(query_dht_records E [?a] s)\<lparr>ad_query_index :=
        ad_query_index (query_dht_records E [?a] s) + 1\<rparr>"
    have "ids_ok E issued ?t"
      using ids_query_records [OF 1(2), of "[?a]"] by (simp add: ids_ok_def)
    with 1(1) [of ?a, OF _ _ refl] True show ?thesis
      by (simp add: advance_initial.simps [of E s] Let_def)
  next
    case False
    with 1(2) show ?thesis
      by (auto simp: advance_initial.simps [of E s] nth_opt_def)
  qed
qed

text \<open>After the backfill, the pool is full or every remaining authority is being queried.\<close>

lemma busy_advance:
  assumes "permuting (env_iter E)" and "ids_ok E issued s" and "ad_bounded s"
  shows "ids_ok E issued (advance_dht_queries E s)" and "busy (advance_dht_queries E s)"
proof -
  define t where "t = advance_initial E s"
  have t: "ids_ok E issued t" "ad_bounded t"
    and idx: "length (ad_queries t) < MAX_RECORD_QUERIES \<Longrightarrow>
      length (ad_authorities t) \<le> ad_query_index t"
    using ids_advance_initial [OF assms(2)] bounded_advance_initial [OF assms(3)]
    by (simp_all add: t_def)
  have "ids_ok E issued (backfill_remaining E t) \<and> busy (backfill_remaining E t)"
  proof (cases "length (ad_queries t) < MAX_RECORD_QUERIES")
    case True
    let ?n = "MAX_RECORD_QUERIES - length (ad_queries t)"
    let ?free = "filter (\<lambda>a. a \<notin> snd ` set (ad_queries t)) (env_iter E (ad_remaining t))"
    define u where "u = query_dht_records E (take ?n ?free) t"
    have "backfill_remaining E t = u"
      using True idx by (simp add: backfill_remaining_def Let_def u_def query_dht_records_def)
    moreover have "ids_ok E issued u" and snds: "map snd (ad_queries u) = map snd (ad_queries t) @ take ?n ?free"
      using ids_query_records [OF t(1), of "take ?n ?free"] by (simp_all add: u_def)
    moreover have "busy u"
    proof (cases "?n \<le> length ?free")
      case True
      have "length (ad_queries u) = length (map snd (ad_queries u))" by simp
      also have "\<dots> = length (ad_queries t) + ?n"
        using True unfolding snds by simp
      finally show ?thesis
        using \<open>length (ad_queries t) < MAX_RECORD_QUERIES\<close> by (simp add: busy_def)
    next
      case False
      then have "snd ` set (ad_queries u) = snd ` set (ad_queries t) \<union> set ?free"
        using arg_cong [OF snds, of set] by simp
      moreover have "set (ad_remaining u) = set (env_iter E (ad_remaining t))"
        using assms(1) by (simp add: u_def permuting_set)
      ultimately show ?thesis by (auto simp: busy_def)
    qed
    ultimately show ?thesis by simp
  next
    case False
    with t show ?thesis
      by (simp add: backfill_remaining_def busy_def ad_bounded_def)
  qed
  then show "ids_ok E issued (advance_dht_queries E s)" and "busy (advance_dht_queries E s)"
    by (simp_all add: advance_dht_queries_def t_def ids_peer_info)
qed

lemma busy_resubmit:
  assumes "permuting (env_iter E)" and "permuting (env_shuffle E)" and "ids_ok E issued s"
  shows "ids_ok E issued (resubmit_remaining_dht_queries E s)"
    and "busy (resubmit_remaining_dht_queries E s)"
proof -
  let ?rem = "env_shuffle E (env_iter E (ad_remaining s))"
  define u where "u = query_dht_records E (take MAX_RECORD_QUERIES ?rem) (s\<lparr>ad_queries := []\<rparr>)"
  have "ids_ok E issued (s\<lparr>ad_queries := []\<rparr>)"
    using assms(3) by (simp add: ids_ok_def)
  from ids_query_records [OF this, of "take MAX_RECORD_QUERIES ?rem"]
  have u: "ids_ok E issued u" and snds: "map snd (ad_queries u) = take MAX_RECORD_QUERIES ?rem"
    by (simp_all add: u_def)
  have "busy u"
  proof (cases "MAX_RECORD_QUERIES \<le> length ?rem")
    case True
    then show ?thesis
      using arg_cong [OF snds, of length] by (simp add: busy_def)
  next
    case False
    then have "snd ` set (ad_queries u) = set ?rem"
      using arg_cong [OF snds, of set] by simp
    then show ?thesis
      using assms(1,2) by (simp add: busy_def u_def permuting_set)
  qed
  with u show "ids_ok E issued (resubmit_remaining_dht_queries E s)"
    and "busy (resubmit_remaining_dht_queries E s)"
    unfolding resubmit_remaining_dht_queries_def Let_def
    by (simp_all add: ids_peer_info u_def del: take_all take_all_iff)
qed

lemma issued_dial:
  assumes "fresh_query_ids (env_swarm E) issued"
  shows "issued (ad_swarm (ad_dial (env_swarm E) a s)) = issued (ad_swarm s)"
  using fresh_query_ids_facts(4) [OF assms]
  by (simp add: ad_dial_def Let_def split: prod.splits option.splits)

lemma issued_record_accepted:
  assumes "fresh_query_ids (env_swarm E) issued"
  shows "issued (ad_swarm (record_accepted (env_swarm E) a p as s)) = issued (ad_swarm s)"
proof -
  have "issued (fold (kad_add_address (env_swarm E) p) xs sw) = issued sw" for xs sw
    by (induction xs arbitrary: sw) (simp_all add: fresh_query_ids_facts(3) [OF assms])
  moreover have "issued (ad_swarm (fold (ad_dial (env_swarm E)) xs t)) = issued (ad_swarm t)" for xs t
    by (induction xs arbitrary: t) (simp_all add: issued_dial [OF assms])
  ultimately show ?thesis by (simp add: record_accepted_def Let_def)
qed

lemma busy_get_record:
  assumes "permuting (env_iter E)" and "ids_ok E issued s" and "ad_bounded s"
  shows "ids_ok E issued (on_get_record E i result s)" and "busy (on_get_record E i result s)"
proof -
  let ?s1 = "s\<lparr>ad_queries := map_remove i (ad_queries s)\<rparr>"
  have fresh: "fresh_query_ids (env_swarm E) issued"
    using assms(2) by (simp add: ids_ok_def)
  have s1: "ids_ok E issued ?s1 \<and> ad_bounded ?s1"
    using assms(2,3) length_map_remove_le [of i "ad_queries s"]
    by (auto simp: ids_ok_def ad_bounded_def keys_map_remove)
  then have "ids_ok E issued (?s1\<lparr>ad_dht_errors := n\<rparr>) \<and> ad_bounded (?s1\<lparr>ad_dht_errors := n\<rparr>)" for n
    by (simp add: ids_ok_def ad_bounded_def)
  moreover from s1 have "ids_ok E issued (record_accepted (env_swarm E) a p as ?s1)
      \<and> ad_bounded (record_accepted (env_swarm E) a p as ?s1)" for a p as
    by (simp add: ids_ok_def ad_bounded_def issued_record_accepted [OF fresh])
      (simp add: record_accepted_def Let_def dials_rest)
  moreover have "ids_ok E issued t \<and> ad_bounded t \<Longrightarrow>
      ids_ok E issued (advance_dht_queries E t) \<and> busy (advance_dht_queries E t)" for t
    using busy_advance [OF assms(1)] by blast
  ultimately show "ids_ok E issued (on_get_record E i result s)"
    and "busy (on_get_record E i result s)"
    using s1
    by (simp_all add: on_get_record_def Let_def
        split: query_result.splits option.splits sum.splits prod.splits)
qed

lemma busy_same:
  "ad_queries t = ad_queries s \<Longrightarrow> ad_remaining t = ad_remaining s \<Longrightarrow> busy t = busy s"
  by (simp add: busy_def)

lemma busy_handle:
  assumes "permuting (env_iter E)" and "ids_ok E issued s" and "ad_bounded s" and "busy s"
  shows "ids_ok E issued (handle_swarm E ev s) \<and> busy (handle_swarm E ev s)"
proof -
  have same: "ids_ok E issued t \<and> busy t" if "ad_queries t = ad_queries s"
    "ad_remaining t = ad_remaining s" "ad_swarm t = ad_swarm s" for t
    using assms that by (simp add: ids_ok_def busy_def)
  have removed: "ids_ok E issued (s\<lparr>ad_queries_discovery := qs\<rparr>)"
    "busy (s\<lparr>ad_queries_discovery := qs\<rparr>)" for qs
    using same by simp_all
  show ?thesis
    using busy_get_record [OF assms(1,2,3)] assms
    by (auto simp: handle_swarm_def same removed ids_peer_info
        split: swarm_event.splits kademlia_event.splits query_result.splits option.splits)
qed

lemma busy_loop:
  assumes "permuting (env_iter E)" and "permuting (env_shuffle E)"
  shows "ids_ok E issued s \<Longrightarrow> ad_bounded s \<Longrightarrow> busy s \<Longrightarrow> busy (ad_loop E ts s)"
proof (induction ts arbitrary: s)
  case (Cons t ts)
  show ?case
  proof (cases t)
    case (AdSwarm ev)
    with Cons busy_handle [OF assms(1) Cons.prems] bounded_handle [OF Cons.prems(2), of E ev] show ?thesis
      by simp
  next
    case AdResubmit
    with Cons busy_resubmit [OF assms Cons.prems(1)] bounded_resubmit [OF Cons.prems(2), of E] show ?thesis
      by simp
  qed (use Cons in simp_all)
qed simp

text \<open>
  C10. The search never stalls: if Kademlia never reuses a query identifier, then in every state
  of the discovery either all 128 slots are taken or every authority not yet found has a query
  in flight.
\<close>

theorem no_authority_idle:
  assumes "permuting (env_iter E)" and "permuting (env_shuffle E)"
    and "fresh_query_ids (env_swarm E) issued"
    and "s' = discover E turns (authority_discovery_new sw authorities)"
  shows "length (ad_queries s') = 128 \<or> set (ad_remaining s') \<subseteq> snd ` set (ad_queries s')"
proof -
  let ?s = "authority_discovery_new sw authorities"
  have ids: "ids_ok E issued ?s"
    using assms(3) by (simp add: ids_ok_def authority_discovery_new_def)
  have bound: "ad_bounded ?s"
    by (simp add: ad_bounded_def authority_discovery_new_def)
  have "busy s'"
    unfolding assms(4) discover_def
    by (rule busy_loop [OF assms(1,2) busy_advance(1) [OF assms(1) ids bound]
          bounded_advance [OF bound] busy_advance(2) [OF assms(1) ids bound]])
  then show ?thesis by (simp add: busy_def MAX_RECORD_QUERIES_def)
qed

theorem no_authority_idle_witness:
  "length (ad_queries (discover sample_ad_env [AdResubmit] (authority_discovery_new 0 [[5], [6]]))) = 128
   \<or> set (ad_remaining (discover sample_ad_env [AdResubmit] (authority_discovery_new 0 [[5], [6]])))
       \<subseteq> snd ` set (ad_queries (discover sample_ad_env [AdResubmit]
            (authority_discovery_new 0 [[5], [6]])))"
proof -
  have "permuting (env_iter sample_ad_env)" "permuting (env_shuffle sample_ad_env)"
    "fresh_query_ids (env_swarm sample_ad_env) (\<lambda>n. {0..<n})"
    by (simp_all add: sample_ad_env_def counting_swarm_fresh)
  from no_authority_idle [OF this refl] show ?thesis .
qed

section \<open>A sample run\<close>

lemma info_query_records [simp]: "ad_peer_info (query_dht_records E as s) = ad_peer_info s"
  by (induction as arbitrary: s)
    (simp_all add: query_dht_records_def query_dht_record_def Let_def split: prod.splits)

lemma info_peer_info [simp]: "ad_peer_info (query_peer_info E s) = ad_peer_info s"
proof -
  have "ad_peer_info ((query_random_peer E ^^ n) s) = ad_peer_info s" for n
    by (induction n) (simp_all add: query_random_peer_def split: prod.splits)
  then show ?thesis by (simp add: query_peer_info_def)
qed

lemma info_advance_initial [simp]: "ad_peer_info (advance_initial E s) = ad_peer_info s"
proof (induction E s rule: advance_initial.induct)
  case (1 E s)
  then show ?case
    by (subst advance_initial.simps) (simp add: Let_def split: option.splits)
qed

lemma results_advance [simp]: "into_results (advance_dht_queries E s) = into_results s"
  by (simp add: into_results_def)
    (simp add: advance_dht_queries_def backfill_remaining_def Let_def)

lemma keys_advance:
  "ad_records_keys (advance_dht_queries E s) = ad_records_keys (backfill_remaining E (advance_initial E s))"
  using query_peer_info_rest [of E "backfill_remaining E (advance_initial E s)"]
  by (simp add: ad_rest_def advance_dht_queries_def)

lemma dialed_advance:
  "ad_dialed (advance_dht_queries E s) = ad_dialed (backfill_remaining E (advance_initial E s))"
  using query_peer_info_rest [of E "backfill_remaining E (advance_initial E s)"]
  by (simp add: ad_rest_def advance_dht_queries_def)

lemma sample_discovery_results:
  "into_results (discover sample_ad_env
     [AdSwarm (DiscoveryEvent (OutboundQueryProgressed 0 (FoundRecord [5] [1])))]
     (set_show_progress True (authority_discovery_new 0 [[5], [6]]))) =
   ([([5], [[Ip4 [1, 1, 1, 1], P2p 7]])], [], [])"
proof -
  let ?s0 = "set_show_progress True (authority_discovery_new 0 [[5], [6]])"
  define s where "s = advance_dht_queries sample_ad_env ?s0"
  have ks: "map_of (ad_records_keys s) [5] = Some [5]" and ds: "ad_dialed s = []"
    unfolding s_def keys_advance dialed_advance by code_simp+
  have rs: "into_results s = ([], [], [])"
    unfolding s_def results_advance by code_simp
  have dec: "decode_dht_record (env_crypto sample_ad_env) (env_records sample_ad_env) [1] [5] =
      Inr (7, [[Ip4 [1, 1, 1, 1], P2p 7]])"
    by code_simp
  have "into_results (record_accepted counting_swarm [5] 7 [[Ip4 [1, 1, 1, 1], P2p 7]]
      (s\<lparr>ad_queries := map_remove 0 (ad_queries s)\<rparr>)) = ([([5], [[Ip4 [1, 1, 1, 1], P2p 7]])], [], [])"
    using rs ds
    by (simp add: into_results_def record_accepted_def Let_def ad_dial_def counting_swarm_def
        map_entry_def set_extend_def)
  with ks dec show ?thesis
    by (simp add: discover_def handle_swarm_def on_get_record_def Let_def flip: s_def)
      (simp add: sample_ad_env_def)
qed

end
