(* ===== verification/Library_Swarm.thy ===== *)
theory Library_Swarm
  imports Rust_Str
begin

text \<open>
  The construction of a swarm with the builder of the library (\<open>libp2p::SwarmBuilder\<close>), as the
  libp2p backend, \<open>PeerInfo\<close> and the commands that only identify peers use it: TCP without
  delay, DNS and WebSocket, with Noise and Yamux, then a behaviour. What is handed to the
  library is a record of settings, and each of its steps can fail, which panics. Durations are
  whole seconds.
\<close>

section \<open>Settings\<close>

record identify_settings =
  is_protocol_version :: string
  is_agent_version :: "string option"
  is_cache_size :: "nat option"  \<comment> \<open>if it is set\<close>

record kad_settings =
  ks_protocol :: string
  ks_manual_inserts :: bool
  ks_max_packet_size :: nat
  ks_record_ttl :: "nat option"
  ks_provider_ttl :: "nat option"
  ks_query_timeout :: nat

record swarm_settings =
  ss_nodelay :: bool
  ss_identify :: identify_settings
  ss_ping :: bool
  ss_kad :: "kad_settings option"

section \<open>Steps\<close>

datatype build_step = BuildTcp | BuildDns | BuildWebsocket | BuildBehaviour

text \<open>The texts of the four \<open>expect\<close>; the one of the WebSocket step is an argument.\<close>

fun build_expect :: "string \<Rightarrow> build_step \<Rightarrow> string" where
  "build_expect websocket BuildTcp = ''Can construct TCP; qed''"
| "build_expect websocket BuildDns = ''Can construct DNS; qed''"
| "build_expect websocket BuildWebsocket = websocket"
| "build_expect websocket BuildBehaviour = ''Can construct behaviour; qed''"

definition built :: "string \<Rightarrow> build_step + 'sw \<Rightarrow> panic + 'sw" where
  "built websocket r = map_sum (\<lambda>failed. UnwrapNone (build_expect websocket failed)) id r"

text \<open>A swarm that only identifies peers, under the given agent.\<close>

definition identify_only :: "string \<Rightarrow> swarm_settings" where
  "identify_only agent =
     \<lparr>ss_nodelay = True,
      ss_identify = \<lparr>is_protocol_version = ''/substrate/1.0'', is_agent_version = Some agent,
        is_cache_size = Some 0\<rparr>,
      ss_ping = False, ss_kad = None\<rparr>"

definition identify_swarm :: "(swarm_settings \<Rightarrow> build_step + 'sw) \<Rightarrow> string \<Rightarrow> panic + 'sw" where
  "identify_swarm build agent = built ''Can construct WebSocket; qed'' (build (identify_only agent))"

lemma built_Inr [simp]: "built websocket r = Inr sw \<longleftrightarrow> r = Inr sw"
  by (cases r) (auto simp: built_def)

end
