(* ===== verification/Authorities_Command.thy ===== *)
theory Authorities_Command
  imports Authority_Discovery Ss58 Library_Swarm
begin

text \<open>
  The report of the \<open>authorities\<close> command (\<open>discover_authorities\<close> of
  \<open>cli/src/commands/authorities.rs\<close>): one line for each authority, from the results of the
  discovery. The command takes whichever address the set of addresses iterates first; that
  choice is the argument \<open>iter_first\<close>, an order on the addresses.
\<close>

section \<open>Definitions\<close>

datatype 'peer report_line =
    NoDhtResponse string
  | NoAddresses string
  | ReachedAuthority string 'peer string "'peer multiaddr hash_set"
  | UnreachedAuthority string 'peer "'peer multiaddr hash_set"

record 'peer authority_report =
  rep_lines :: "'peer report_line list"
  rep_reached :: nat
  rep_litep2p :: nat

definition report_authority ::
  "(bytes \<Rightarrow> bytes) \<Rightarrow> (bytes \<Rightarrow> string) \<Rightarrow> ('peer multiaddr list \<Rightarrow> 'peer multiaddr list) \<Rightarrow> u16
     \<Rightarrow> ('peer, 'q, 'sw) authority_discovery \<Rightarrow> authority \<Rightarrow> 'peer authority_report
     \<Rightarrow> panic + 'peer authority_report" where
  "report_authority blake bs58 iter_first version s authority rep =
     (case to_ss58 blake bs58 authority version of
        Inl e \<Rightarrow> Inl e
      | Inr name \<Rightarrow>
          (case map_of (ad_authority_to_details s) authority of
             None \<Rightarrow> Inr (rep\<lparr>rep_lines := rep_lines rep @ [NoDhtResponse name]\<rparr>)
           | Some details \<Rightarrow>
               (case iter_first details of
                  [] \<Rightarrow> Inr (rep\<lparr>rep_lines := rep_lines rep @ [NoAddresses name]\<rparr>)
                | addr # _ \<Rightarrow>
                    (case get_peer_id addr of
                       None \<Rightarrow> Inl (UnwrapNone ''All must have valid peerIDs'')
                     | Some peer_id \<Rightarrow>
                         (case map_of (ad_peer_info s) peer_id of
                            Some info \<Rightarrow>
                              Inr (rep\<lparr>rep_lines := rep_lines rep @
                                     [ReachedAuthority name peer_id (info_agent_version info) details],
                                   rep_reached := rep_reached rep + 1,
                                   rep_litep2p := rep_litep2p rep +
                                     (if str_contains (info_agent_version info) ''litep2p''
                                      then 1 else 0)\<rparr>)
                          | None \<Rightarrow>
                              Inr (rep\<lparr>rep_lines := rep_lines rep @
                                     [UnreachedAuthority name peer_id details]\<rparr>))))))"

fun report_authorities ::
  "(bytes \<Rightarrow> bytes) \<Rightarrow> (bytes \<Rightarrow> string) \<Rightarrow> ('peer multiaddr list \<Rightarrow> 'peer multiaddr list) \<Rightarrow> u16
     \<Rightarrow> ('peer, 'q, 'sw) authority_discovery \<Rightarrow> authority list \<Rightarrow> 'peer authority_report
     \<Rightarrow> panic + 'peer authority_report" where
  "report_authorities blake bs58 iter_first version s [] rep = Inr rep"
| "report_authorities blake bs58 iter_first version s (authority # authorities) rep =
     (case report_authority blake bs58 iter_first version s authority rep of
        Inl e \<Rightarrow> Inl e
      | Inr rep' \<Rightarrow> report_authorities blake bs58 iter_first version s authorities rep')"

definition discover_authorities_report ::
  "(bytes \<Rightarrow> bytes) \<Rightarrow> (bytes \<Rightarrow> string) \<Rightarrow> ('peer multiaddr list \<Rightarrow> 'peer multiaddr list)
     \<Rightarrow> ('peer, 'q, 'sw, 'sig, 'pub, 'key, 'e) ad_env \<Rightarrow> u16 \<Rightarrow> ('peer, 'q) ad_turn list \<Rightarrow> 'sw
     \<Rightarrow> authority list \<Rightarrow> panic + 'peer authority_report" where
  "discover_authorities_report blake bs58 iter_first E version turns sw authorities =
     report_authorities blake bs58 iter_first version
       (discover E turns (authority_discovery_new sw authorities)) authorities
       \<lparr>rep_lines = [], rep_reached = 0, rep_litep2p = 0\<rparr>"

section \<open>The progress line\<close>

text \<open>
  \<open>print_progress\<close>: a bar of 25 cells and the counts. \<open>fill n d\<close> is
  \<open>(n as f64 / d as f64 * 25.0) as usize\<close> and \<open>decimal n d\<close> the text of the percentage; the
  number of connected peers and the seconds are arguments. Subtracting the filled cells from
  25 panics if there are more.
\<close>

definition BAR_WIDTH :: nat where
  "BAR_WIDTH = 25"

definition FULL_BLOCK :: string where "FULL_BLOCK = [CHR 0xE2, CHR 0x96, CHR 0x88]"
definition LIGHT_SHADE :: string where "LIGHT_SHADE = [CHR 0xE2, CHR 0x96, CHR 0x91]"

definition progress_bar :: "nat \<Rightarrow> panic + string" where
  "progress_bar filled =
     (if BAR_WIDTH < filled then Inl (AssertFailed ''attempt to subtract with overflow'')
      else Inr (concat (replicate filled FULL_BLOCK)
             @ concat (replicate (BAR_WIDTH - filled) LIGHT_SHADE)))"

definition print_progress ::
  "(nat \<Rightarrow> nat \<Rightarrow> nat) \<Rightarrow> (nat \<Rightarrow> nat \<Rightarrow> string) \<Rightarrow> nat \<Rightarrow> nat \<Rightarrow> nat
     \<Rightarrow> ('peer, 'q, 'sw) authority_discovery \<Rightarrow> panic + string list" where
  "print_progress fill decimal connected_peers elapsed timeout_secs s =
     (let num = length (ad_authorities s);
          found = length (ad_authority_to_details s);
          identified = length (filter (\<lambda>peer. map_of (ad_peer_info s) peer \<noteq> None)
            (keys (ad_peer_details s)));
          filled = (if 0 < num then fill found num else 0);
          dial_ok = length (filter (\<lambda>out. out = DialSuccess) (values_of (ad_dial_outcomes s)));
          dial_fail = length (filter (\<lambda>out. out \<noteq> DialSuccess) (values_of (ad_dial_outcomes s)))
      in case progress_bar filled of
           Inl e \<Rightarrow> Inl e
         | Inr bar \<Rightarrow>
             Inr [CHR 0x0D # ''       ['', bar, ''] '', show_nat found, ''/'', show_nat num, '' ('',
               (if 0 < num then decimal found num else ''0.0''), ''%) | Id: '', show_nat identified,
               '' | Dials: '', show_nat dial_ok, ''/'', show_nat (dial_ok + dial_fail), '' ok | Err: '',
               show_nat (ad_dht_errors s), '' | Peers: '', show_nat connected_peers, '' | Q: '',
               show_nat (length (ad_queries s)), '' | '', show_nat elapsed, ''s/'',
               show_nat timeout_secs, ''s   ''])"

text \<open>
  What the loop of \<open>discover\<close> prints when the progress is shown: the line at each tick of the
  progress timer, and the text that clears it at the exit. \<open>connected\<close> counts the connected peers
  of a swarm and \<open>elapsed\<close> gives the seconds passed at a turn. This text goes straight to the
  terminal and changes nothing of the discovery, which \<open>ad_loop\<close> models without it; the
  \<open>authorities\<close> command does not show it.
\<close>

fun ad_loop_shown ::
  "(nat \<Rightarrow> nat \<Rightarrow> nat) \<Rightarrow> (nat \<Rightarrow> nat \<Rightarrow> string) \<Rightarrow> ('sw \<Rightarrow> nat) \<Rightarrow> (nat \<Rightarrow> nat) \<Rightarrow> nat
     \<Rightarrow> ('peer, 'q, 'sw, 'sig, 'pub, 'key, 'e) ad_env \<Rightarrow> nat \<Rightarrow> ('peer, 'q) ad_turn list
     \<Rightarrow> ('peer, 'q, 'sw) authority_discovery \<Rightarrow> panic + string list list" where
  "ad_loop_shown fill decimal connected elapsed secs E n [] s = Inr []"
| "ad_loop_shown fill decimal connected elapsed secs E n (AdSwarm event # ts) s =
     ad_loop_shown fill decimal connected elapsed secs E (Suc n) ts (handle_swarm E event s)"
| "ad_loop_shown fill decimal connected elapsed secs E n (AdResubmit # ts) s =
     ad_loop_shown fill decimal connected elapsed secs E (Suc n) ts (resubmit_remaining_dht_queries E s)"
| "ad_loop_shown fill decimal connected elapsed secs E n (AdProgress # ts) s =
     (if ad_show_progress s then
        (case print_progress fill decimal (connected (ad_swarm s)) (elapsed n) secs s of
           Inl e \<Rightarrow> Inl e
         | Inr line \<Rightarrow>
             map_sum id (Cons line) (ad_loop_shown fill decimal connected elapsed secs E (Suc n) ts s))
      else ad_loop_shown fill decimal connected elapsed secs E (Suc n) ts s)"
| "ad_loop_shown fill decimal connected elapsed secs E n (AdExit # ts) s =
     Inr (if ad_show_progress s then [[[CHR 0x0D], replicate 100 CHR '' '', [CHR 0x0D]]] else [])"

definition discover_shown ::
  "(nat \<Rightarrow> nat \<Rightarrow> nat) \<Rightarrow> (nat \<Rightarrow> nat \<Rightarrow> string) \<Rightarrow> ('sw \<Rightarrow> nat) \<Rightarrow> (nat \<Rightarrow> nat) \<Rightarrow> nat
     \<Rightarrow> ('peer, 'q, 'sw, 'sig, 'pub, 'key, 'e) ad_env \<Rightarrow> ('peer, 'q) ad_turn list
     \<Rightarrow> ('peer, 'q, 'sw) authority_discovery \<Rightarrow> panic + string list list" where
  "discover_shown fill decimal connected elapsed secs E turns s =
     ad_loop_shown fill decimal connected elapsed secs E 0 turns (advance_dht_queries E s)"

section \<open>One peer\<close>

text \<open>
  \<open>PeerInfo\<close>: build a swarm that only identifies peers and dial every address, then wait for
  an identification or a failed dial.
\<close>

definition peer_info_new ::
  "('peer, 'q, 'sw) swarm_ops \<Rightarrow> (swarm_settings \<Rightarrow> build_step + 'sw) \<Rightarrow> 'peer multiaddr list
     \<Rightarrow> panic + 'sw" where
  "peer_info_new K build addresses =
     map_sum id (fold (\<lambda>addr sw. snd (sw_dial K addr sw)) addresses)
       (identify_swarm build ''subp2p-identify'')"

fun peer_info_discover ::
  "('peer, 'q) swarm_event list \<Rightarrow> ('peer dial_error + 'peer identify_info) option" where
  "peer_info_discover [] = None"
| "peer_info_discover (event # events) =
     (case event of
        Identified _ info \<Rightarrow> Some (Inr info)
      | OutgoingConnectionError err \<Rightarrow> Some (Inl err)
      | _ \<Rightarrow> peer_info_discover events)"

section \<open>Properties\<close>

lemma print_progress_total:
  assumes "ad_maps_ok E s" and "\<forall>n d. n \<le> d \<longrightarrow> fill n d \<le> 25"
  shows "\<exists>bar rest. print_progress fill decimal connected elapsed secs s =
      Inr ((CHR 0x0D # ''       ['') # bar # rest) \<and> length bar = 3 * 25"
proof -
  have "length (ad_authority_to_details s) \<le> length (ad_authorities s)"
    using wf_map_keys_length [of "ad_authority_to_details s" "ad_authorities s"] assms(1)
    by (simp add: ad_maps_ok_def)
  then have "fill (length (ad_authority_to_details s)) (length (ad_authorities s)) \<le> BAR_WIDTH"
    using assms(2) by (simp add: BAR_WIDTH_def)
  moreover have "length (concat (replicate n c)) = n * length c" for n and c :: string
    by (induction n) simp_all
  ultimately show ?thesis
    by (auto simp: print_progress_def progress_bar_def Let_def FULL_BLOCK_def LIGHT_SHADE_def
        BAR_WIDTH_def)
qed

text \<open>
  The progress can always be shown: every line of the loop can be printed, whatever happens in
  it, for every rounding under which a share of at most one fills at most 25 cells, and at every
  moment of a discovery the bar has exactly 25 cells.
\<close>

theorem progress_never_panics:
  assumes "permuting (env_iter E)" and "permuting (env_shuffle E)"
    and "\<forall>n d. n \<le> d \<longrightarrow> fill n d \<le> 25"
  shows "(\<exists>lines. discover_shown fill decimal connected elapsed secs E turns
        (set_show_progress show_progress (authority_discovery_new sw authorities)) = Inr lines)
    \<and> (\<exists>bar rest. print_progress fill decimal num time secs
        (discover E turns (authority_discovery_new sw authorities)) =
          Inr ((CHR 0x0D # ''       ['') # bar # rest) \<and> length bar = 3 * 25)"
proof
  have loop: "ad_maps_ok E s \<Longrightarrow>
      \<exists>lines. ad_loop_shown fill decimal connected elapsed secs E n ts s = Inr lines" for n ts s
  proof (induction ts arbitrary: n s)
    case (Cons t ts)
    have kept: "ad_maps_ok E (handle_swarm E ev s)" "ad_maps_ok E (resubmit_remaining_dht_queries E s)" for ev
      using Cons.prems assms(1,2) by (simp_all add: maps_handle_swarm maps_resubmit)
    note rest = Cons.IH [OF kept(1)] Cons.IH [OF kept(2)] Cons.IH [OF Cons.prems]
    obtain bar line where line: "print_progress fill decimal (connected (ad_swarm s)) (elapsed n) secs s =
        Inr ((CHR 0x0D # ''       ['') # bar # line)"
      using print_progress_total [OF Cons.prems assms(3), of decimal "connected (ad_swarm s)" "elapsed n" secs]
      by blast
    show ?case
    proof (cases t)
      case AdProgress
      obtain lines where "ad_loop_shown fill decimal connected elapsed secs E (Suc n) ts s = Inr lines"
        using rest(3) by blast
      with AdProgress line show ?thesis by simp
    qed (use rest in simp_all)
  qed simp
  have new: "ad_maps_ok E (set_show_progress show_progress (authority_discovery_new sw authorities))"
    by (simp add: set_show_progress_def ad_maps_ok_def authority_discovery_new_def addresses_in_def)
  show "\<exists>lines. discover_shown fill decimal connected elapsed secs E turns
      (set_show_progress show_progress (authority_discovery_new sw authorities)) = Inr lines"
    unfolding discover_shown_def by (rule loop) (use new assms in \<open>simp add: maps_advance\<close>)
  have "ad_maps_ok E (discover E turns (authority_discovery_new sw authorities))"
    using assms(1,2) by (simp add: discover_maps)
  then show "\<exists>bar rest. print_progress fill decimal num time secs
        (discover E turns (authority_discovery_new sw authorities)) =
          Inr ((CHR 0x0D # ''       ['') # bar # rest) \<and> length bar = 3 * 25"
    by (rule print_progress_total) (rule assms(3))
qed

theorem progress_never_panics_witness:
  "\<exists>bar rest. print_progress (\<lambda>n d. 25 * n div d) (\<lambda>_ _. ''50.0'') 3 10 60
      (discover sample_ad_env [AdProgress] (authority_discovery_new 0 [[5], [6]])) =
        Inr ((CHR 0x0D # ''       ['') # bar # rest) \<and> length bar = 75"
proof -
  have "\<forall>n d. n \<le> d \<longrightarrow> 25 * n div d \<le> (25 :: nat)"
  proof (intro allI impI)
    fix n d :: nat
    assume "n \<le> d"
    then have "25 * n div d \<le> 25 * d div d"
      by (intro div_le_mono) simp
    also have "\<dots> \<le> 25"
      by (cases "d = 0") auto
    finally show "25 * n div d \<le> 25" .
  qed
  from progress_never_panics [OF _ _ this, of sample_ad_env "\<lambda>_ _. ''50.0''" "\<lambda>_. 3" "\<lambda>_. 10" 60 "[AdProgress]"
      True 0 "[[5], [6]]" 3 10]
  show ?thesis by (simp add: sample_ad_env_def)
qed

definition all_name_peers :: "('peer, 'q, 'sw) authority_discovery \<Rightarrow> bool" where
  "all_name_peers s \<longleftrightarrow> (\<forall>a \<in> addresses_in (ad_authority_to_details s). get_peer_id a \<noteq> None)"

lemma report_authority_total:
  assumes "\<And>d. 2 \<le> length (blake d)" and "permuting iter_first" and "all_name_peers s"
  shows "\<exists>rep'. report_authority blake bs58 iter_first version s authority rep = Inr rep'
    \<and> length (rep_lines rep') = Suc (length (rep_lines rep))
    \<and> rep_reached rep \<le> rep_reached rep' \<and> rep_reached rep' \<le> Suc (rep_reached rep)
    \<and> rep_litep2p rep' + rep_reached rep \<le> rep_litep2p rep + rep_reached rep'"
proof -
  obtain name where name: "to_ss58 blake bs58 authority version = Inr name"
    using to_ss58_total [of blake, OF assms(1)] by blast
  have named: "get_peer_id addr \<noteq> None"
    if "map_of (ad_authority_to_details s) authority = Some details"
      "iter_first details = addr # rest" for details addr rest
  proof -
    have "addr \<in> set details"
      using that(2) permuting_set [OF assms(2), of details] by auto
    then have "addr \<in> addresses_in (ad_authority_to_details s)"
      using map_of_SomeD [OF that(1)] by (force simp: addresses_in_def)
    with assms(3) show ?thesis by (simp add: all_name_peers_def)
  qed
  show ?thesis
  proof (cases "map_of (ad_authority_to_details s) authority")
    case (Some details)
    with name named [OF Some] show ?thesis
      by (auto simp: report_authority_def split: option.splits list.splits)
  qed (use name in \<open>simp add: report_authority_def\<close>)
qed

text \<open>
  When every address found names a peer, the report is printed to its end: one line for
  each authority, with the number of authorities reached at most their total and the number
  running litep2p at most the number reached. The hash is only assumed to yield two bytes.
\<close>

theorem authority_report_completes:
  assumes "\<And>d. 2 \<le> length (blake d)" and "permuting iter_first"
    and "all_name_peers (discover E turns (authority_discovery_new sw authorities))"
  shows "\<exists>rep. discover_authorities_report blake bs58 iter_first E version turns sw authorities = Inr rep
    \<and> length (rep_lines rep) = length authorities
    \<and> rep_litep2p rep \<le> rep_reached rep \<and> rep_reached rep \<le> length authorities"
proof -
  let ?s = "discover E turns (authority_discovery_new sw authorities)"
  have run: "\<exists>rep'. report_authorities blake bs58 iter_first version ?s as rep = Inr rep'
      \<and> length (rep_lines rep') = length (rep_lines rep) + length as
      \<and> rep_reached rep' \<le> rep_reached rep + length as
      \<and> rep_litep2p rep' + rep_reached rep \<le> rep_litep2p rep + rep_reached rep'" for as rep
  proof (induction as arbitrary: rep)
    case (Cons a as)
    from report_authority_total [of blake, OF assms] obtain rep1 where
      rep1: "report_authority blake bs58 iter_first version ?s a rep = Inr rep1"
        "length (rep_lines rep1) = Suc (length (rep_lines rep))"
        "rep_reached rep1 \<le> Suc (rep_reached rep)"
        "rep_litep2p rep1 + rep_reached rep \<le> rep_litep2p rep + rep_reached rep1" by blast
    from Cons.IH [of rep1] obtain rep' where
      "report_authorities blake bs58 iter_first version ?s as rep1 = Inr rep'"
      "length (rep_lines rep') = length (rep_lines rep1) + length as"
      "rep_reached rep' \<le> rep_reached rep1 + length as"
      "rep_litep2p rep' + rep_reached rep1 \<le> rep_litep2p rep1 + rep_reached rep'" by blast
    with rep1 show ?case by auto
  qed simp
  from run [of authorities "\<lparr>rep_lines = [], rep_reached = 0, rep_litep2p = 0\<rparr>"] show ?thesis
    by (auto simp: discover_authorities_report_def)
qed

theorem authority_report_completes_witness:
  "\<exists>rep. discover_authorities_report (\<lambda>_. [1, 2]) (\<lambda>_. ''x'') (\<lambda>xs. xs) sample_ad_env 42 [AdExit] 0
       [[5], [6]] = Inr rep
     \<and> length (rep_lines rep) = 2"
proof -
  have "ad_authority_to_details (discover sample_ad_env [AdExit] (authority_discovery_new 0 [[5], [6]])) = []"
    by (simp add: discover_def authority_discovery_new_def)
  then have "all_name_peers (discover sample_ad_env [AdExit] (authority_discovery_new 0 [[5], [6]]))"
    by (simp add: all_name_peers_def addresses_in_def)
  from authority_report_completes [OF _ _ this, of "\<lambda>_. [1, 2]" "\<lambda>xs. xs" "\<lambda>_. ''x''" 42]
  show ?thesis by auto
qed

text \<open>A run in which the record of authority 5 carries one address that names no peer.\<close>

definition bare_run :: "(nat, nat, nat) authority_discovery" where
  "bare_run = discover sample_ad_env
     [AdSwarm (DiscoveryEvent (OutboundQueryProgressed 0 (FoundRecord [5] [0, 1])))]
     (authority_discovery_new 0 [[5]])"

lemma records_keys_peer_info: "ad_records_keys (query_peer_info E t) = ad_records_keys t"
  using query_peer_info_rest [of E t] by (simp add: ad_rest_def)

lemma first_query:
  "map_of (ad_records_keys (advance_dht_queries sample_ad_env (authority_discovery_new 0 [[5]]))) [5]
     = Some [5]"
  by (simp add: advance_dht_queries_def records_keys_peer_info backfill_remaining_def
      authority_discovery_new_def advance_initial.simps query_dht_records_def query_dht_record_def
      hash_authority_id_def sample_ad_env_def counting_swarm_def MAX_RECORD_QUERIES_def Let_def
      set_extend_def)

text \<open>
  The report can panic on genuine records: after a run in which an accepted record carries
  an address without a peer beside one with it, the command panics when the set of addresses
  happens to iterate the former first, while with the opposite order it completes.
\<close>

theorem bare_address_panics_report:
  "discover_authorities_report (\<lambda>_. [1, 2]) (\<lambda>_. ''x'') rev sample_ad_env 42
      [AdSwarm (DiscoveryEvent (OutboundQueryProgressed 0 (FoundRecord [5] [0, 1])))] 0 [[5]]
    = Inl (UnwrapNone ''All must have valid peerIDs'')
   \<and> (\<exists>rep. discover_authorities_report (\<lambda>_. [1, 2]) (\<lambda>_. ''x'') (\<lambda>xs. xs) sample_ad_env 42
      [AdSwarm (DiscoveryEvent (OutboundQueryProgressed 0 (FoundRecord [5] [0, 1])))] 0 [[5]] = Inr rep)"
proof -
  have "decode_dht_record sample_sr25519 sample_record_ops [0, 1] [5]
      = Inr (7, [[Ip4 [8, 8, 8, 8]], [Ip4 [1, 1, 1, 1], P2p 7]])"
    by (simp add: decode_dht_record_def sample_sr25519_def sample_record_ops_def sr25519_verify_def
        named_peers_def set_extend_def map_filter_def get_peer_id_def last_protocol_def)
  then have details: "ad_authority_to_details bare_run
      = [([5], [[Ip4 [1, 1, 1, 1], P2p 7], [Ip4 [8, 8, 8, 8]]])]"
    using first_query
    by (simp add: bare_run_def discover_def handle_swarm_def on_get_record_def sample_ad_env_def
        record_accepted_def dials_rest dial_rest Let_def map_entry_def set_extend_def authority_discovery_new_def)
  obtain name where "to_ss58 (\<lambda>_. [1, 2]) (\<lambda>_. ''x'') [5] 42 = Inr name"
    using to_ss58_total [of "\<lambda>_. [1, 2]" "\<lambda>_. ''x''" "[5]" 42] by auto
  with details show ?thesis
    unfolding discover_authorities_report_def bare_run_def [symmetric]
    by (simp add: report_authority_def get_peer_id_def last_protocol_def split: option.splits)
qed

end
