(* ===== verification/Rpc.thy ===== *)
theory Rpc
  imports Rust_Str
begin

text \<open>
  What the commands ask of a node's RPC interface and of the published chain specifications
  (the functions at the top of \<open>cli/src/commands/authorities.rs\<close>). The RPC client and the
  HTTP client are arguments that answer with JSON or an error; JSON values are data. Messages
  written to the terminal are left out.
\<close>

section \<open>JSON\<close>

datatype json =
    JNull
  | JBool bool
  | JNumber nat        \<comment> \<open>an integer that fits \<open>u64\<close>\<close>
  | JOtherNumber string
  | JString string
  | JArray "json list"
  | JObject "(string \<times> json) list"

fun json_get :: "string \<Rightarrow> json \<Rightarrow> json option" where
  "json_get k (JObject entries) = map_of entries k"
| "json_get k _ = None"

fun json_as_array :: "json \<Rightarrow> json list option" where
  "json_as_array (JArray js) = Some js"
| "json_as_array _ = None"

fun json_as_str :: "json \<Rightarrow> string option" where
  "json_as_str (JString s) = Some s"
| "json_as_str _ = None"

fun json_as_u64 :: "json \<Rightarrow> nat option" where
  "json_as_u64 (JNumber n) = (if n < 2 ^ 64 then Some n else None)"
| "json_as_u64 _ = None"

datatype 'e rpc_error =
    RequestFailed 'e
  | MissingField string
  | InvalidFormat string
  | HexError 'e
  | DecodeError 'e

text \<open>\<open>request m params\<close> is a JSON-RPC call.\<close>

type_synonym 'e rpc_client = "string \<Rightarrow> json list \<Rightarrow> 'e + json"

section \<open>Bootnodes\<close>

text \<open>The \<open>bootNodes\<close> of a chain specification: the entries that are strings.\<close>

definition spec_bootnodes :: "json \<Rightarrow> 'e rpc_error + string list" where
  "spec_bootnodes spec =
     (case json_get ''bootNodes'' spec of
        None \<Rightarrow> Inl (MissingField ''bootNodes'')
      | Some field \<Rightarrow>
          (case json_as_array field of
             None \<Rightarrow> Inl (InvalidFormat ''bootNodes'')
           | Some nodes \<Rightarrow> Inr (List.map_filter json_as_str nodes)))"

definition fetch_bootnodes_from_rpc :: "'e rpc_client \<Rightarrow> 'e rpc_error + string list" where
  "fetch_bootnodes_from_rpc request =
     (case request ''sync_state_genSyncSpec'' [JBool True] of
        Inl e \<Rightarrow> Inl (RequestFailed e)
      | Inr spec \<Rightarrow> spec_bootnodes spec)"

definition KNOWN_CHAINS :: "string list" where
  "KNOWN_CHAINS = [''kusama'', ''paseo'', ''westend'', ''polkadot'']"

record url =
  url_host :: "string option"
  url_path :: string
  url_as_str :: string

definition detect_chain_name :: "url \<Rightarrow> string option" where
  "detect_chain_name u =
     (let host = (case url_host u of Some h \<Rightarrow> h | None \<Rightarrow> [])
      in List.find (\<lambda>chain. str_contains host chain \<or> str_contains (url_path u) chain) KNOWN_CHAINS)"

definition fetch_bootnodes_from_chainspec ::
  "(string \<Rightarrow> 'e + json) \<Rightarrow> string \<Rightarrow> 'e rpc_error + string list" where
  "fetch_bootnodes_from_chainspec http_get chain =
     (case http_get (''https://paritytech.github.io/chainspecs/'' @ chain
              @ ''/relaychain/chainspec.json'') of
        Inl e \<Rightarrow> Inl (RequestFailed e)
      | Inr resp \<Rightarrow> spec_bootnodes resp)"

text \<open>
  Merging goes through a \<open>HashSet\<close>, whose order comes out as \<open>iter_order\<close> says. A failed
  download is only a warning.
\<close>

definition resolve_bootnodes ::
  "'e rpc_client \<Rightarrow> (string \<Rightarrow> 'e + json) \<Rightarrow> (string list \<Rightarrow> string list) \<Rightarrow> url \<Rightarrow> string list
     \<Rightarrow> 'e rpc_error + string list" where
  "resolve_bootnodes request http_get iter_order rpc_url cli_bootnodes =
     (case (if cli_bootnodes = [] then fetch_bootnodes_from_rpc request else Inr cli_bootnodes) of
        Inl e \<Rightarrow> Inl e
      | Inr bootnodes \<Rightarrow>
          (case detect_chain_name rpc_url of
             None \<Rightarrow> Inr bootnodes
           | Some chain \<Rightarrow>
               (case fetch_bootnodes_from_chainspec http_get chain of
                  Inl _ \<Rightarrow> Inr bootnodes
                | Inr extra \<Rightarrow>
                    Inr (iter_order (set_extend (set_extend [] bootnodes) extra)))))"

section \<open>Chain properties\<close>

definition fetch_genesis_hash :: "'e rpc_client \<Rightarrow> 'e rpc_error + string" where
  "fetch_genesis_hash request =
     (case request ''chain_getBlockHash'' [JNumber 0] of
        Inl e \<Rightarrow> Inl (RequestFailed e)
      | Inr j \<Rightarrow>
          (case json_as_str j of
             None \<Rightarrow> Inl (InvalidFormat ''chain_getBlockHash'')
           | Some hash \<Rightarrow> Inr (trim_start_matches ''0x'' hash)))"

text \<open>The prefix is read as 64 bits and cast to 16.\<close>

definition fetch_ss58_prefix :: "'e rpc_client \<Rightarrow> 'e rpc_error + u16" where
  "fetch_ss58_prefix request =
     (case request ''system_properties'' [] of
        Inl e \<Rightarrow> Inl (RequestFailed e)
      | Inr props \<Rightarrow>
          (case json_get ''ss58Format'' props of
             None \<Rightarrow> Inl (MissingField ''ss58Format'')
           | Some field \<Rightarrow>
               (case json_as_u64 field of
                  None \<Rightarrow> Inl (InvalidFormat ''ss58Format'')
                | Some n \<Rightarrow> Inr (ucast (of_nat n :: u64)))))"

text \<open>
  The runtime answers in hexadecimal with \<open>0x\<close>; \<open>hex_decode\<close> and the SCALE decoder of a
  vector of keys are arguments.
\<close>

definition runtime_api_autorities ::
  "'e rpc_client \<Rightarrow> (string \<Rightarrow> 'e + bytes) \<Rightarrow> (bytes \<Rightarrow> 'e + bytes list)
     \<Rightarrow> panic + ('e rpc_error + bytes list)" where
  "runtime_api_autorities request hex_decode scale_decode =
     (case request ''state_call'' [JString ''AuthorityDiscoveryApi_authorities'', JString ''0x''] of
        Inl e \<Rightarrow> Inr (Inl (RequestFailed e))
      | Inr j \<Rightarrow>
          (case json_as_str j of
             None \<Rightarrow> Inr (Inl (InvalidFormat ''state_call''))
           | Some raw \<Rightarrow>
               (case strip_prefix ''0x'' raw of
                  None \<Rightarrow> Inl (UnwrapNone ''Substrate API returned invalid hex'')
                | Some hex \<Rightarrow>
                    (case hex_decode hex of
                       Inl e \<Rightarrow> Inr (Inl (HexError e))
                     | Inr bs \<Rightarrow>
                         (case scale_decode bs of
                            Inl e \<Rightarrow> Inr (Inl (DecodeError e))
                          | Inr authorities \<Rightarrow> Inr (Inr authorities))))))"

section \<open>Properties\<close>

text \<open>
  Bootnodes are resolved without losing any: the call fails only if no bootnodes were given
  and the node could not provide them; otherwise the result contains every bootnode given (or
  the node's), and nothing but those and the published ones of the chain the URL names. When
  the published list was fetched, the result also contains all of it, without repetition.
\<close>

theorem resolve_bootnodes_complete:
  assumes "permuting iter_order"
    and "base = (if cli = [] then fetch_bootnodes_from_rpc request else Inr cli)"
  shows "case resolve_bootnodes request http_get iter_order u cli of
      Inl e \<Rightarrow> cli = [] \<and> base = Inl e
    | Inr nodes \<Rightarrow> (\<exists>given. base = Inr given \<and>
        (case map_option (fetch_bootnodes_from_chainspec http_get) (detect_chain_name u) of
           Some (Inr extra) \<Rightarrow> set nodes = set given \<union> set extra \<and> distinct nodes
         | _ \<Rightarrow> nodes = given))"
  using assms
  by (auto simp: resolve_bootnodes_def permuting_set permuting_distinct
      split: sum.splits option.splits if_splits)

theorem resolve_bootnodes_complete_witness:
  "resolve_bootnodes (\<lambda>_ _. Inl (1 :: nat))
      (\<lambda>_. Inr (JObject [(''bootNodes'', JArray [JString ''/a'', JNull, JString ''/b''])]))
      (\<lambda>xs. xs) \<lparr>url_host = Some ''kusama-rpc.polkadot.io'', url_path = ''/'', url_as_str = ''wss://kusama-rpc.polkadot.io/''\<rparr> [''/a'']
    = Inr [''/b'', ''/a'']"
proof -
  let ?http = "\<lambda>_. Inr (JObject [(''bootNodes'', JArray [JString ''/a'', JNull, JString ''/b''])])"
  let ?u = "\<lparr>url_host = Some ''kusama-rpc.polkadot.io'', url_path = ''/'', url_as_str = ''wss://kusama-rpc.polkadot.io/''\<rparr>"
  have "case resolve_bootnodes (\<lambda>_ _. Inl (1 :: nat)) ?http (\<lambda>xs. xs) ?u [''/a''] of
      Inl e \<Rightarrow> False | Inr nodes \<Rightarrow> True"
    using resolve_bootnodes_complete [of "\<lambda>xs. xs" "Inr [''/a'']" "[''/a'']" "\<lambda>_ _. Inl (1 :: nat)" ?http ?u]
    by (auto split: sum.splits)
  moreover have "detect_chain_name ?u = Some ''kusama''"
    by (simp add: detect_chain_name_def KNOWN_CHAINS_def str_contains_def)
  ultimately show ?thesis
    by (simp add: resolve_bootnodes_def fetch_bootnodes_from_chainspec_def spec_bootnodes_def
        map_filter_def set_extend_def)
qed

text \<open>
  A URL that names several chains is taken for the first of kusama, paseo, westend,
  polkadot: the name returned occurs in the host or the path, and none of the names before it
  does. In particular polkadot is returned only for a URL that mentions no kusama.
\<close>

theorem detect_chain_name_priority:
  "(detect_chain_name u = Some c \<longleftrightarrow>
      (\<exists>before after. KNOWN_CHAINS = before @ c # after
         \<and> (str_contains (case url_host u of Some h \<Rightarrow> h | None \<Rightarrow> []) c \<or> str_contains (url_path u) c)
         \<and> list_all (\<lambda>b. \<not> str_contains (case url_host u of Some h \<Rightarrow> h | None \<Rightarrow> []) b
              \<and> \<not> str_contains (url_path u) b) before))"
proof -
  let ?P = "\<lambda>chain. str_contains (case url_host u of Some h \<Rightarrow> h | None \<Rightarrow> []) chain
    \<or> str_contains (url_path u) chain"
  have split: "List.find P xs = Some c \<longleftrightarrow>
      (\<exists>before after. xs = before @ c # after \<and> P c \<and> list_all (\<lambda>b. \<not> P b) before)"
    if "distinct xs" for P and xs :: "string list"
  proof -
    have "List.find P xs = Some c \<longleftrightarrow> (\<exists>i<length xs. P (xs ! i) \<and> c = xs ! i \<and> (\<forall>j<i. \<not> P (xs ! j)))"
      by (rule find_Some_iff)
    also have "\<dots> \<longleftrightarrow> (\<exists>before after. xs = before @ c # after \<and> P c \<and> list_all (\<lambda>b. \<not> P b) before)"
    proof
      assume "\<exists>i<length xs. P (xs ! i) \<and> c = xs ! i \<and> (\<forall>j<i. \<not> P (xs ! j))"
      then obtain i where i: "i < length xs" "P (xs ! i)" "c = xs ! i" "\<forall>j<i. \<not> P (xs ! j)" by blast
      have "xs = take i xs @ c # drop (Suc i) xs"
        using i(1,3) by (simp add: id_take_nth_drop)
      moreover have "list_all (\<lambda>b. \<not> P b) (take i xs)"
        using i(1,4) by (auto simp: list_all_length)
      ultimately show "\<exists>before after. xs = before @ c # after \<and> P c \<and> list_all (\<lambda>b. \<not> P b) before"
        using i(2,3) by blast
    next
      assume "\<exists>before after. xs = before @ c # after \<and> P c \<and> list_all (\<lambda>b. \<not> P b) before"
      then obtain before after where "xs = before @ c # after" "P c" "list_all (\<lambda>b. \<not> P b) before"
        by blast
      then show "\<exists>i<length xs. P (xs ! i) \<and> c = xs ! i \<and> (\<forall>j<i. \<not> P (xs ! j))"
        by (intro exI [of _ "length before"]) (auto simp: nth_append list_all_length)
    qed
    finally show ?thesis .
  qed
  have "distinct KNOWN_CHAINS" by (simp add: KNOWN_CHAINS_def)
  from split [OF this, of ?P] show ?thesis
    by (simp add: detect_chain_name_def Let_def)
qed

lemma fetch_ss58_prefix_truncates:
  "json_get ''ss58Format'' props = Some (JNumber n) \<Longrightarrow> n < 2 ^ 64 \<Longrightarrow>
     request ''system_properties'' [] = Inr props \<Longrightarrow>
     fetch_ss58_prefix request = Inr (of_nat n)"
  by (simp add: fetch_ss58_prefix_def unsigned_of_nat take_bit_nat_eq_self)

end
