(* ===== verification/Connectivity.thy ===== *)
theory Connectivity
  imports Authority_Discovery
begin

text \<open>
  The connectivity checks of the \<open>authority-check\<close> command
  (\<open>commands/authority_check.rs\<close>, lines 25 to 289 and 393 to 499): the text and the
  endpoint of an address, the batched checks, the failing authorities and the global
  statistics. The text of a multiaddress (\<open>Display\<close> of the multiaddr crate) and the
  outcome of each TCP connection are arguments; the display of an IP address is that of the
  standard library. The checks of a batch finish in an order of their own, another argument.
\<close>

section \<open>Addresses as text\<close>

definition MAX_PARALLEL_CHECKS :: nat where
  "MAX_PARALLEL_CHECKS = 64"

text \<open>\<open>Ipv4Addr\<close> and \<open>Ipv6Addr\<close> as \<open>{}\<close> prints them.\<close>

definition show_ipv4 :: "ipv4_addr \<Rightarrow> string" where
  "show_ipv4 octets = join_with ''.'' (map (\<lambda>b. show_nat (unat b)) octets)"

definition hex_digit :: "nat \<Rightarrow> char" where
  "hex_digit n = char_of (if n < 10 then 48 + n else 87 + n)"

fun show_hex :: "nat \<Rightarrow> string" where
  "show_hex n = (if n < 16 then [hex_digit n] else show_hex (n div 16) @ [hex_digit (n mod 16)])"

declare show_hex.simps [simp del]

text \<open>The longest run of zero segments, the first of them: its start and its length.\<close>

fun zero_run :: "ipv6_addr \<Rightarrow> nat \<Rightarrow> nat \<times> nat \<Rightarrow> nat \<times> nat \<Rightarrow> nat \<times> nat" where
  "zero_run [] i current longest = longest"
| "zero_run (seg # segs) i current longest =
     (if seg = 0 then
        (let start = (if snd current = 0 then i else fst current);
             current' = (start, snd current + 1);
             longest' = (if snd longest < snd current' then current' else longest)
         in zero_run segs (i + 1) current' longest')
      else zero_run segs (i + 1) (0, 0) longest)"

definition show_segments :: "ipv6_addr \<Rightarrow> string" where
  "show_segments segs = join_with '':'' (map (\<lambda>seg. show_hex (unat seg)) segs)"

definition show_ipv6 :: "ipv6_addr \<Rightarrow> string" where
  "show_ipv6 segs =
     (if length segs = 8 \<and> take 6 segs = [0, 0, 0, 0, 0, 0xFFFF] then
        (let ab = segs ! 6; cd = segs ! 7
         in ''::ffff:'' @ show_ipv4 [ucast (drop_bit 8 ab), ucast ab, ucast (drop_bit 8 cd), ucast cd])
      else
        (case zero_run segs 0 (0, 0) (0, 0) of (start, len) \<Rightarrow>
           if 1 < len
           then show_segments (take start segs) @ ''::'' @ show_segments (drop (start + len) segs)
           else show_segments segs))"

definition shorten_address :: "('peer multiaddr \<Rightarrow> string) \<Rightarrow> 'peer multiaddr \<Rightarrow> string" where
  "shorten_address addr_text addr =
     (let s = addr_text addr
      in case str_rfind s ''/p2p/'' of Some i \<Rightarrow> take i s | None \<Rightarrow> s)"

definition extract_tcp_endpoint :: "'peer multiaddr \<Rightarrow> string option" where
  "extract_tcp_endpoint addr =
     (case addr of
        [] \<Rightarrow> None
      | first # rest \<Rightarrow>
          (let host =
             (case first of
                Ip4 ip \<Rightarrow> Some (show_ipv4 ip)
              | Ip6 ip \<Rightarrow> Some (''['' @ show_ipv6 ip @ '']'')
              | Dns host \<Rightarrow> Some host
              | Dns4 host \<Rightarrow> Some host
              | Dns6 host \<Rightarrow> Some host
              | _ \<Rightarrow> None)
           in case host of
                None \<Rightarrow> None
              | Some h \<Rightarrow>
                  (case rest of
                     Tcp port # _ \<Rightarrow> Some (h @ '':'' @ show_nat (unat port))
                   | _ \<Rightarrow> None)))"

section \<open>Checks\<close>

text \<open>How a connection attempt under a timeout ends.\<close>

datatype tcp_outcome = Connected | ConnectError string | TimedOut

definition check_tcp_reachable :: "tcp_outcome \<Rightarrow> string + unit" where
  "check_tcp_reachable outcome =
     (case outcome of
        Connected \<Rightarrow> Inr ()
      | ConnectError e \<Rightarrow> Inl e
      | TimedOut \<Rightarrow> Inl ''timeout'')"

datatype address_result = CheckOk | CheckFailed string | CheckSkipped string

record 'peer address_check =
  ac_short :: string
  ac_public :: bool
  ac_result :: address_result
  ac_dial :: "dial_outcome option"
  ac_full :: "'peer multiaddr option"

text \<open>
  One check. \<open>connect k endpoint\<close> is the outcome of the connection attempt of the \<open>k\<close>-th
  check.
\<close>

definition check_address ::
  "('peer multiaddr \<Rightarrow> string) \<Rightarrow> (nat \<Rightarrow> string \<Rightarrow> tcp_outcome)
     \<Rightarrow> nat \<times> nat \<times> 'peer multiaddr \<times> bool \<Rightarrow> nat \<times> 'peer address_check" where
  "check_address addr_text connect = (\<lambda>(k, idx, addr, public).
     (idx,
      \<lparr>ac_short = shorten_address addr_text addr, ac_public = public,
       ac_result =
         (if \<not> public then CheckSkipped ''private''
          else
            (case extract_tcp_endpoint addr of
               Some tcp_endpoint \<Rightarrow>
                 (case check_tcp_reachable (connect k tcp_endpoint) of
                    Inr () \<Rightarrow> CheckOk
                  | Inl e \<Rightarrow> CheckFailed e)
             | None \<Rightarrow> CheckSkipped ''unsupported transport'')),
       ac_dial = None, ac_full = Some addr\<rparr>))"

definition group_check ::
  "nat \<times> 'peer address_check \<Rightarrow> (nat, 'peer address_check list) hash_map
     \<Rightarrow> (nat, 'peer address_check list) hash_map" where
  "group_check = (\<lambda>(idx, check). map_entry idx (\<lambda>known. known @ [check]) [check])"

text \<open>
  The loop over the batches: what is left, the groups, the number checked. \<open>finish k\<close> orders
  the results of the batch that starts at the \<open>k\<close>-th check by the time they finish. The last
  component lists the numbers shown as progress.
\<close>

function check_batches ::
  "('peer multiaddr \<Rightarrow> string) \<Rightarrow> (nat \<Rightarrow> string \<Rightarrow> tcp_outcome)
     \<Rightarrow> (nat \<Rightarrow> (nat \<times> 'peer address_check) list \<Rightarrow> (nat \<times> 'peer address_check) list)
     \<Rightarrow> (nat \<times> 'peer multiaddr \<times> bool) list \<Rightarrow> (nat, 'peer address_check list) hash_map \<Rightarrow> nat
     \<Rightarrow> (nat, 'peer address_check list) hash_map \<times> nat list" where
  "check_batches addr_text connect finish checks grouped checked =
     (if checks = [] then (grouped, [])
      else
        (let batch_end = min (length checks) MAX_PARALLEL_CHECKS;
             batch = take batch_end checks;
             batch_results =
               finish checked (map (check_address addr_text connect) (enumerate checked batch));
             checked' = checked + length batch_results
         in case check_batches addr_text connect finish (drop batch_end checks)
                   (fold group_check batch_results grouped) checked' of
              (grouped', progress) \<Rightarrow> (grouped', checked' # progress)))"
  by pat_completeness auto
termination
  by (relation "measure (\<lambda>(_, _, _, checks, _, _). length checks)")
    (auto simp: MAX_PARALLEL_CHECKS_def neq_Nil_conv)

declare check_batches.simps [simp del]

definition run_connectivity_checks ::
  "('peer multiaddr \<Rightarrow> string) \<Rightarrow> (nat \<Rightarrow> string \<Rightarrow> tcp_outcome)
     \<Rightarrow> (nat \<Rightarrow> (nat \<times> 'peer address_check) list \<Rightarrow> (nat \<times> 'peer address_check) list)
     \<Rightarrow> (nat \<times> 'peer multiaddr \<times> bool) list
     \<Rightarrow> (nat, 'peer address_check list) hash_map \<times> nat list" where
  "run_connectivity_checks addr_text connect finish checks =
     check_batches addr_text connect finish checks [] 0"

section \<open>Authorities\<close>

record 'peer authority_result =
  ar_ss58 :: string
  ar_stash :: "string option"
  ar_identity :: "string option"
  ar_peer_id :: "string option"
  ar_agent :: "string option"
  ar_has_dht :: bool
  ar_addresses :: "'peer address_check list"

definition is_skipped :: "address_result \<Rightarrow> bool" where
  "is_skipped r = (case r of CheckSkipped _ \<Rightarrow> True | _ \<Rightarrow> False)"

definition is_failed :: "address_result \<Rightarrow> bool" where
  "is_failed r = (case r of CheckFailed _ \<Rightarrow> True | _ \<Rightarrow> False)"

text \<open>The public addresses that were tested.\<close>

definition public_tested :: "'peer authority_result \<Rightarrow> 'peer address_check list" where
  "public_tested r = filter (\<lambda>a. ac_public a \<and> \<not> is_skipped (ac_result a)) (ar_addresses r)"

definition is_authority_failing :: "'peer authority_result \<Rightarrow> bool" where
  "is_authority_failing r =
     (if \<not> ar_has_dht r then True
      else
        (let public = public_tested r
         in if public = [] then True else list_ex (\<lambda>a. is_failed (ac_result a)) public))"

definition normalize_agent_version :: "string \<Rightarrow> string" where
  "normalize_agent_version version =
     (case str_find version ''/v'' of
        None \<Rightarrow> version
      | Some v_pos \<Rightarrow>
          (let after_v = drop (v_pos + 2) version;
               stop =
                 (case str_find after_v ''-'' of
                    Some i \<Rightarrow> i
                  | None \<Rightarrow>
                      (case str_find after_v '' '' of Some i \<Rightarrow> i | None \<Rightarrow> length after_v));
               base = take (v_pos + 2 + stop) version;
               backend = (if str_contains version ''(litep2p)'' then '' (litep2p)'' else [])
           in base @ backend))"

section \<open>Statistics\<close>

record global_stats =
  gs_total_authorities :: nat
  gs_with_identity :: nat
  gs_with_dht_records :: nat
  gs_with_peer_id :: nat
  gs_identified :: nat
  gs_total_addresses :: nat
  gs_public_addresses :: nat
  gs_private_addresses :: nat
  gs_reachable_public :: nat
  gs_unreachable_public :: nat
  gs_reachable_authorities :: nat
  gs_fully_reachable :: nat
  gs_agent_versions :: "(string, nat) hash_map"
  gs_dial_success :: nat
  gs_dial_failed :: nat
  gs_dial_pending :: nat

definition count_address :: "'peer address_check \<Rightarrow> global_stats \<Rightarrow> global_stats" where
  "count_address a st =
     (let st1 = st\<lparr>gs_total_addresses := gs_total_addresses st + 1\<rparr>;
          st2 =
            (if ac_public a then
               (let sp = st1\<lparr>gs_public_addresses := gs_public_addresses st1 + 1\<rparr>
                in case ac_result a of
                     CheckOk \<Rightarrow> sp\<lparr>gs_reachable_public := gs_reachable_public sp + 1\<rparr>
                   | CheckFailed _ \<Rightarrow> sp\<lparr>gs_unreachable_public := gs_unreachable_public sp + 1\<rparr>
                   | CheckSkipped _ \<Rightarrow> sp)
             else st1\<lparr>gs_private_addresses := gs_private_addresses st1 + 1\<rparr>)
      in case ac_dial a of
           Some DialSuccess \<Rightarrow> st2\<lparr>gs_dial_success := gs_dial_success st2 + 1\<rparr>
         | Some (DialFailed _) \<Rightarrow> st2\<lparr>gs_dial_failed := gs_dial_failed st2 + 1\<rparr>
         | None \<Rightarrow> st2\<lparr>gs_dial_pending := gs_dial_pending st2 + 1\<rparr>)"

definition count_authority :: "'peer authority_result \<Rightarrow> global_stats \<Rightarrow> global_stats" where
  "count_authority r st =
     (let st1 = (if ar_identity r \<noteq> None then st\<lparr>gs_with_identity := gs_with_identity st + 1\<rparr> else st);
          st2 = (if ar_has_dht r then st1\<lparr>gs_with_dht_records := gs_with_dht_records st1 + 1\<rparr> else st1);
          st3 = (if ar_peer_id r \<noteq> None then st2\<lparr>gs_with_peer_id := gs_with_peer_id st2 + 1\<rparr> else st2);
          st4 =
            (case ar_agent r of
               Some v \<Rightarrow>
                 st3\<lparr>gs_identified := gs_identified st3 + 1,
                     gs_agent_versions :=
                       map_entry (normalize_agent_version v) Suc 1 (gs_agent_versions st3)\<rparr>
             | None \<Rightarrow> st3);
          any_ok = list_ex (\<lambda>a. ac_result a = CheckOk) (ar_addresses r);
          st5 = (if any_ok then st4\<lparr>gs_reachable_authorities := gs_reachable_authorities st4 + 1\<rparr>
                 else st4);
          pub_tested = public_tested r;
          all_pub_ok = (pub_tested \<noteq> [] \<and> list_all (\<lambda>a. ac_result a = CheckOk) pub_tested);
          st6 = (if all_pub_ok then st5\<lparr>gs_fully_reachable := gs_fully_reachable st5 + 1\<rparr> else st5)
      in fold count_address (ar_addresses r) st6)"

definition no_stats :: "nat \<Rightarrow> global_stats" where
  "no_stats n =
     \<lparr>gs_total_authorities = n, gs_with_identity = 0, gs_with_dht_records = 0,
      gs_with_peer_id = 0, gs_identified = 0, gs_total_addresses = 0, gs_public_addresses = 0,
      gs_private_addresses = 0, gs_reachable_public = 0, gs_unreachable_public = 0,
      gs_reachable_authorities = 0, gs_fully_reachable = 0, gs_agent_versions = [],
      gs_dial_success = 0, gs_dial_failed = 0, gs_dial_pending = 0\<rparr>"

definition compute_global_stats :: "'peer authority_result list \<Rightarrow> global_stats" where
  "compute_global_stats results = fold count_authority results (no_stats (length results))"

section \<open>The checks\<close>

definition group_of :: "nat \<Rightarrow> (nat, 'peer address_check list) hash_map \<Rightarrow> 'peer address_check list" where
  "group_of idx grouped = (case map_of grouped idx of Some checks \<Rightarrow> checks | None \<Rightarrow> [])"

lemma group_of_empty [simp]: "group_of idx [] = []"
  by (simp add: group_of_def)

lemma group_of_group_check [simp]:
  "group_of idx (group_check rc grouped) =
     (if idx = fst rc then group_of idx grouped @ [snd rc] else group_of idx grouped)"
  by (cases rc) (simp add: group_of_def group_check_def map_of_map_entry split: option.splits)

lemma keys_group_check [simp]:
  "fst ` set (group_check rc grouped) = insert (fst rc) (fst ` set grouped)"
  by (cases rc) (simp add: group_check_def keys_map_entry)

lemma group_of_fold:
  "group_of idx (fold group_check rcs grouped) =
     group_of idx grouped @ map snd (filter (\<lambda>rc. fst rc = idx) rcs)"
  by (induction rcs arbitrary: grouped) auto

lemma keys_fold_group_check:
  "fst ` set (fold group_check rcs grouped) = fst ` set grouped \<union> fst ` set rcs"
  by (induction rcs arbitrary: grouped) auto

text \<open>What the checks of one index come to, and what the loop adds to the groups.\<close>

abbreviation checks_of ::
  "('peer multiaddr \<Rightarrow> string) \<Rightarrow> (nat \<Rightarrow> string \<Rightarrow> tcp_outcome) \<Rightarrow> nat
     \<Rightarrow> (nat \<times> 'peer multiaddr \<times> bool) list \<Rightarrow> nat \<Rightarrow> 'peer address_check list" where
  "checks_of addr_text connect k checks idx \<equiv>
     map snd (filter (\<lambda>rc. fst rc = idx) (map (check_address addr_text connect) (enumerate k checks)))"

lemma fst_check_address [simp]: "fst (check_address addr_text connect kc) = fst (snd kc)"
  by (cases kc) (auto simp: check_address_def)

lemma checks_of_split:
  "checks_of t c k checks idx = checks_of t c k (take n checks) idx
     @ checks_of t c (k + length (take n checks)) (drop n checks) idx"
  using enumerate_append_eq [of k "take n checks" "drop n checks"] by simp

lemma permuting_filter_mset:
  "permuting p \<Longrightarrow> mset (map f (filter P (p xs))) = mset (map f (filter P xs))"
  by (simp add: permuting_def)

lemma check_batches_step:
  assumes "checks \<noteq> []"
  shows "check_batches t c fin checks grouped k =
    (let batch = take MAX_PARALLEL_CHECKS checks;
         rs = fin k (map (check_address t c) (enumerate k batch))
     in map_prod id ((#) (k + length rs))
          (check_batches t c fin (drop MAX_PARALLEL_CHECKS checks) (fold group_check rs grouped)
             (k + length rs)))"
  using assms
  by (subst check_batches.simps)
    (cases "length checks \<le> MAX_PARALLEL_CHECKS"; simp add: Let_def split: prod.splits)

lemma check_batches_exact:
  assumes "\<And>k. permuting (fin k)"
  shows "mset (group_of idx (fst (check_batches t c fin checks grouped k))) =
      mset (group_of idx grouped) + mset (checks_of t c k checks idx)
    \<and> fst ` set (fst (check_batches t c fin checks grouped k)) =
      fst ` set grouped \<union> fst ` set checks"
proof (induction checks arbitrary: grouped k rule: length_induct)
  case (1 checks)
  show ?case
  proof (cases "checks = []")
    case True
    then show ?thesis by (simp add: check_batches.simps)
  next
    case False
    define batch where "batch = take MAX_PARALLEL_CHECKS checks"
    define rest where "rest = drop MAX_PARALLEL_CHECKS checks"
    define rs where "rs = fin k (map (check_address t c) (enumerate k batch))"
    have len: "length rs = length batch"
      by (simp add: rs_def permuting_length [OF assms])
    have shorter: "length rest < length checks"
      using False by (auto simp: rest_def MAX_PARALLEL_CHECKS_def neq_Nil_conv)
    have step: "fst (check_batches t c fin checks grouped k) =
        fst (check_batches t c fin rest (fold group_check rs grouped) (k + length batch))"
      using check_batches_step [OF False, of t c fin grouped k]
      by (simp add: Let_def batch_def [symmetric] rest_def [symmetric] rs_def [symmetric] len)
    have grp: "mset (group_of idx (fold group_check rs grouped)) =
        mset (group_of idx grouped) + mset (checks_of t c k batch idx)"
      using permuting_filter_mset [OF assms, of snd "\<lambda>rc. fst rc = idx" k]
      by (simp add: group_of_fold rs_def)
    have keys_rs: "fst ` set rs = fst ` set batch"
      by (simp add: rs_def permuting_set [OF assms] image_image)
        (metis set_map map_snd_enumerate image_image)
    have sets: "fst ` set checks = fst ` set batch \<union> fst ` set rest"
      by (metis append_take_drop_id batch_def rest_def image_Un set_append)
    have split: "mset (checks_of t c k checks idx) =
        mset (checks_of t c k batch idx) + mset (checks_of t c (k + length batch) rest idx)"
      using checks_of_split [of idx t c k checks MAX_PARALLEL_CHECKS]
      by (simp only: batch_def rest_def mset_append)
    note ih = 1 [rule_format, OF shorter, of "fold group_check rs grouped" "k + length batch"]
    show ?thesis
      by (simp only: step ih grp split sets keys_fold_group_check keys_rs Un_assoc add.assoc simp_thms)
  qed
qed
lemma wf_check_batches:
  "wf_map grouped \<Longrightarrow> wf_map (fst (check_batches t c fin checks grouped k))"
proof (induction t c fin checks grouped k rule: check_batches.induct)
  case (1 t c fin checks grouped k)
  have wf_fold: "wf_map m \<Longrightarrow> wf_map (fold group_check rcs m)" for rcs :: "(nat \<times> 'a address_check) list" and m
    by (induction rcs arbitrary: m) (auto simp: group_check_def)
  show ?case
  proof (cases "checks = []")
    case True
    with 1(2) show ?thesis by (simp add: check_batches.simps)
  next
    case False
    note ih = 1(1) [OF False refl refl refl refl wf_fold [OF 1(2)]]
    then show ?thesis
      using False by (subst check_batches.simps) (auto simp: Let_def split: prod.splits)
  qed
qed

lemma check_batches_progress:
  assumes "\<And>k. permuting (fin k)" and "checks \<noteq> []"
  shows "last (snd (check_batches t c fin checks grouped k)) = k + length checks
    \<and> snd (check_batches t c fin checks grouped k) \<noteq> []"
  using assms(2)
proof (induction checks arbitrary: grouped k rule: length_induct)
  case (1 checks)
  define rest where "rest = drop MAX_PARALLEL_CHECKS checks"
  have len: "length (fin k (map (check_address t c) (enumerate k b))) = length b" for b
    by (simp add: permuting_length [OF assms(1)])
  show ?case
  proof (cases "rest = []")
    case True
    with 1(2) show ?thesis
      by (simp add: check_batches_step Let_def rest_def [symmetric] check_batches.simps [of _ _ _ "[]"] len)
        (simp add: rest_def)
  next
    case False
    then have shorter: "length rest < length checks" and
      total: "k + length (take MAX_PARALLEL_CHECKS checks) + length rest = k + length checks"
      by (auto simp: rest_def MAX_PARALLEL_CHECKS_def)
    show ?thesis
      using 1(1) [rule_format, OF shorter False] 1(2)
      by (simp add: check_batches_step Let_def rest_def [symmetric] len total [symmetric])
  qed
qed


text \<open>
  C19. The checks run in batches to the end, each address is checked once, with the outcome its
  kind and its connection attempt give, and the results come back grouped by the index of their
  authority, for every order in which the checks of a batch finish; the progress shown ends
  with their number.
\<close>

theorem connectivity_checks_exact:
  assumes "\<forall>k. permuting (finish k)"
  shows "case run_connectivity_checks addr_text connect finish checks of (grouped, progress) \<Rightarrow>
    wf_map grouped \<and> fst ` set grouped = fst ` set checks
    \<and> (\<forall>idx. mset (group_of idx grouped) =
          image_mset (\<lambda>kc. snd (check_address addr_text connect kc))
            (filter_mset (\<lambda>kc. fst (snd kc) = idx) (mset (enumerate 0 checks))))
    \<and> (checks \<noteq> [] \<longrightarrow> last progress = length checks)"
proof -
  from assms have perm: "\<And>k. permuting (finish k)" by blast
  note exact = check_batches_exact [of finish, OF perm, of _ addr_text connect checks "[]" 0]
  have grouped: "mset (group_of idx (fst (run_connectivity_checks addr_text connect finish checks))) =
      image_mset (\<lambda>kc. snd (check_address addr_text connect kc))
        (filter_mset (\<lambda>kc. fst (snd kc) = idx) (mset (enumerate 0 checks)))" for idx
    using exact [of idx]
    by (simp add: run_connectivity_checks_def filter_mset_image_mset image_mset.compositionality o_def)
  show ?thesis
    using grouped exact [of 0, THEN conjunct2] wf_check_batches [of "[]" addr_text connect finish checks 0]
      check_batches_progress [of finish checks addr_text connect "[]" 0, OF perm]
    by (simp add: run_connectivity_checks_def case_prod_beta)
qed

theorem connectivity_checks_exact_witness:
  "(\<forall>k. permuting ((\<lambda>_. rev) k))
   \<and> (case run_connectivity_checks (\<lambda>_. []) (\<lambda>_ _. Connected) (\<lambda>_. rev)
           [(0, [Dns ''a'', Tcp 1 :: nat protocol], True), (1, [], False)] of (grouped, progress) \<Rightarrow>
        wf_map grouped \<and> last progress = 2)"
  using connectivity_checks_exact
    [of "\<lambda>_. rev" "[(0, [Dns ''a'', Tcp 1 :: nat protocol], True), (1, [], False)]"
      "\<lambda>_. []" "\<lambda>_ _. Connected"]
  by (auto split: prod.splits)

section \<open>Statistics are consistent\<close>

lemma count_address_counters [simp]:
  "gs_total_authorities (count_address a st) = gs_total_authorities st"
  "gs_with_identity (count_address a st) = gs_with_identity st"
  "gs_with_dht_records (count_address a st) = gs_with_dht_records st"
  "gs_with_peer_id (count_address a st) = gs_with_peer_id st"
  "gs_identified (count_address a st) = gs_identified st"
  "gs_reachable_authorities (count_address a st) = gs_reachable_authorities st"
  "gs_fully_reachable (count_address a st) = gs_fully_reachable st"
  "gs_agent_versions (count_address a st) = gs_agent_versions st"
  "gs_total_addresses (count_address a st) = Suc (gs_total_addresses st)"
  "gs_public_addresses (count_address a st) =
     gs_public_addresses st + (if ac_public a then 1 else 0)"
  "gs_private_addresses (count_address a st) =
     gs_private_addresses st + (if ac_public a then 0 else 1)"
  "gs_reachable_public (count_address a st) =
     gs_reachable_public st + (if ac_public a \<and> ac_result a = CheckOk then 1 else 0)"
  "gs_unreachable_public (count_address a st) =
     gs_unreachable_public st + (if ac_public a \<and> is_failed (ac_result a) then 1 else 0)"
  "gs_dial_success (count_address a st) =
     gs_dial_success st + (if ac_dial a = Some DialSuccess then 1 else 0)"
  "gs_dial_failed (count_address a st) =
     gs_dial_failed st + (if ac_dial a \<noteq> None \<and> ac_dial a \<noteq> Some DialSuccess then 1 else 0)"
  "gs_dial_pending (count_address a st) =
     gs_dial_pending st + (if ac_dial a = None then 1 else 0)"
  by (auto simp: count_address_def is_failed_def Let_def
      split: address_result.splits option.splits dial_outcome.splits)

text \<open>A counter that no element touches.\<close>

lemma fold_kept:
  assumes "\<And>x s. f (step x s) = f s"
  shows "f (fold step xs s) = f s"
  using assms by (induction xs arbitrary: s) auto

lemma count_addresses_kept [simp]:
  "gs_total_authorities (fold count_address as st) = gs_total_authorities st"
  "gs_with_identity (fold count_address as st) = gs_with_identity st"
  "gs_with_dht_records (fold count_address as st) = gs_with_dht_records st"
  "gs_with_peer_id (fold count_address as st) = gs_with_peer_id st"
  "gs_identified (fold count_address as st) = gs_identified st"
  "gs_reachable_authorities (fold count_address as st) = gs_reachable_authorities st"
  "gs_fully_reachable (fold count_address as st) = gs_fully_reachable st"
  "gs_agent_versions (fold count_address as st) = gs_agent_versions st"
  by (rule fold_kept, simp)+

lemma count_addresses [simp]:
  "gs_total_addresses (fold count_address as st) = gs_total_addresses st + length as"
  "gs_public_addresses (fold count_address as st) =
     gs_public_addresses st + length (filter ac_public as)"
  "gs_private_addresses (fold count_address as st) =
     gs_private_addresses st + length (filter (\<lambda>a. \<not> ac_public a) as)"
  "gs_reachable_public (fold count_address as st) =
     gs_reachable_public st + length (filter (\<lambda>a. ac_public a \<and> ac_result a = CheckOk) as)"
  "gs_unreachable_public (fold count_address as st) = gs_unreachable_public st
     + length (filter (\<lambda>a. ac_public a \<and> is_failed (ac_result a)) as)"
  "gs_dial_success (fold count_address as st) =
     gs_dial_success st + length (filter (\<lambda>a. ac_dial a = Some DialSuccess) as)"
  "gs_dial_failed (fold count_address as st) = gs_dial_failed st
     + length (filter (\<lambda>a. ac_dial a \<noteq> None \<and> ac_dial a \<noteq> Some DialSuccess) as)"
  "gs_dial_pending (fold count_address as st) =
     gs_dial_pending st + length (filter (\<lambda>a. ac_dial a = None) as)"
proof -
  show "gs_total_addresses (fold count_address as st) = gs_total_addresses st + length as"
    by (induction as arbitrary: st) auto
  show "gs_public_addresses (fold count_address as st) =
     gs_public_addresses st + length (filter ac_public as)"
    by (induction as arbitrary: st) auto
  show "gs_private_addresses (fold count_address as st) =
     gs_private_addresses st + length (filter (\<lambda>a. \<not> ac_public a) as)"
    by (induction as arbitrary: st) auto
  show "gs_reachable_public (fold count_address as st) =
     gs_reachable_public st + length (filter (\<lambda>a. ac_public a \<and> ac_result a = CheckOk) as)"
    by (induction as arbitrary: st) auto
  show "gs_unreachable_public (fold count_address as st) = gs_unreachable_public st
     + length (filter (\<lambda>a. ac_public a \<and> is_failed (ac_result a)) as)"
    by (induction as arbitrary: st) auto
  show "gs_dial_success (fold count_address as st) =
     gs_dial_success st + length (filter (\<lambda>a. ac_dial a = Some DialSuccess) as)"
    by (induction as arbitrary: st) auto
  show "gs_dial_failed (fold count_address as st) = gs_dial_failed st
     + length (filter (\<lambda>a. ac_dial a \<noteq> None \<and> ac_dial a \<noteq> Some DialSuccess) as)"
    by (induction as arbitrary: st) auto
  show "gs_dial_pending (fold count_address as st) =
     gs_dial_pending st + length (filter (\<lambda>a. ac_dial a = None) as)"
    by (induction as arbitrary: st) auto
qed

definition all_public_ok :: "'peer authority_result \<Rightarrow> bool" where
  "all_public_ok r \<longleftrightarrow>
     public_tested r \<noteq> [] \<and> list_all (\<lambda>a. ac_result a = CheckOk) (public_tested r)"

lemma not_failing_iff: "\<not> is_authority_failing r \<longleftrightarrow> ar_has_dht r \<and> all_public_ok r"
proof -
  have "is_failed (ac_result a) \<longleftrightarrow> ac_result a \<noteq> CheckOk" if "a \<in> set (public_tested r)" for a
    using that by (auto simp: public_tested_def is_skipped_def is_failed_def split: address_result.splits)
  then show ?thesis
    by (auto simp: is_authority_failing_def all_public_ok_def Let_def list_ex_iff list_all_iff)
qed

lemma all_public_ok_reached:
  assumes "all_public_ok r"
  shows "list_ex (\<lambda>a. ac_result a = CheckOk) (ar_addresses r)"
proof -
  from assms have "hd (public_tested r) \<in> set (public_tested r)"
    by (simp add: all_public_ok_def)
  with assms show ?thesis
    by (auto simp: all_public_ok_def list_all_iff list_ex_iff public_tested_def)
qed

lemma count_authority_counters:
  "gs_total_authorities (count_authority r st) = gs_total_authorities st"
  "gs_with_identity (count_authority r st) =
     gs_with_identity st + (if ar_identity r \<noteq> None then 1 else 0)"
  "gs_with_dht_records (count_authority r st) =
     gs_with_dht_records st + (if ar_has_dht r then 1 else 0)"
  "gs_with_peer_id (count_authority r st) =
     gs_with_peer_id st + (if ar_peer_id r \<noteq> None then 1 else 0)"
  "gs_identified (count_authority r st) =
     gs_identified st + (if ar_agent r \<noteq> None then 1 else 0)"
  "gs_reachable_authorities (count_authority r st) = gs_reachable_authorities st
     + (if list_ex (\<lambda>a. ac_result a = CheckOk) (ar_addresses r) then 1 else 0)"
  "gs_fully_reachable (count_authority r st) =
     gs_fully_reachable st + (if all_public_ok r then 1 else 0)"
  "gs_agent_versions (count_authority r st) =
     (case ar_agent r of
        Some v \<Rightarrow> map_entry (normalize_agent_version v) Suc 1 (gs_agent_versions st)
      | None \<Rightarrow> gs_agent_versions st)"
  by (simp_all add: count_authority_def all_public_ok_def Let_def split: option.splits)

lemma count_authority_addresses:
  "gs_total_addresses (count_authority r st) = gs_total_addresses st + length (ar_addresses r)"
  "gs_public_addresses (count_authority r st) =
     gs_public_addresses st + length (filter ac_public (ar_addresses r))"
  "gs_private_addresses (count_authority r st) =
     gs_private_addresses st + length (filter (\<lambda>a. \<not> ac_public a) (ar_addresses r))"
  "gs_reachable_public (count_authority r st) = gs_reachable_public st
     + length (filter (\<lambda>a. ac_public a \<and> ac_result a = CheckOk) (ar_addresses r))"
  "gs_unreachable_public (count_authority r st) = gs_unreachable_public st
     + length (filter (\<lambda>a. ac_public a \<and> is_failed (ac_result a)) (ar_addresses r))"
  "gs_dial_success (count_authority r st) = gs_dial_success st
     + length (filter (\<lambda>a. ac_dial a = Some DialSuccess) (ar_addresses r))"
  "gs_dial_failed (count_authority r st) = gs_dial_failed st
     + length (filter (\<lambda>a. ac_dial a \<noteq> None \<and> ac_dial a \<noteq> Some DialSuccess) (ar_addresses r))"
  "gs_dial_pending (count_authority r st) = gs_dial_pending st
     + length (filter (\<lambda>a. ac_dial a = None) (ar_addresses r))"
  by (simp_all add: count_authority_def Let_def split: option.splits)


text \<open>The counters after all results: how many results or addresses count.\<close>

lemma count_authorities:
  "gs_total_authorities (fold count_authority rs st) = gs_total_authorities st"
  "gs_with_identity (fold count_authority rs st) =
     gs_with_identity st + length (filter (\<lambda>r. ar_identity r \<noteq> None) rs)"
  "gs_with_dht_records (fold count_authority rs st) =
     gs_with_dht_records st + length (filter ar_has_dht rs)"
  "gs_with_peer_id (fold count_authority rs st) =
     gs_with_peer_id st + length (filter (\<lambda>r. ar_peer_id r \<noteq> None) rs)"
  "gs_identified (fold count_authority rs st) =
     gs_identified st + length (filter (\<lambda>r. ar_agent r \<noteq> None) rs)"
  "gs_reachable_authorities (fold count_authority rs st) = gs_reachable_authorities st
     + length (filter (\<lambda>r. list_ex (\<lambda>a. ac_result a = CheckOk) (ar_addresses r)) rs)"
  "gs_fully_reachable (fold count_authority rs st) =
     gs_fully_reachable st + length (filter all_public_ok rs)"
proof -
  show "gs_total_authorities (fold count_authority rs st) = gs_total_authorities st"
    by (induction rs arbitrary: st) (auto simp: count_authority_counters)
  show "gs_with_identity (fold count_authority rs st) =
     gs_with_identity st + length (filter (\<lambda>r. ar_identity r \<noteq> None) rs)"
    by (induction rs arbitrary: st) (auto simp: count_authority_counters)
  show "gs_with_dht_records (fold count_authority rs st) =
     gs_with_dht_records st + length (filter ar_has_dht rs)"
    by (induction rs arbitrary: st) (auto simp: count_authority_counters)
  show "gs_with_peer_id (fold count_authority rs st) =
     gs_with_peer_id st + length (filter (\<lambda>r. ar_peer_id r \<noteq> None) rs)"
    by (induction rs arbitrary: st) (auto simp: count_authority_counters)
  show "gs_identified (fold count_authority rs st) =
     gs_identified st + length (filter (\<lambda>r. ar_agent r \<noteq> None) rs)"
    by (induction rs arbitrary: st) (auto simp: count_authority_counters)
  show "gs_reachable_authorities (fold count_authority rs st) = gs_reachable_authorities st
     + length (filter (\<lambda>r. list_ex (\<lambda>a. ac_result a = CheckOk) (ar_addresses r)) rs)"
    by (induction rs arbitrary: st) (auto simp: count_authority_counters)
  show "gs_fully_reachable (fold count_authority rs st) =
     gs_fully_reachable st + length (filter all_public_ok rs)"
    by (induction rs arbitrary: st) (auto simp: count_authority_counters)
qed

abbreviation all_addresses :: "'peer authority_result list \<Rightarrow> 'peer address_check list" where
  "all_addresses rs \<equiv> concat (map ar_addresses rs)"

lemma count_authorities_addresses:
  "gs_total_addresses (fold count_authority rs st) = gs_total_addresses st + length (all_addresses rs)
   \<and> gs_public_addresses (fold count_authority rs st) =
       gs_public_addresses st + length (filter ac_public (all_addresses rs))
   \<and> gs_private_addresses (fold count_authority rs st) =
       gs_private_addresses st + length (filter (\<lambda>a. \<not> ac_public a) (all_addresses rs))
   \<and> gs_reachable_public (fold count_authority rs st) = gs_reachable_public st
       + length (filter (\<lambda>a. ac_public a \<and> ac_result a = CheckOk) (all_addresses rs))
   \<and> gs_unreachable_public (fold count_authority rs st) = gs_unreachable_public st
       + length (filter (\<lambda>a. ac_public a \<and> is_failed (ac_result a)) (all_addresses rs))
   \<and> gs_dial_success (fold count_authority rs st) = gs_dial_success st
       + length (filter (\<lambda>a. ac_dial a = Some DialSuccess) (all_addresses rs))
   \<and> gs_dial_failed (fold count_authority rs st) = gs_dial_failed st
       + length (filter (\<lambda>a. ac_dial a \<noteq> None \<and> ac_dial a \<noteq> Some DialSuccess) (all_addresses rs))
   \<and> gs_dial_pending (fold count_authority rs st) = gs_dial_pending st
       + length (filter (\<lambda>a. ac_dial a = None) (all_addresses rs))"
  by (induction rs arbitrary: st) (simp_all add: count_authority_addresses)

lemma gs_agent_versions_counts:
  "map_of (gs_agent_versions (fold count_authority rs st)) v =
     (let n = length (filter (\<lambda>r. map_option normalize_agent_version (ar_agent r) = Some v) rs)
      in case map_of (gs_agent_versions st) v of
           Some k \<Rightarrow> Some (k + n)
         | None \<Rightarrow> if n = 0 then None else Some n)"
proof (induction rs arbitrary: st)
  case Nil
  then show ?case by (simp split: option.splits)
next
  case (Cons r rs)
  show ?case
    by (simp add: Cons.IH count_authority_counters Let_def map_of_map_entry split: option.splits)
qed

text \<open>Every address is one of the kinds counted.\<close>

lemma address_partitions:
  "length (filter ac_public as) + length (filter (\<lambda>a. \<not> ac_public a) as) = length as"
  "length (filter (\<lambda>a. ac_dial a = Some DialSuccess) as)
     + length (filter (\<lambda>a. ac_dial a \<noteq> None \<and> ac_dial a \<noteq> Some DialSuccess) as)
     + length (filter (\<lambda>a. ac_dial a = None) as) = length as"
  "length (filter (\<lambda>a. ac_public a \<and> ac_result a = CheckOk) as)
     + length (filter (\<lambda>a. ac_public a \<and> is_failed (ac_result a)) as)
     + length (filter (\<lambda>a. ac_public a \<and> is_skipped (ac_result a)) as) = length (filter ac_public as)"
proof -
  show "length (filter ac_public as) + length (filter (\<lambda>a. \<not> ac_public a) as) = length as"
    by (rule sum_length_filter_compl)
  show "length (filter (\<lambda>a. ac_dial a = Some DialSuccess) as)
     + length (filter (\<lambda>a. ac_dial a \<noteq> None \<and> ac_dial a \<noteq> Some DialSuccess) as)
     + length (filter (\<lambda>a. ac_dial a = None) as) = length as"
    by (induction as) auto
  show "length (filter (\<lambda>a. ac_public a \<and> ac_result a = CheckOk) as)
     + length (filter (\<lambda>a. ac_public a \<and> is_failed (ac_result a)) as)
     + length (filter (\<lambda>a. ac_public a \<and> is_skipped (ac_result a)) as) = length (filter ac_public as)"
    by (induction as) (auto simp: is_failed_def is_skipped_def split: address_result.splits)
qed

lemma length_filter_mono: "(\<And>x. P x \<Longrightarrow> Q x) \<Longrightarrow> length (filter P xs) \<le> length (filter Q xs)"
  by (induction xs) auto

text \<open>
  The global statistics agree with the results: the counters of the authorities count
  them; public and private addresses make up all addresses, as do connected, failed and pending
  dials; the public addresses are the reachable, the unreachable and the skipped ones; a fully
  reachable authority is a reachable one; the authorities not failing are those with a record
  all of whose tested public addresses answered; and each version is listed with the number of
  authorities that run it.
\<close>

theorem global_stats_consistent:
  "let st = compute_global_stats results; as = concat (map ar_addresses results) in
     gs_total_authorities st = length results
     \<and> gs_with_identity st = length (filter (\<lambda>r. ar_identity r \<noteq> None) results)
     \<and> gs_with_dht_records st = length (filter ar_has_dht results)
     \<and> gs_total_addresses st = length as
     \<and> gs_public_addresses st + gs_private_addresses st = gs_total_addresses st
     \<and> gs_dial_success st + gs_dial_failed st + gs_dial_pending st = gs_total_addresses st
     \<and> gs_reachable_public st + gs_unreachable_public st
         + length (filter (\<lambda>a. ac_public a \<and> is_skipped (ac_result a)) as) = gs_public_addresses st
     \<and> gs_fully_reachable st \<le> gs_reachable_authorities st
     \<and> gs_reachable_authorities st \<le> gs_total_authorities st
     \<and> gs_identified st = length (filter (\<lambda>r. ar_agent r \<noteq> None) results)
     \<and> length (filter (\<lambda>r. \<not> is_authority_failing r) results) \<le> gs_fully_reachable st
     \<and> (let n = length (filter (\<lambda>r. map_option normalize_agent_version (ar_agent r) = Some v) results)
        in map_of (gs_agent_versions st) v = (if n = 0 then None else Some n))"
  by (simp only: Let_def compute_global_stats_def count_authorities count_authorities_addresses
      gs_agent_versions_counts not_failing_iff)
    (auto simp: no_stats_def address_partitions simp del: not_None_eq
      intro!: length_filter_mono all_public_ok_reached)

section \<open>Agent versions\<close>

lemma str_find_char: "c \<notin> set s \<Longrightarrow> str_find (s @ c # t) [c] = Some (length s)"
  by (induction s) auto

lemma str_find_slash_v:
  "\<not> sublist ''/v'' name \<Longrightarrow> str_find (name @ ''/v'' @ t) ''/v'' = Some (length name)"
proof (induction name)
  case (Cons c name)
  have "\<not> prefix ''/v'' ((c # name) @ ''/v'' @ t)"
  proof
    assume "prefix ''/v'' ((c # name) @ ''/v'' @ t)"
    then have "prefix ''/v'' (c # name)"
      by (cases name) auto
    with Cons.prems show False using prefix_imp_sublist by blast
  qed
  moreover have "\<not> sublist ''/v'' name"
    using Cons.prems by (auto simp: sublist_Cons_right)
  ultimately show ?case using Cons.IH by simp
qed simp

text \<open>
  A version is cut at the first hyphen after \<open>/v\<close>, wherever it stands, and keeps the
  mark of the \<open>litep2p\<close> backend. The hyphen before a commit hash is the intended place; when
  the version has no hash, a hyphen in the name of the node is taken, so part of that name
  stays.
\<close>

theorem agent_version_cut:
  assumes "\<not> sublist ''/v'' name" and "CHR ''-'' \<notin> set shown"
  shows "normalize_agent_version (name @ ''/v'' @ shown @ ''-'' @ rest) =
    name @ ''/v'' @ shown @
      (if str_contains (name @ ''/v'' @ shown @ ''-'' @ rest) ''(litep2p)'' then '' (litep2p)'' else [])"
  using str_find_slash_v [OF assms(1), of "shown @ ''-'' @ rest"] str_find_char [OF assms(2), of rest]
  by (simp add: normalize_agent_version_def Let_def)

theorem agent_version_cut_witness:
  "normalize_agent_version ''Polkadot/v1.21.1-c6b (node) (litep2p)'' = ''Polkadot/v1.21.1 (litep2p)''
   \<and> normalize_agent_version ''Polkadot/v1.21.1 (my-node)'' = ''Polkadot/v1.21.1 (my''"
proof -
  have name: "\<not> sublist ''/v'' ''Polkadot''" by (auto simp: sublist_Cons_right)
  have "CHR ''-'' \<notin> set ''1.21.1''" "CHR ''-'' \<notin> set ''1.21.1 (my''" by simp_all
  from agent_version_cut [OF name this(1), of "''c6b (node) (litep2p)''"]
    agent_version_cut [OF name this(2), of "''node)''"]
  show ?thesis by (simp add: str_contains_def)
qed

end
