(* ===== verification/Dual_Writer.thy ===== *)
theory Dual_Writer
  imports Rust_Str
begin

text \<open>
  The writer of the \<open>authority-check\<close> command (\<open>commands/authority_check.rs\<close>, lines
  28 to 79): what is printed goes to the terminal and, without its colour codes, to a log
  file. Terminal and file are arguments: writing all of a buffer to either gives the error, if
  there is one, and the new contents. A formatted print hands its pieces to the writer one by
  one (\<open>write_pieces\<close>), so the codes are stripped piece by piece.
\<close>

section \<open>Stripping escape sequences\<close>

abbreviation ESC :: char where
  "ESC \<equiv> CHR 0x1B"

text \<open>What follows the \<open>m\<close> that ends a sequence; nothing if it does not end.\<close>

fun skip_sequence :: "string \<Rightarrow> string" where
  "skip_sequence [] = []"
| "skip_sequence (c # cs) = (if c \<noteq> CHR ''m'' then skip_sequence cs else cs)"

lemma length_skip_sequence: "length (skip_sequence s) \<le> length s"
  by (induction s) auto

function strip_ansi :: "string \<Rightarrow> string" where
  "strip_ansi [] = []"
| "strip_ansi (c # cs) =
     (if c = ESC \<and> nth_opt cs 0 = Some (CHR ''['') then strip_ansi (skip_sequence (drop 1 cs))
      else c # strip_ansi cs)"
  by pat_completeness auto
termination
  by (relation "measure length")
    (auto intro: le_less_trans [OF length_skip_sequence])

section \<open>The writer\<close>

text \<open>Writing all of a buffer, and flushing: the error, if any, and the new contents.\<close>

record ('io, 'f) file_ops =
  write_all :: "string \<Rightarrow> 'f \<Rightarrow> 'io option \<times> 'f"
  flush_file :: "'f \<Rightarrow> 'io option \<times> 'f"

record ('o, 'f) dual_writer =
  dw_stdout :: 'o
  dw_file :: "'f option"

definition dual_writer_new :: "'o \<Rightarrow> 'f option \<Rightarrow> ('o, 'f) dual_writer" where
  "dual_writer_new out log = \<lparr>dw_stdout = out, dw_file = log\<rparr>"

definition dual_write ::
  "('io, 'o) file_ops \<Rightarrow> ('io, 'f) file_ops \<Rightarrow> string \<Rightarrow> ('o, 'f) dual_writer
     \<Rightarrow> ('io + nat) \<times> ('o, 'f) dual_writer" where
  "dual_write O1 F1 buf w =
     (case write_all O1 buf (dw_stdout w) of
        (Some e, out) \<Rightarrow> (Inl e, w\<lparr>dw_stdout := out\<rparr>)
      | (None, out) \<Rightarrow>
          (let w1 = w\<lparr>dw_stdout := out\<rparr>
           in case dw_file w1 of
                None \<Rightarrow> (Inr (length buf), w1)
              | Some f \<Rightarrow>
                  (case write_all F1 (strip_ansi buf) f of
                     (Some e, f') \<Rightarrow> (Inl e, w1\<lparr>dw_file := Some f'\<rparr>)
                   | (None, f') \<Rightarrow> (Inr (length buf), w1\<lparr>dw_file := Some f'\<rparr>))))"

definition dual_flush ::
  "('io, 'o) file_ops \<Rightarrow> ('io, 'f) file_ops \<Rightarrow> ('o, 'f) dual_writer
     \<Rightarrow> 'io option \<times> ('o, 'f) dual_writer" where
  "dual_flush O1 F1 w =
     (case flush_file O1 (dw_stdout w) of
        (Some e, out) \<Rightarrow> (Some e, w\<lparr>dw_stdout := out\<rparr>)
      | (None, out) \<Rightarrow>
          (let w1 = w\<lparr>dw_stdout := out\<rparr>
           in case dw_file w1 of
                None \<Rightarrow> (None, w1)
              | Some f \<Rightarrow>
                  (case flush_file F1 f of (e, f') \<Rightarrow> (e, w1\<lparr>dw_file := Some f'\<rparr>))))"

abbreviation nl :: string where
  "nl \<equiv> [CHR 0x0A]"

text \<open>
  \<open>write!\<close>: the pieces in order, until one fails; an empty piece is not written.
\<close>

fun write_pieces ::
  "('io, 'o) file_ops \<Rightarrow> ('io, 'f) file_ops \<Rightarrow> string list \<Rightarrow> ('o, 'f) dual_writer
     \<Rightarrow> 'io option \<times> ('o, 'f) dual_writer" where
  "write_pieces O1 F1 [] w = (None, w)"
| "write_pieces O1 F1 (piece # pieces) w =
     (if piece = [] then write_pieces O1 F1 pieces w
      else
        (case dual_write O1 F1 piece w of
           (Inl e, w1) \<Rightarrow> (Some e, w1)
         | (Inr _, w1) \<Rightarrow> write_pieces O1 F1 pieces w1))"

section \<open>Facts on stripping\<close>

lemma skip_sequence_end:
  "CHR ''m'' \<notin> set code \<Longrightarrow> skip_sequence (code @ CHR ''m'' # rest) = rest"
  by (induction code) auto

lemma strip_ansi_plain [simp]: "ESC \<notin> set s \<Longrightarrow> strip_ansi s = s"
  by (induction s) auto

lemma strip_ansi_plain_append: "ESC \<notin> set s \<Longrightarrow> strip_ansi (s @ t) = s @ strip_ansi t"
  by (induction s) auto

lemma strip_ansi_sequence:
  "CHR ''m'' \<notin> set code \<Longrightarrow>
     strip_ansi ([ESC, CHR ''[''] @ code @ CHR ''m'' # rest) = strip_ansi rest"
  by (simp add: skip_sequence_end)

lemma set_skip_sequence: "set (skip_sequence s) \<subseteq> set s"
  by (induction s) auto

lemma strip_ansi_bounds: "length (strip_ansi s) \<le> length s \<and> set (strip_ansi s) \<subseteq> set s"
proof (induction s rule: strip_ansi.induct)
  case (2 c cs)
  show ?case
  proof (cases "c = ESC \<and> nth_opt cs 0 = Some (CHR ''['')")
    case True
    with 2(1) have "length (strip_ansi (skip_sequence (drop 1 cs))) \<le> length (skip_sequence (drop 1 cs))"
      "set (strip_ansi (skip_sequence (drop 1 cs))) \<subseteq> set (skip_sequence (drop 1 cs))"
      by blast+
    moreover have "length (skip_sequence (drop 1 cs)) \<le> length cs"
      using length_skip_sequence [of "drop 1 cs"] by simp
    moreover have "set (skip_sequence (drop 1 cs)) \<subseteq> set cs"
      using set_skip_sequence set_drop_subset by (metis subset_trans)
    ultimately show ?thesis using True by auto
  next
    case False
    with 2(2) show ?thesis by auto
  qed
qed simp

section \<open>The log\<close>

text \<open>A sink that never fails and keeps what it is given.\<close>

definition appends :: "('io, string) file_ops \<Rightarrow> bool" where
  "appends F \<longleftrightarrow> (\<forall>buf s. write_all F buf s = (None, s @ buf))"

lemma write_pieces_appends:
  assumes "appends O1" and "appends F1"
  shows "write_pieces O1 F1 pieces \<lparr>dw_stdout = out, dw_file = Some log\<rparr> =
    (None, \<lparr>dw_stdout = out @ concat pieces, dw_file = Some (log @ concat (map strip_ansi pieces))\<rparr>)"
  using assms
  by (induction pieces arbitrary: out log) (auto simp: appends_def dual_write_def)

lemma write_pieces_no_log:
  assumes "appends O1"
  shows "write_pieces O1 F1 pieces \<lparr>dw_stdout = out, dw_file = None\<rparr> =
    (None, \<lparr>dw_stdout = out @ concat pieces, dw_file = None\<rparr>)"
  using assms
  by (induction pieces arbitrary: out) (auto simp: appends_def dual_write_def)

definition memory_file :: "(unit, string) file_ops" where
  "memory_file = \<lparr>write_all = (\<lambda>buf s. (None, s @ buf)), flush_file = (\<lambda>s. (None, s))\<rparr>"

lemma memory_file_appends: "appends memory_file"
  by (simp add: appends_def memory_file_def)

end
