(* ===== verification/Authority_Check.thy ===== *)
theory Authority_Check
  imports Connectivity Dual_Writer Ss58
begin

text \<open>
  The report of the \<open>authority-check\<close> command (\<open>commands/authority_check.rs\<close>): the
  results per authority from what the discovery found and the checks gave (lines 832 to 901),
  and what is printed of them (lines 291 to 391, 501 to 643 and 903 to 913). A print is the
  list of the pieces handed to the writer. The text of a percentage (a formatted \<open>f64\<close>), the
  text of a peer identity and the iteration order of the hash containers are arguments.
\<close>

section \<open>Results\<close>

definition pending_checks ::
  "(ip_addr \<Rightarrow> bool) \<Rightarrow> ('peer multiaddr list \<Rightarrow> 'peer multiaddr list)
     \<Rightarrow> (authority, 'peer multiaddr hash_set) hash_map \<Rightarrow> authority list
     \<Rightarrow> (nat \<times> 'peer multiaddr \<times> bool) list" where
  "pending_checks is_global iter details authorities =
     concat (map (\<lambda>(idx, authority).
       (case map_of details authority of
          Some addrs \<Rightarrow> map (\<lambda>addr. (idx, addr, is_public_address is_global addr)) (iter addrs)
        | None \<Rightarrow> [])) (enumerate 0 authorities))"

definition enrich_check ::
  "('peer multiaddr, dial_outcome) hash_map \<Rightarrow> 'peer address_check \<Rightarrow> 'peer address_check" where
  "enrich_check dial_outcomes check =
     (case ac_full check of
        Some addr \<Rightarrow> check\<lparr>ac_dial := map_of dial_outcomes addr\<rparr>
      | None \<Rightarrow> check)"

definition enrich_checks ::
  "('peer multiaddr, dial_outcome) hash_map \<Rightarrow> (nat, 'peer address_check list) hash_map
     \<Rightarrow> (nat, 'peer address_check list) hash_map" where
  "enrich_checks dial_outcomes grouped =
     map (\<lambda>(idx, checks). (idx, map (enrich_check dial_outcomes) checks)) grouped"

text \<open>What the results rest on besides the discovery.\<close>

record 'peer check_env =
  ce_blake :: "bytes \<Rightarrow> bytes"
  ce_bs58 :: "bytes \<Rightarrow> string"
  ce_iter :: "'peer multiaddr list \<Rightarrow> 'peer multiaddr list"
  ce_peer_text :: "'peer \<Rightarrow> string"

text \<open>\<open>addrs.iter().find_map(get_peer_id)\<close>.\<close>

definition find_peer_id :: "'peer multiaddr list \<Rightarrow> 'peer option" where
  "find_peer_id addrs =
     (case List.map_filter get_peer_id addrs of [] \<Rightarrow> None | p # _ \<Rightarrow> Some p)"

fun transpose_panic :: "(panic + 'a) option \<Rightarrow> panic + 'a option" where
  "transpose_panic None = Inr None"
| "transpose_panic (Some (Inl e)) = Inl e"
| "transpose_panic (Some (Inr x)) = Inr (Some x)"

text \<open>One authority: its result, and the groups of checks still to hand out.\<close>

definition authority_result_of ::
  "'peer check_env \<Rightarrow> u16 \<Rightarrow> (authority, string) hash_map \<Rightarrow> (authority, bytes) hash_map
     \<Rightarrow> (authority, 'peer multiaddr hash_set) hash_map \<Rightarrow> ('peer, 'peer identify_info) hash_map
     \<Rightarrow> nat \<Rightarrow> authority \<Rightarrow> (nat, 'peer address_check list) hash_map
     \<Rightarrow> panic + 'peer authority_result \<times> (nat, 'peer address_check list) hash_map" where
  "authority_result_of E version names stashes details infos idx authority check_results =
     (case to_ss58 (ce_blake E) (ce_bs58 E) authority version of
        Inl e \<Rightarrow> Inl e
      | Inr ss58 \<Rightarrow>
          (case transpose_panic (map_option (\<lambda>s. to_ss58 (ce_blake E) (ce_bs58 E) s version)
                   (map_of stashes authority)) of
             Inl e \<Rightarrow> Inl e
           | Inr stash \<Rightarrow>
               (case map_of details authority of
                  None \<Rightarrow>
                    Inr (\<lparr>ar_ss58 = ss58, ar_stash = stash, ar_identity = map_of names authority,
                          ar_peer_id = None, ar_agent = None, ar_has_dht = False,
                          ar_addresses = []\<rparr>, check_results)
                | Some addrs \<Rightarrow>
                    (let peer_id = find_peer_id (ce_iter E addrs);
                         agent_version =
                           map_option info_agent_version (Option.bind peer_id (map_of infos));
                         addresses =
                           (case map_of check_results idx of Some checks \<Rightarrow> checks | None \<Rightarrow> [])
                     in Inr (\<lparr>ar_ss58 = ss58, ar_stash = stash, ar_identity = map_of names authority,
                              ar_peer_id = map_option (ce_peer_text E) peer_id,
                              ar_agent = agent_version, ar_has_dht = True,
                              ar_addresses = addresses\<rparr>,
                             map_remove idx check_results)))))"

fun authority_results ::
  "'peer check_env \<Rightarrow> u16 \<Rightarrow> (authority, string) hash_map \<Rightarrow> (authority, bytes) hash_map
     \<Rightarrow> (authority, 'peer multiaddr hash_set) hash_map \<Rightarrow> ('peer, 'peer identify_info) hash_map
     \<Rightarrow> (nat \<times> authority) list \<Rightarrow> (nat, 'peer address_check list) hash_map
     \<Rightarrow> panic + 'peer authority_result list" where
  "authority_results E version names stashes details infos [] check_results = Inr []"
| "authority_results E version names stashes details infos ((idx, authority) # rest) check_results =
     (case authority_result_of E version names stashes details infos idx authority check_results of
        Inl e \<Rightarrow> Inl e
      | Inr (r, check_results') \<Rightarrow>
          (case authority_results E version names stashes details infos rest check_results' of
             Inl e \<Rightarrow> Inl e
           | Inr rs \<Rightarrow> Inr (r # rs)))"

text \<open>The checks of every discovered address, then the results.\<close>

definition checked_results ::
  "'peer check_env \<Rightarrow> (ip_addr \<Rightarrow> bool) \<Rightarrow> ('peer multiaddr \<Rightarrow> string)
     \<Rightarrow> (nat \<Rightarrow> string \<Rightarrow> tcp_outcome)
     \<Rightarrow> (nat \<Rightarrow> (nat \<times> 'peer address_check) list \<Rightarrow> (nat \<times> 'peer address_check) list)
     \<Rightarrow> u16 \<Rightarrow> (authority, string) hash_map \<Rightarrow> (authority, bytes) hash_map
     \<Rightarrow> (authority, 'peer multiaddr hash_set) hash_map \<times> ('peer, 'peer identify_info) hash_map
        \<times> ('peer multiaddr, dial_outcome) hash_map
     \<Rightarrow> authority list \<Rightarrow> panic + 'peer authority_result list" where
  "checked_results E is_global addr_text connect finish version names stashes found authorities =
     (case found of (details, infos, dial_outcomes) \<Rightarrow>
        (let checks = pending_checks is_global (ce_iter E) details authorities;
             check_results = fst (run_connectivity_checks addr_text connect finish checks)
         in authority_results E version names stashes details infos (enumerate 0 authorities)
              (enrich_checks dial_outcomes check_results)))"

section \<open>Printing\<close>

text \<open>The box-drawing characters, in UTF-8.\<close>

definition BAR :: string where "BAR = [CHR 0xE2, CHR 0x94, CHR 0x80]"
definition DOUBLE_BAR :: string where "DOUBLE_BAR = [CHR 0xE2, CHR 0x95, CHR 0x90]"
definition TEE :: string where "TEE = [CHR 0xE2, CHR 0x94, CHR 0x9C] @ BAR"
definition CORNER :: string where "CORNER = [CHR 0xE2, CHR 0x94, CHR 0x94] @ BAR"
definition EM_DASH :: string where "EM_DASH = [CHR 0xE2, CHR 0x80, CHR 0x94]"

text \<open>
  Padding counts characters: bytes that do not continue one.
\<close>

definition char_count :: "string \<Rightarrow> nat" where
  "char_count s = length (filter (\<lambda>c. \<not> (128 \<le> (of_char c :: nat) \<and> (of_char c :: nat) < 192)) s)"

definition pad_right :: "nat \<Rightarrow> string \<Rightarrow> string" where
  "pad_right n s = s @ replicate (n - char_count s) CHR '' ''"

definition pad_left :: "nat \<Rightarrow> string \<Rightarrow> string" where
  "pad_left n s = replicate (n - char_count s) CHR '' '' @ s"

text \<open>A coloured word: \<open>ESC [ code m\<close>, the word, \<open>ESC [ 0 m\<close>.\<close>

definition ansi :: "string \<Rightarrow> string \<Rightarrow> string" where
  "ansi code word = [ESC, CHR ''[''] @ code @ ''m'' @ word @ [ESC, CHR ''[''] @ ''0m''"

definition dial_status :: "(string \<Rightarrow> string \<Rightarrow> string) \<Rightarrow> dial_outcome option \<Rightarrow> string" where
  "dial_status paint outcome =
     (case outcome of
        Some DialSuccess \<Rightarrow> paint ''32'' ''OK''
      | Some (DialFailed e) \<Rightarrow> paint ''31'' ''FAIL'' @ '' ('' @ e @ '')''
      | None \<Rightarrow> paint ''33'' ''-'')"

definition tcp_status :: "(string \<Rightarrow> string \<Rightarrow> string) \<Rightarrow> address_result \<Rightarrow> string" where
  "tcp_status paint res =
     (case res of
        CheckOk \<Rightarrow> paint ''32'' ''OK''
      | CheckFailed e \<Rightarrow> paint ''31'' ''FAIL'' @ '' ('' @ e @ '')''
      | CheckSkipped r \<Rightarrow> paint ''33'' ''SKIP'' @ '' ('' @ r @ '')'')"

definition check_pieces :: "(string \<Rightarrow> string \<Rightarrow> string) \<Rightarrow> nat \<Rightarrow> 'peer address_check \<Rightarrow> string list" where
  "check_pieces paint max_len check =
     [''    '', pad_right max_len (ac_short check), '' | '',
      (if ac_public check then ''public '' else ''private''), '' | Dial: '',
      dial_status paint (ac_dial check), '' | TCP: '', tcp_status paint (ac_result check), nl]"

definition option_pieces :: "string \<Rightarrow> string option \<Rightarrow> string list" where
  "option_pieces label v = (case v of Some s \<Rightarrow> [label, s, nl] | None \<Rightarrow> [])"

definition authority_pieces ::
  "(string \<Rightarrow> string \<Rightarrow> string) \<Rightarrow> (nat \<Rightarrow> nat \<Rightarrow> string) \<Rightarrow> 'peer authority_result \<Rightarrow> nat \<Rightarrow> string list" where
  "authority_pieces paint pct_text r index =
     [concat (replicate 72 BAR) @ nl, ''  Authority #'', show_nat (index + 1), '': '', ar_ss58 r] @
     (if \<not> ar_has_dht r then ['' '' @ EM_DASH @ '' No DHT record'' @ nl]
      else
        [nl] @ option_pieces ''  Stash:    '' (ar_stash r)
        @ option_pieces ''  Identity: '' (ar_identity r)
        @ option_pieces ''  PeerId:   '' (ar_peer_id r)
        @ option_pieces ''  Agent:    '' (ar_agent r) @
        (if ar_addresses r = [] then [''  No addresses in DHT record'' @ nl]
         else
           (let max_len = foldr (\<lambda>a n. max (length (ac_short a)) n) (ar_addresses r) 0;
                total = length (ar_addresses r);
                public = length (filter ac_public (ar_addresses r));
                private = total - public;
                reachable = length (filter (\<lambda>a. ac_result a = CheckOk) (ar_addresses r));
                tested = length (public_tested r);
                pct = (if 0 < tested then pct_text reachable tested else ''N/A'')
            in [nl] @ concat (map (check_pieces paint max_len) (ar_addresses r)) @ [nl] @
               [''    Reachable: '', show_nat reachable, ''/'', show_nat tested, '' public ('', pct,
                '') | Total: '', show_nat total, '' addrs ('', show_nat public, '' public, '',
                show_nat private, '' private)'' @ nl])))"

definition print_authority_result ::
  "('io, 'o) file_ops \<Rightarrow> ('io, 'f) file_ops \<Rightarrow> (nat \<Rightarrow> nat \<Rightarrow> string) \<Rightarrow> 'peer authority_result \<Rightarrow> nat
     \<Rightarrow> ('o, 'f) dual_writer \<Rightarrow> 'io option \<times> ('o, 'f) dual_writer" where
  "print_authority_result O1 F1 pct_text r index w =
     write_pieces O1 F1 (authority_pieces ansi pct_text r index) w"


text \<open>
  The global summary: rows of a label and a number, most with a percentage.
\<close>

definition percentage :: "(nat \<Rightarrow> nat \<Rightarrow> string) \<Rightarrow> nat \<Rightarrow> nat \<Rightarrow> string" where
  "percentage pct_text n d = (if 0 < d then pct_text n d else ''N/A'')"

definition count_row :: "string \<Rightarrow> string \<Rightarrow> nat \<Rightarrow> string list" where
  "count_row branch label n = [''  '' @ branch @ label, pad_left 6 (show_nat n), nl]"

definition share_row ::
  "(nat \<Rightarrow> nat \<Rightarrow> string) \<Rightarrow> string \<Rightarrow> string \<Rightarrow> nat \<Rightarrow> nat \<Rightarrow> string list" where
  "share_row pct_text branch label n d =
     [''  '' @ branch @ label, pad_left 6 (show_nat n), '' ('', percentage pct_text n d, '')'' @ nl]"

definition ratio_row ::
  "(nat \<Rightarrow> nat \<Rightarrow> string) \<Rightarrow> string \<Rightarrow> string \<Rightarrow> nat \<Rightarrow> nat \<Rightarrow> string list" where
  "ratio_row pct_text branch label n d =
     [''  '' @ branch @ label, pad_left 6 (show_nat n), ''/'', pad_right 6 (show_nat d), '' ('',
      percentage pct_text n d, '')'' @ nl]"

definition summary_pieces :: "(nat \<Rightarrow> nat \<Rightarrow> string) \<Rightarrow> global_stats \<Rightarrow> string list" where
  "summary_pieces pct_text st =
     (let rule = concat (replicate 72 DOUBLE_BAR) @ nl;
          share = share_row pct_text;
          total = gs_total_authorities st;
          dial_total = gs_dial_success st + gs_dial_failed st + gs_dial_pending st
      in [nl, rule, ''                          GLOBAL SUMMARY'' @ nl, rule, nl, ''  Authorities'' @ nl]
         @ count_row TEE '' Total (runtime API):          '' total
         @ share TEE '' With on-chain identity:       '' (gs_with_identity st) total
         @ share TEE '' With DHT records:             '' (gs_with_dht_records st) total
         @ share TEE '' With Peer ID:                 '' (gs_with_peer_id st) total
         @ share CORNER '' Identified (p2p):             '' (gs_identified st) total
         @ [nl, ''  Addresses'' @ nl]
         @ count_row TEE '' Total:                        '' (gs_total_addresses st)
         @ share TEE '' Public:                       '' (gs_public_addresses st) (gs_total_addresses st)
         @ share CORNER '' Private:                      '' (gs_private_addresses st) (gs_total_addresses st)
         @ [nl, ''  Connectivity'' @ nl]
         @ share TEE '' Reachable authorities (>=1):  '' (gs_reachable_authorities st) total
         @ share TEE '' Fully reachable (all public): '' (gs_fully_reachable st) total
         @ ratio_row pct_text TEE '' Public addrs reachable:  '' (gs_reachable_public st)
             (gs_public_addresses st)
         @ ratio_row pct_text CORNER '' Public addrs unreachable:'' (gs_unreachable_public st)
             (gs_public_addresses st)
         @ [nl, ''  Libp2p Dials (noise + yamux + identify)'' @ nl]
         @ share TEE '' Connected:                    '' (gs_dial_success st) dial_total
         @ share TEE '' Failed:                       '' (gs_dial_failed st) dial_total
         @ count_row CORNER '' Pending:                      '' (gs_dial_pending st))"

text \<open>
  The versions, most frequent first; a text of more than 40 bytes is cut to its first 37. The
  pieces of the rows before a panic have been written.
\<close>

definition shown_version :: "string \<Rightarrow> panic + string" where
  "shown_version version =
     (if 40 < length version then
        (case str_slice_to version 37 of Inl e \<Rightarrow> Inl e | Inr v \<Rightarrow> Inr (v @ ''...''))
      else Inr version)"

fun version_rows :: "nat \<Rightarrow> nat \<Rightarrow> (string \<times> nat) list \<Rightarrow> string list \<times> panic option" where
  "version_rows len i [] = ([], None)"
| "version_rows len i ((version, num) # versions) =
     (let branch = (if i = len - 1 then CORNER else TEE)
      in case shown_version version of
           Inl e \<Rightarrow> ([], Some e)
         | Inr v \<Rightarrow>
             (case version_rows len (i + 1) versions of
                (pieces, e) \<Rightarrow>
                  ([''  '', branch, '' '', pad_right 42 v, '' '', pad_left 4 (show_nat num), nl] @ pieces, e)))"

definition version_pieces ::
  "((string \<times> nat) list \<Rightarrow> (string \<times> nat) list) \<Rightarrow> (string, nat) hash_map
     \<Rightarrow> string list \<times> panic option" where
  "version_pieces iter_versions agent_versions =
     (if agent_versions = [] then ([], None)
      else
        (let versions = sort_key (\<lambda>entry. - int (snd entry)) (iter_versions agent_versions)
         in case version_rows (length versions) 0 versions of
              (pieces, e) \<Rightarrow> ([nl, ''  Agent Distribution'' @ nl] @ pieces, e)))"

datatype 'io print_outcome = Printed | PrintError 'io | PrintPanic panic

definition print_global_summary ::
  "('io, 'o) file_ops \<Rightarrow> ('io, 'f) file_ops \<Rightarrow> (nat \<Rightarrow> nat \<Rightarrow> string)
     \<Rightarrow> ((string \<times> nat) list \<Rightarrow> (string \<times> nat) list) \<Rightarrow> global_stats
     \<Rightarrow> ('o, 'f) dual_writer \<Rightarrow> 'io print_outcome \<times> ('o, 'f) dual_writer" where
  "print_global_summary O1 F1 pct_text iter_versions st w =
     (case version_pieces iter_versions (gs_agent_versions st) of
        (pieces, e) \<Rightarrow>
          (case write_pieces O1 F1 (summary_pieces pct_text st @ pieces) w of
             (Some err, w') \<Rightarrow> (PrintError err, w')
           | (None, w') \<Rightarrow>
               (case e of
                  Some p \<Rightarrow> (PrintPanic p, w')
                | None \<Rightarrow>
                    (case write_pieces O1 F1 [nl] w' of
                       (Some err, w'') \<Rightarrow> (PrintError err, w'')
                     | (None, w'') \<Rightarrow> (Printed, w'')))))"

fun print_results ::
  "('io, 'o) file_ops \<Rightarrow> ('io, 'f) file_ops \<Rightarrow> (nat \<Rightarrow> nat \<Rightarrow> string) \<Rightarrow> bool
     \<Rightarrow> (nat \<times> 'peer authority_result) list
     \<Rightarrow> ('o, 'f) dual_writer \<Rightarrow> 'io option \<times> ('o, 'f) dual_writer" where
  "print_results O1 F1 pct_text show_failing_only [] w = (None, w)"
| "print_results O1 F1 pct_text show_failing_only ((i, r) # rest) w =
     (if show_failing_only \<and> \<not> is_authority_failing r
      then print_results O1 F1 pct_text show_failing_only rest w
      else
        (case print_authority_result O1 F1 pct_text r i w of
           (Some e, w') \<Rightarrow> (Some e, w')
         | (None, w') \<Rightarrow> print_results O1 F1 pct_text show_failing_only rest w'))"

definition print_report ::
  "('io, 'o) file_ops \<Rightarrow> ('io, 'f) file_ops \<Rightarrow> (nat \<Rightarrow> nat \<Rightarrow> string)
     \<Rightarrow> ((string \<times> nat) list \<Rightarrow> (string \<times> nat) list) \<Rightarrow> bool \<Rightarrow> 'peer authority_result list
     \<Rightarrow> ('o, 'f) dual_writer \<Rightarrow> 'io print_outcome \<times> ('o, 'f) dual_writer" where
  "print_report O1 F1 pct_text iter_versions show_failing_only results w =
     (case print_results O1 F1 pct_text show_failing_only (enumerate 0 results) w of
        (Some e, w') \<Rightarrow> (PrintError e, w')
      | (None, w') \<Rightarrow>
          print_global_summary O1 F1 pct_text iter_versions (compute_global_stats results) w')"

section \<open>The log\<close>

text \<open>The same prints without colours.\<close>

abbreviation plain :: "string \<Rightarrow> string \<Rightarrow> string" where
  "plain \<equiv> \<lambda>_ word. word"

definition plain_text :: "string \<Rightarrow> bool" where
  "plain_text s \<longleftrightarrow> ESC \<notin> set s"

text \<open>The texts of a result that come from outside.\<close>

definition outside_texts :: "'peer authority_result \<Rightarrow> string list" where
  "outside_texts r =
     ar_ss58 r
     # concat (map (\<lambda>v. case v of Some t \<Rightarrow> [t] | None \<Rightarrow> [])
         [ar_stash r, ar_identity r, ar_peer_id r, ar_agent r])
     @ map ac_short (ar_addresses r)
     @ concat (map (\<lambda>a. case ac_dial a of Some (DialFailed e) \<Rightarrow> [e] | _ \<Rightarrow> []) (ar_addresses r))
     @ concat (map (\<lambda>a. case ac_result a of CheckFailed e \<Rightarrow> [e] | CheckSkipped e \<Rightarrow> [e] | CheckOk \<Rightarrow> [])
         (ar_addresses r))"

lemma strip_ansi_ansi:
  assumes "CHR ''m'' \<notin> set code" and "ESC \<notin> set word"
  shows "strip_ansi (ansi code word @ rest) = word @ strip_ansi rest"
proof -
  have eq: "ansi code word @ rest =
      [ESC, CHR ''[''] @ code @ CHR ''m'' # (word @ ([ESC, CHR ''[''] @ ''0'' @ CHR ''m'' # rest))"
    by (simp add: ansi_def)
  show ?thesis
    unfolding eq strip_ansi_sequence [OF assms(1)] strip_ansi_plain_append [OF assms(2)]
    by (subst strip_ansi_sequence) auto
qed

lemma show_nat_digits: "c \<in> set (show_nat n) \<Longrightarrow> 48 \<le> (of_char c :: nat) \<and> (of_char c :: nat) < 58"
proof (induction n rule: show_nat.induct)
  case (1 n)
  have digit: "48 \<le> (of_char (char_of (48 + k) :: char) :: nat) \<and> (of_char (char_of (48 + k) :: char) :: nat) < 58"
    if "k < 10" for k :: nat
    using that by (simp add: of_char_of)
  show ?case
  proof (cases "n < 10")
    case True
    with 1(2) digit show ?thesis by (simp add: show_nat.simps)
  next
    case False
    with 1(2) have "c \<in> set (show_nat (n div 10)) \<or> c = char_of (48 + n mod 10)"
      by (auto simp: show_nat.simps [of n])
    with 1(1) [OF False] digit [of "n mod 10"] show ?thesis by auto
  qed
qed

lemma plain_show_nat [simp]: "ESC \<notin> set (show_nat n)"
  using show_nat_digits [of ESC n] by auto

lemma plain_boxes [simp]: "ESC \<notin> set BAR" "ESC \<notin> set EM_DASH"
  by (simp_all add: BAR_def EM_DASH_def)

lemma plain_pad [simp]: "ESC \<in> set (pad_right n s) \<longleftrightarrow> ESC \<in> set s"
  by (auto simp: pad_right_def)

lemma strip_dial_status:
  assumes "\<And>e. outcome = Some (DialFailed e) \<Longrightarrow> ESC \<notin> set e"
  shows "strip_ansi (dial_status ansi outcome) = dial_status plain outcome"
  using assms strip_ansi_ansi [of "''32''" "''OK''" "[]"] strip_ansi_ansi [of "''33''" "''-''" "[]"]
    strip_ansi_ansi [of "''31''" "''FAIL''"]
  by (auto simp: dial_status_def split: option.splits dial_outcome.splits)

lemma strip_tcp_status:
  assumes "\<And>e. res = CheckFailed e \<or> res = CheckSkipped e \<Longrightarrow> ESC \<notin> set e"
  shows "strip_ansi (tcp_status ansi res) = tcp_status plain res"
  using assms strip_ansi_ansi [of "''32''" "''OK''" "[]"] strip_ansi_ansi [of "''33''" "''SKIP''"]
    strip_ansi_ansi [of "''31''" "''FAIL''"]
  by (auto simp: tcp_status_def split: address_result.splits)

lemma strip_check_pieces:
  assumes "a \<in> set (ar_addresses r)" and "\<forall>t \<in> set (outside_texts r). ESC \<notin> set t"
  shows "map strip_ansi (check_pieces ansi n a) = check_pieces plain n a"
proof -
  have dial: "ESC \<notin> set e" if "ac_dial a = Some (DialFailed e)" for e
  proof -
    have "e \<in> set (outside_texts r)"
      using that assms(1) by (force simp: outside_texts_def)
    with assms(2) show ?thesis by blast
  qed
  have tcp: "ESC \<notin> set e" if "ac_result a = CheckFailed e \<or> ac_result a = CheckSkipped e" for e
  proof -
    have "e \<in> set (outside_texts r)"
      using that assms(1) by (force simp: outside_texts_def)
    with assms(2) show ?thesis by blast
  qed
  have "ESC \<notin> set (ac_short a)"
    using assms by (auto simp: outside_texts_def)
  with dial tcp show ?thesis
    by (simp add: check_pieces_def strip_dial_status strip_tcp_status)
qed

lemma strip_option_pieces:
  assumes "ESC \<notin> set label" and "\<And>s. v = Some s \<Longrightarrow> ESC \<notin> set s"
  shows "map strip_ansi (option_pieces label v) = option_pieces label v"
  using assms by (auto simp: option_pieces_def split: option.splits)

lemma strip_authority_pieces:
  assumes "\<forall>t \<in> set (outside_texts r). ESC \<notin> set t" and "\<And>n d. ESC \<notin> set (pct_text n d)"
  shows "map strip_ansi (authority_pieces ansi pct_text r i) = authority_pieces plain pct_text r i"
proof -
  have opt: "ESC \<notin> set s"
    if "ar_stash r = Some s \<or> ar_identity r = Some s \<or> ar_peer_id r = Some s \<or> ar_agent r = Some s" for s
  proof -
    have "s \<in> set (outside_texts r)"
      using that by (auto simp: outside_texts_def)
    with assms(1) show ?thesis by blast
  qed
  have ss58: "ESC \<notin> set (ar_ss58 r)"
    using assms(1) by (simp add: outside_texts_def)
  have checks: "map strip_ansi (concat (map (check_pieces ansi n) (ar_addresses r))) =
      concat (map (check_pieces plain n) (ar_addresses r))" for n
    using strip_check_pieces [OF _ assms(1), of _ n] by (simp add: map_concat o_def cong: map_cong)
  show ?thesis
    using opt ss58 assms(2)
    by (simp add: authority_pieces_def Let_def strip_option_pieces checks)
qed


definition shown_results ::
  "bool \<Rightarrow> (nat \<times> 'peer authority_result) list \<Rightarrow> (nat \<times> 'peer authority_result) list" where
  "shown_results show_failing_only irs =
     filter (\<lambda>(i, r). show_failing_only \<longrightarrow> is_authority_failing r) irs"

lemma print_results_text:
  assumes "appends O1" and "appends F1" and "\<And>n d. ESC \<notin> set (pct_text n d)"
    and "\<forall>(i, r) \<in> set irs. \<forall>t \<in> set (outside_texts r). ESC \<notin> set t"
  shows "print_results O1 F1 pct_text failing_only irs \<lparr>dw_stdout = out, dw_file = Some log\<rparr> =
    (None, \<lparr>dw_stdout = out @ concat (map (\<lambda>(i, r). concat (authority_pieces ansi pct_text r i))
                (shown_results failing_only irs)),
            dw_file = Some (log @ concat (map (\<lambda>(i, r). concat (authority_pieces plain pct_text r i))
                (shown_results failing_only irs)))\<rparr>)"
  using assms(4)
proof (induction irs arbitrary: out log)
  case Nil
  then show ?case by (simp add: shown_results_def)
next
  case (Cons ir irs)
  obtain i r where ir: "ir = (i, r)" by (cases ir)
  have "\<forall>t \<in> set (outside_texts r). ESC \<notin> set t"
    using Cons.prems ir by auto
  then have "map strip_ansi (authority_pieces ansi pct_text r i) = authority_pieces plain pct_text r i"
    using assms(3) by (rule strip_authority_pieces)
  with Cons ir show ?case
    by (auto simp: shown_results_def print_authority_result_def
        write_pieces_appends [OF assms(1,2)])
qed

text \<open>
  C31. While the terminal and the log accept what is written, the results shown (all of them, or
  the failing ones) appear in order on the terminal with their colours, and in the log as the
  same text without any colour code, provided no text taken from outside carries one.
\<close>

theorem log_holds_plain_report:
  assumes "appends O1" and "appends F1" and "\<forall>n d. ESC \<notin> set (pct_text n d)"
    and "\<forall>r \<in> set results. \<forall>t \<in> set (outside_texts r). ESC \<notin> set t"
  shows "print_results O1 F1 pct_text failing_only (enumerate 0 results)
      (dual_writer_new out (Some log)) =
    (None, dual_writer_new
       (out @ concat (map (\<lambda>(i, r). concat (authority_pieces ansi pct_text r i))
          (shown_results failing_only (enumerate 0 results))))
       (Some (log @ concat (map (\<lambda>(i, r). concat (authority_pieces (\<lambda>_ word. word) pct_text r i))
          (shown_results failing_only (enumerate 0 results))))))"
proof -
  have texts: "\<forall>(i, r) \<in> set (enumerate 0 results). \<forall>t \<in> set (outside_texts r). ESC \<notin> set t"
    using assms(4) by (auto simp: in_set_enumerate_eq)
  have pct: "\<And>n d. ESC \<notin> set (pct_text n d)"
    using assms(3) by blast
  show ?thesis
    unfolding dual_writer_new_def by (rule print_results_text [OF assms(1,2) pct texts])
qed

definition sample_result :: "nat authority_result" where
  "sample_result =
     \<lparr>ar_ss58 = ''5F'', ar_stash = None, ar_identity = Some ''alice'', ar_peer_id = None, ar_agent = None,
      ar_has_dht = True,
      ar_addresses = [\<lparr>ac_short = ''/dns/a/tcp/1'', ac_public = True, ac_result = CheckFailed ''timeout'',
        ac_dial = Some DialSuccess, ac_full = None\<rparr>]\<rparr>"

theorem log_holds_plain_report_witness:
  "appends memory_file \<and> list_all (\<lambda>t. ESC \<notin> set t) (outside_texts sample_result)
   \<and> print_results memory_file memory_file (\<lambda>_ _. ''50.0%'') True (enumerate 0 [sample_result])
       (dual_writer_new [] (Some [])) =
     (None, dual_writer_new (concat (authority_pieces ansi (\<lambda>_ _. ''50.0%'') sample_result 0))
       (Some (concat (authority_pieces (\<lambda>_ word. word) (\<lambda>_ _. ''50.0%'') sample_result 0))))"
proof -
  have texts: "\<forall>t \<in> set (outside_texts sample_result). ESC \<notin> set t"
    by (simp add: outside_texts_def sample_result_def)
  have shown: "shown_results True (enumerate 0 [sample_result]) = [(0, sample_result)]"
    by (simp add: shown_results_def is_authority_failing_def sample_result_def public_tested_def
        is_skipped_def is_failed_def)
  show ?thesis
    using log_holds_plain_report [OF memory_file_appends memory_file_appends,
        of "\<lambda>_ _. ''50.0%''" "[sample_result]" True "[]" "[]"] texts shown memory_file_appends
    by (simp add: list_all_iff)
qed


section \<open>The results are those of the discovery\<close>

lemma group_of_enrich:
  "group_of idx (enrich_checks d grouped) = map (enrich_check d) (group_of idx grouped)"
  by (induction grouped) (auto simp: group_of_def enrich_checks_def)

lemma group_of_remove: "idx \<noteq> k \<Longrightarrow> group_of idx (map_remove k grouped) = group_of idx grouped"
  by (simp add: group_of_def delete_conv')

text \<open>The checks pending for one index are those of its authority's addresses.\<close>

lemma pending_checks_from:
  "filter (\<lambda>c. fst c = idx)
     (concat (map (\<lambda>(i, authority).
        (case map_of details authority of
           Some addrs \<Rightarrow> map (\<lambda>addr. (i, addr, g addr)) (iter addrs) | None \<Rightarrow> []))
        (enumerate n as))) =
   (if n \<le> idx \<and> idx < n + length as
    then (case map_of details (as ! (idx - n)) of
            Some addrs \<Rightarrow> map (\<lambda>addr. (idx, addr, g addr)) (iter addrs) | None \<Rightarrow> [])
    else [])"
proof (induction as arbitrary: n)
  case (Cons a as)
  show ?case
    by (cases "idx = n") (auto simp: Cons.IH nth_Cons' filter_empty_conv filter_id_conv
        in_set_enumerate_eq split: option.splits)
qed auto

lemma pending_checks_of:
  "idx < length as \<Longrightarrow>
     filter (\<lambda>c. fst c = idx) (pending_checks is_global iter details as) =
       (case map_of details (as ! idx) of
          Some addrs \<Rightarrow> map (\<lambda>addr. (idx, addr, is_public_address is_global addr)) (iter addrs)
        | None \<Rightarrow> [])"
  unfolding pending_checks_def by (subst pending_checks_from) simp

lemma filter_enumerate: "map snd (filter (\<lambda>kc. P (snd kc)) (enumerate n xs)) = filter P xs"
  by (induction xs arbitrary: n) auto

definition check_of ::
  "(ip_addr \<Rightarrow> bool) \<Rightarrow> ('peer multiaddr, dial_outcome) hash_map \<Rightarrow> 'peer multiaddr
     \<Rightarrow> 'peer address_check \<Rightarrow> bool" where
  "check_of is_global outcomes addr a \<longleftrightarrow>
     ac_full a = Some addr \<and> ac_public a = is_public_address is_global addr
     \<and> ac_dial a = map_of outcomes addr
     \<and> (is_skipped (ac_result a) \<longleftrightarrow> \<not> ac_public a \<or> extract_tcp_endpoint addr = None)"

lemma check_of_check_address:
  "pub = is_public_address is_global addr \<Longrightarrow>
     check_of is_global outcomes addr
       (enrich_check outcomes (snd (check_address addr_text connect (k, idx, addr, pub))))"
  by (auto simp: check_of_def check_address_def enrich_check_def is_skipped_def
      split: option.splits sum.splits address_result.splits if_splits unit.splits)


text \<open>The groups of checks, with their outcomes, are those of the discovered addresses.\<close>

lemma groups_of_discovered:
  assumes "\<And>k. permuting (finish k)" and "permuting iter" and "idx < length as"
  shows "let checks = pending_checks is_global iter details as;
             as' = group_of idx (enrich_checks outcomes
               (fst (run_connectivity_checks addr_text connect finish checks)))
         in mset (map ac_full as') =
              mset (map Some (case map_of details (as ! idx) of Some addrs \<Rightarrow> addrs | None \<Rightarrow> []))
            \<and> (\<forall>a \<in> set as'. \<exists>addr. check_of is_global outcomes addr a)"
proof -
  define checks where "checks = pending_checks is_global iter details as"
  define grp where "grp = group_of idx (fst (run_connectivity_checks addr_text connect finish checks))"
  have "mset grp = mset (checks_of addr_text connect 0 checks idx)"
    using check_batches_exact [of finish, OF assms(1), of idx addr_text connect checks "[]" 0]
    by (simp add: grp_def run_connectivity_checks_def del: mset_map)
  also have "checks_of addr_text connect 0 checks idx =
      map (\<lambda>kc. snd (check_address addr_text connect kc))
        (filter (\<lambda>kc. fst (snd kc) = idx) (enumerate 0 checks))"
    by (simp add: filter_map o_def)
  finally have grp: "mset grp = mset (map (\<lambda>kc. snd (check_address addr_text connect kc))
      (filter (\<lambda>kc. fst (snd kc) = idx) (enumerate 0 checks)))" .
  have full: "ac_full (enrich_check outcomes (snd (check_address addr_text connect kc))) =
      Some (fst (snd (snd kc)))" for kc
    by (cases kc) (simp add: check_address_def enrich_check_def)
  have "mset (map ac_full (map (enrich_check outcomes) grp)) =
      image_mset (\<lambda>a. ac_full (enrich_check outcomes a)) (mset grp)"
    by (simp add: image_mset.compositionality o_def)
  also have "\<dots> = mset (map (\<lambda>c. Some (fst (snd c)))
      (map snd (filter (\<lambda>kc. fst (snd kc) = idx) (enumerate 0 checks))))"
    by (simp add: grp full image_mset.compositionality o_def)
  also have "map snd (filter (\<lambda>kc. fst (snd kc) = idx) (enumerate 0 checks)) =
      filter (\<lambda>c. fst c = idx) checks"
    by (rule filter_enumerate)
  also have "mset (map (\<lambda>c. Some (fst (snd c))) (filter (\<lambda>c. fst c = idx) checks)) =
      mset (map Some (case map_of details (as ! idx) of Some addrs \<Rightarrow> addrs | None \<Rightarrow> []))"
    using assms(2) pending_checks_of [OF assms(3), of is_global iter details]
    by (auto simp: checks_def permuting_def image_mset.compositionality o_def split: option.splits)
  finally have fulls: "mset (map ac_full (map (enrich_check outcomes) grp)) =
      mset (map Some (case map_of details (as ! idx) of Some addrs \<Rightarrow> addrs | None \<Rightarrow> []))" .
  have "\<exists>addr. check_of is_global outcomes addr (enrich_check outcomes a)" if "a \<in> set grp" for a
  proof -
    from that obtain k addr pub where a: "a = snd (check_address addr_text connect (k, idx, addr, pub))"
        and "(k, idx, addr, pub) \<in> set (enumerate 0 checks)"
      using mset_eq_setD [OF grp] by auto
    then have "(idx, addr, pub) \<in> set (filter (\<lambda>c. fst c = idx) checks)"
      by (auto simp: in_set_enumerate_eq) (metis nth_mem)
    then have "pub = is_public_address is_global addr"
      using pending_checks_of [OF assms(3), of is_global iter details]
      by (auto simp: checks_def split: option.splits)
    with a check_of_check_address show ?thesis by blast
  qed
  with fulls show ?thesis
    by (simp add: Let_def group_of_enrich flip: checks_def grp_def del: mset_map)
qed


text \<open>One result per authority, from the maps and its group of checks.\<close>

definition result_matches ::
  "(authority, string) hash_map \<Rightarrow> (authority, 'peer multiaddr hash_set) hash_map \<Rightarrow> authority
     \<Rightarrow> 'peer address_check list \<Rightarrow> 'peer authority_result \<Rightarrow> bool" where
  "result_matches names details authority checks r \<longleftrightarrow>
     ar_identity r = map_of names authority
     \<and> (ar_has_dht r \<longleftrightarrow> authority \<in> fst ` set details)
     \<and> ar_addresses r = (if ar_has_dht r then checks else [])"

lemma authority_result_of_total:
  assumes "\<And>d. 2 \<le> length (ce_blake E d)"
  shows "\<exists>r cr'. authority_result_of E version names stashes details infos idx authority cr = Inr (r, cr')
    \<and> result_matches names details authority (group_of idx cr) r
    \<and> (\<forall>k. k \<noteq> idx \<longrightarrow> group_of k cr' = group_of k cr)"
proof -
  obtain ss58 where ss58: "to_ss58 (ce_blake E) (ce_bs58 E) authority version = Inr ss58"
    using to_ss58_total [of "ce_blake E", OF assms] by blast
  have "\<exists>stash. transpose_panic (map_option (\<lambda>s. to_ss58 (ce_blake E) (ce_bs58 E) s version)
      (map_of stashes authority)) = Inr stash"
    using to_ss58_total [of "ce_blake E", OF assms]
    by (cases "map_of stashes authority") (auto, metis transpose_panic.simps(3))
  then obtain stash where stash: "transpose_panic (map_option
      (\<lambda>s. to_ss58 (ce_blake E) (ce_bs58 E) s version) (map_of stashes authority)) = Inr stash"
    by blast
  show ?thesis
  proof (cases "map_of details authority")
    case None
    then have "authority \<notin> fst ` set details" by (simp add: map_of_eq_None_iff)
    with None ss58 stash show ?thesis
      by (auto simp: authority_result_of_def result_matches_def)
  next
    case (Some addrs)
    with ss58 stash show ?thesis
      by (auto simp: authority_result_of_def result_matches_def Let_def group_of_remove
          group_of_def [of idx] dest: map_of_eq_Some_keys)
  qed
qed

lemma authority_results_total:
  assumes "\<And>d. 2 \<le> length (ce_blake E d)"
  shows "\<exists>rs. authority_results E version names stashes details infos (enumerate n as) cr = Inr rs
    \<and> length rs = length as
    \<and> (\<forall>i < length as. result_matches names details (as ! i) (group_of (n + i) cr) (rs ! i))"
proof (induction as arbitrary: n cr)
  case (Cons a as)
  obtain r cr' where r: "authority_result_of E version names stashes details infos n a cr = Inr (r, cr')"
      "result_matches names details a (group_of n cr) r" "\<forall>k. k \<noteq> n \<longrightarrow> group_of k cr' = group_of k cr"
    using authority_result_of_total [of E, OF assms] by blast
  obtain rs where rs: "authority_results E version names stashes details infos (enumerate (Suc n) as) cr' = Inr rs"
      "length rs = length as"
      "\<forall>i < length as. result_matches names details (as ! i) (group_of (Suc n + i) cr') (rs ! i)"
    using Cons.IH by blast
  from r rs show ?case by (auto simp: nth_Cons split: nat.splits)
qed simp

lemma fully_reachable_not_failing:
  assumes "\<And>r. r \<in> set rs \<Longrightarrow> ar_addresses r \<noteq> [] \<Longrightarrow> ar_has_dht r"
  shows "gs_fully_reachable (compute_global_stats rs) = length (filter (\<lambda>r. \<not> is_authority_failing r) rs)"
proof -
  have "all_public_ok r \<Longrightarrow> ar_addresses r \<noteq> []" for r :: "'a authority_result"
    by (auto simp: all_public_ok_def public_tested_def)
  with assms have "filter all_public_ok rs = filter (\<lambda>r. \<not> is_authority_failing r) rs"
    by (auto simp: not_failing_iff intro!: filter_cong)
  then show ?thesis
    by (simp add: compute_global_stats_def count_authorities no_stats_def)
qed

text \<open>The result of an authority is what was discovered of it.\<close>

definition result_exact ::
  "(ip_addr \<Rightarrow> bool) \<Rightarrow> (authority, string) hash_map \<Rightarrow> (authority, 'peer multiaddr hash_set) hash_map
     \<Rightarrow> ('peer multiaddr, dial_outcome) hash_map \<Rightarrow> authority \<Rightarrow> 'peer authority_result \<Rightarrow> bool" where
  "result_exact is_global names details outcomes authority r \<longleftrightarrow>
     ar_identity r = map_of names authority
     \<and> (ar_has_dht r \<longleftrightarrow> authority \<in> fst ` set details)
     \<and> mset (map ac_full (ar_addresses r)) =
         mset (map Some (case map_of details authority of Some addrs \<Rightarrow> addrs | None \<Rightarrow> []))
     \<and> (\<forall>a \<in> set (ar_addresses r). \<exists>addr. check_of is_global outcomes addr a)"

lemma result_exact_has_dht:
  "result_exact is_global names details outcomes authority r \<Longrightarrow> ar_addresses r \<noteq> [] \<Longrightarrow> ar_has_dht r"
  by (auto simp: result_exact_def split: option.splits dest: map_of_eq_Some_keys)

lemma checked_results_total:
  assumes "\<forall>k. permuting (finish k)" and "permuting (ce_iter E)"
    and "\<forall>d. 2 \<le> length (ce_blake E d)"
  shows "\<exists>rs. checked_results E is_global addr_text connect finish version names stashes
        (details, infos, outcomes) authorities = Inr rs
    \<and> length rs = length authorities
    \<and> (\<forall>i < length authorities.
          result_exact is_global names details outcomes (authorities ! i) (rs ! i))"
proof -
  define cr where "cr = enrich_checks outcomes (fst (run_connectivity_checks addr_text connect finish
    (pending_checks is_global (ce_iter E) details authorities)))"
  obtain rs where rs: "authority_results E version names stashes details infos (enumerate 0 authorities) cr = Inr rs"
      "length rs = length authorities"
      "\<And>i. i < length authorities \<Longrightarrow> result_matches names details (authorities ! i) (group_of i cr) (rs ! i)"
    using authority_results_total [of E version names stashes details infos 0 authorities cr] assms(3)
    by auto
  have "result_exact is_global names details outcomes (authorities ! i) (rs ! i)"
    if "i < length authorities" for i
    using groups_of_discovered [of finish "ce_iter E" i authorities is_global details outcomes addr_text connect]
      assms(1,2) that rs(3) [OF that]
    by (auto simp: result_exact_def result_matches_def Let_def cr_def split: option.splits
        dest: map_of_eq_Some_keys)
  with rs show ?thesis
    by (auto simp: checked_results_def Let_def cr_def)
qed

text \<open>
  C18. The results of the check are those of the discovery, for every order in which maps are
  iterated and checks finish: one result per authority, with a DHT record exactly when the
  discovery has its addresses; each of these addresses appears once, with its dial outcome and
  whether it is public, and only addresses that are not public or have no TCP endpoint are
  skipped; the fully reachable authorities counted are the ones not reported as failing.
\<close>

theorem check_results_exact:
  assumes "\<forall>k. permuting (finish k)" and "permuting (ce_iter E)"
    and "\<forall>d. 2 \<le> length (ce_blake E d)"
  shows "\<exists>rs. checked_results E is_global addr_text connect finish version names stashes
        (details, infos, outcomes) authorities = Inr rs
    \<and> length rs = length authorities
    \<and> (\<forall>i < length authorities.
          ar_identity (rs ! i) = map_of names (authorities ! i)
          \<and> (ar_has_dht (rs ! i) \<longleftrightarrow> authorities ! i \<in> fst ` set details)
          \<and> mset (map ac_full (ar_addresses (rs ! i))) =
              mset (map Some (case map_of details (authorities ! i) of Some addrs \<Rightarrow> addrs | None \<Rightarrow> []))
          \<and> (\<forall>a \<in> set (ar_addresses (rs ! i)). \<exists>addr. check_of is_global outcomes addr a))
    \<and> gs_fully_reachable (compute_global_stats rs) = length (filter (\<lambda>r. \<not> is_authority_failing r) rs)"
proof -
  obtain rs where rs: "checked_results E is_global addr_text connect finish version names stashes
        (details, infos, outcomes) authorities = Inr rs" "length rs = length authorities"
      "\<forall>i < length authorities. result_exact is_global names details outcomes (authorities ! i) (rs ! i)"
    using checked_results_total [OF assms] by blast
  then have "gs_fully_reachable (compute_global_stats rs) = length (filter (\<lambda>r. \<not> is_authority_failing r) rs)"
    by (intro fully_reachable_not_failing) (auto simp: in_set_conv_nth dest: result_exact_has_dht)
  with rs show ?thesis
    unfolding result_exact_def by blast
qed

definition sample_check_env :: "nat check_env" where
  "sample_check_env =
     \<lparr>ce_blake = (\<lambda>_. [1, 2]), ce_bs58 = map (\<lambda>b. char_of (unat b)), ce_iter = rev,
      ce_peer_text = show_nat\<rparr>"

theorem check_results_exact_witness:
  "permuting (rev :: (nat \<times> nat address_check) list \<Rightarrow> _) \<and> permuting (ce_iter sample_check_env)
   \<and> (\<forall>d. 2 \<le> length (ce_blake sample_check_env d))
   \<and> (\<exists>rs. checked_results sample_check_env (\<lambda>_. True) (\<lambda>_. ''/dns/a/p2p/x'') (\<lambda>_ _. TimedOut) (\<lambda>_. rev) 42
        [] [] ([([5], [[Dns ''a'', Tcp 1, P2p 3], [Tcp 2]])], [], [([Tcp 2], DialSuccess)]) [[4], [5]] = Inr rs
      \<and> length rs = 2 \<and> \<not> ar_has_dht (rs ! 0) \<and> length (ar_addresses (rs ! 1)) = 2)"
proof -
  let ?found = "([([5], [[Dns ''a'', Tcp 1, P2p 3], [Tcp 2]])],
    [] :: (nat, nat identify_info) hash_map, [([Tcp 2 :: nat protocol], DialSuccess)])"
  have perm: "\<forall>k :: nat. permuting (rev :: (nat \<times> nat address_check) list \<Rightarrow> _)"
    and iter: "permuting (ce_iter sample_check_env)"
    and blake: "\<forall>d. 2 \<le> length (ce_blake sample_check_env d)"
    by (simp_all add: sample_check_env_def)
  obtain rs where rs: "checked_results sample_check_env (\<lambda>_. True) (\<lambda>_. ''/dns/a/p2p/x'') (\<lambda>_ _. TimedOut)
      (\<lambda>_. rev) 42 [] [] ?found [[4], [5]] = Inr rs" "length rs = 2" "\<not> ar_has_dht (rs ! 0)"
      "mset (map ac_full (ar_addresses (rs ! 1))) =
        mset (map Some [[Dns ''a'', Tcp 1, P2p 3], [Tcp 2]])"
    using check_results_exact [OF perm iter blake, of "\<lambda>_. True" "\<lambda>_. ''/dns/a/p2p/x''" "\<lambda>_ _. TimedOut" 42
        "[]" "[]" "[([5], [[Dns ''a'', Tcp 1, P2p 3], [Tcp 2]])]" "[]" "[([Tcp 2], DialSuccess)]" "[[4], [5]]"]
    by (auto simp: All_less_Suc2 numeral_2_eq_2)
  from mset_eq_length [OF rs(4)] have "length (ar_addresses (rs ! 1)) = 2" by simp
  with rs perm iter blake show ?thesis by blast
qed

section \<open>The summary of versions\<close>

text \<open>
  The summary cuts a long version at its 37th byte. When that byte continues a character,
  as in an agent name of accented letters, printing the summary panics, after the rows before
  it and without the end of the report.
\<close>

theorem long_version_panics_summary:
  "let version = replicate 36 CHR ''a'' @ concat (replicate 3 [CHR 0xC3, CHR 0xA9]);
       st = (no_stats 1)\<lparr>gs_identified := 1, gs_agent_versions := [(version, 1)]\<rparr>
   in fst (print_global_summary memory_file memory_file pct_text (\<lambda>vs. vs) st
             (dual_writer_new [] None)) = PrintPanic (SliceNotCharBoundary 37)"
proof -
  let ?version = "replicate 36 CHR ''a'' @ concat (replicate 3 [CHR 0xC3, CHR 0xA9])"
  have "shown_version ?version = Inl (SliceNotCharBoundary 37)"
    by (simp add: shown_version_def str_slice_to_def is_char_boundary_def nth_append numeral_3_eq_3)
  then have "version_pieces (\<lambda>vs. vs) [(?version, 1)] =
      ([nl, ''  Agent Distribution'' @ nl], Some (SliceNotCharBoundary 37))"
    by (simp add: version_pieces_def Let_def)
  then show ?thesis
    by (simp add: print_global_summary_def Let_def no_stats_def dual_writer_new_def
        write_pieces_no_log [OF memory_file_appends])
qed

end
