(* ===== verification/Identity.thy ===== *)
theory Identity
  imports Rust_Str
begin

unbundle bit_operations_syntax

text \<open>
  On-chain identities (\<open>commands/identity.rs\<close>): the storage keys, the decoding of a
  registration, the batched storage queries and the resolution of display names. The hashes,
  the hex codec and the SCALE codec are third-party code and arguments (\<open>chain_ops\<close>), as is
  the connection to a node: opening one gives an error or the function that answers
  \<open>state_queryStorageAt\<close>.
\<close>

section \<open>Storage keys\<close>

text \<open>
  SCALE decoders give the value and the rest of the input, or \<open>None\<close>; for the values the
  program throws away, only the rest.
\<close>

record chain_ops =
  xx_hash64 :: "u64 \<Rightarrow> bytes \<Rightarrow> u64"          \<comment> \<open>seed, data\<close>
  blake2b_16 :: "bytes \<Rightarrow> bytes"
  chain_hex_encode :: "bytes \<Rightarrow> string"
  chain_hex_decode :: "string \<Rightarrow> bytes option"
  scale_bytes :: "bytes \<Rightarrow> bytes"               \<comment> \<open>encoding of a \<open>Vec<u8>\<close>\<close>
  scale_compact_u32 :: "bytes \<Rightarrow> (u32 \<times> bytes) option"
  scale_compact_u128 :: "bytes \<Rightarrow> bytes option"
  scale_u32 :: "bytes \<Rightarrow> bytes option"
  scale_u128 :: "bytes \<Rightarrow> bytes option"

definition to_le_bytes :: "u64 \<Rightarrow> bytes" where
  "to_le_bytes w = map (\<lambda>i. ucast (drop_bit (8 * i) w)) [0..<8]"

definition twox_128 :: "chain_ops \<Rightarrow> bytes \<Rightarrow> bytes" where
  "twox_128 X d = to_le_bytes (xx_hash64 X 0 d) @ to_le_bytes (xx_hash64 X 1 d)"

definition twox_64 :: "chain_ops \<Rightarrow> bytes \<Rightarrow> bytes" where
  "twox_64 X d = to_le_bytes (xx_hash64 X 0 d)"

definition as_bytes :: "string \<Rightarrow> bytes" where
  "as_bytes s = map (\<lambda>c. of_nat (of_char c)) s"

definition storage_key_twox64concat :: "chain_ops \<Rightarrow> string \<Rightarrow> string \<Rightarrow> bytes \<Rightarrow> string" where
  "storage_key_twox64concat X pallet item encoded_key =
     ''0x'' @ chain_hex_encode X (twox_128 X (as_bytes pallet) @ twox_128 X (as_bytes item)
       @ twox_64 X encoded_key @ encoded_key)"

definition storage_key_blake2_128concat :: "chain_ops \<Rightarrow> string \<Rightarrow> string \<Rightarrow> bytes \<Rightarrow> string" where
  "storage_key_blake2_128concat X pallet item encoded_key =
     ''0x'' @ chain_hex_encode X (twox_128 X (as_bytes pallet) @ twox_128 X (as_bytes item)
       @ blake2b_16 X encoded_key @ encoded_key)"

definition storage_key_session_key_owner :: "chain_ops \<Rightarrow> bytes \<Rightarrow> string" where
  "storage_key_session_key_owner X authority_key =
     storage_key_twox64concat X ''Session'' ''KeyOwner''
       (as_bytes ''audi'' @ scale_bytes X authority_key)"

definition storage_key_identity_of :: "chain_ops \<Rightarrow> bytes \<Rightarrow> string" where
  "storage_key_identity_of X account = storage_key_twox64concat X ''Identity'' ''IdentityOf'' account"

definition storage_key_super_of :: "chain_ops \<Rightarrow> bytes \<Rightarrow> string" where
  "storage_key_super_of X account = storage_key_blake2_128concat X ''Identity'' ''SuperOf'' account"

section \<open>UTF-8\<close>

text \<open>
  \<open>String::from_utf8_lossy\<close>: whether the input starts with a well-formed character, and how
  many bytes the character, or the malformed start of one, takes; each malformed start becomes
  U+FFFD.
\<close>

definition is_continuation :: "u8 \<Rightarrow> bool" where
  "is_continuation b \<longleftrightarrow> 0x80 \<le> b \<and> b \<le> 0xBF"

definition second_ok :: "u8 \<Rightarrow> u8 \<Rightarrow> bool" where
  "second_ok b c \<longleftrightarrow>
     is_continuation c
     \<and> (b = 0xE0 \<longrightarrow> 0xA0 \<le> c) \<and> (b = 0xED \<longrightarrow> c \<le> 0x9F)
     \<and> (b = 0xF0 \<longrightarrow> 0x90 \<le> c) \<and> (b = 0xF4 \<longrightarrow> c \<le> 0x8F)"

fun continuations :: "nat \<Rightarrow> nat \<Rightarrow> bytes \<Rightarrow> bool \<times> nat" where
  "continuations 0 taken bs = (True, taken)"
| "continuations (Suc n) taken [] = (False, taken)"
| "continuations (Suc n) taken (b # bs) =
     (if is_continuation b then continuations n (taken + 1) bs else (False, taken))"

fun utf8_head :: "bytes \<Rightarrow> bool \<times> nat" where
  "utf8_head [] = (True, 0)"
| "utf8_head (b # bs) =
     (if b < 0x80 then (True, 1)
      else if 0xC2 \<le> b \<and> b \<le> 0xDF then continuations 1 1 bs
      else if 0xE0 \<le> b \<and> b \<le> 0xF4 then
        (case bs of
           c # cs \<Rightarrow>
             if second_ok b c then continuations (if b \<le> 0xEF then 1 else 2) 2 cs else (False, 1)
         | [] \<Rightarrow> (False, 1))
      else (False, 1))"

lemma continuations_taken: "taken \<le> snd (continuations n taken bs)"
  by (induction n taken bs rule: continuations.induct) auto

lemma utf8_head_pos: "0 < snd (utf8_head (b # bs))"
  using continuations_taken [of 1 1 bs]
  by (auto split: list.splits intro: less_le_trans [OF _ continuations_taken])

definition as_string :: "bytes \<Rightarrow> string" where
  "as_string bs = map (\<lambda>b. char_of (unat b)) bs"

function from_utf8_lossy :: "bytes \<Rightarrow> string" where
  "from_utf8_lossy [] = []"
| "from_utf8_lossy (b # bs) =
     (case utf8_head (b # bs) of
        (True, n) \<Rightarrow> as_string (take n (b # bs)) @ from_utf8_lossy (drop n (b # bs))
      | (False, n) \<Rightarrow> [CHR 0xEF, CHR 0xBF, CHR 0xBD] @ from_utf8_lossy (drop n (b # bs)))"
  by pat_completeness auto
termination
proof (relation "measure length", goal_cases)
  case (2 b bs x n)
  then show ?case using utf8_head_pos [of b bs] by (auto simp: prod_eq_iff)
next
  case (3 b bs x n)
  then show ?case using utf8_head_pos [of b bs] by (auto simp: prod_eq_iff)
qed simp

section \<open>Decoding a registration\<close>

definition skip_data :: "bytes \<Rightarrow> bytes option" where
  "skip_data input =
     (case input of
        [] \<Rightarrow> None
      | variant # rest \<Rightarrow>
          (let skip = (if variant = 0 then Some 0
                       else if 1 \<le> variant \<and> variant \<le> 33 then Some (unat (variant - 1))
                       else if 34 \<le> variant \<and> variant \<le> 37 then Some 32
                       else None)
           in case skip of
                None \<Rightarrow> None
              | Some n \<Rightarrow> if length rest < n then None else Some (drop n rest)))"

text \<open>The text, if any, and the rest of the input.\<close>

definition decode_data_as_string :: "bytes \<Rightarrow> string option \<times> bytes" where
  "decode_data_as_string input =
     (case input of
        [] \<Rightarrow> (None, [])
      | variant # rest \<Rightarrow>
          if variant = 0 then (None, rest)
          else if 1 \<le> variant \<and> variant \<le> 33 then
            (let len = unat (variant - 1)
             in if length rest < len then (None, rest)
                else
                  (let s = from_utf8_lossy (take len rest)
                   in (if s = [] then None else Some s, drop len rest)))
          else if 34 \<le> variant \<and> variant \<le> 37 then
            (if length rest < 32 then (None, rest) else (None, drop 32 rest))
          else (None, rest))"

definition skip_judgement :: "chain_ops \<Rightarrow> bytes \<Rightarrow> bytes option" where
  "skip_judgement X input =
     (case input of
        [] \<Rightarrow> None
      | variant # rest \<Rightarrow>
          if variant = 0 \<or> 2 \<le> variant \<and> variant \<le> 6 then Some rest
          else if variant = 1 then scale_compact_u128 X rest
          else None)"

fun skip_judgements :: "chain_ops \<Rightarrow> nat \<Rightarrow> bytes \<Rightarrow> bytes option" where
  "skip_judgements X 0 input = Some input"
| "skip_judgements X (Suc n) input =
     (case scale_u32 X input of
        None \<Rightarrow> None
      | Some rest \<Rightarrow>
          (case skip_judgement X rest of None \<Rightarrow> None | Some rest' \<Rightarrow> skip_judgements X n rest'))"

fun skip_fields :: "nat \<Rightarrow> bytes \<Rightarrow> bytes option" where
  "skip_fields 0 input = Some input"
| "skip_fields (Suc n) input =
     (case skip_data input of
        None \<Rightarrow> None
      | Some rest \<Rightarrow> (case skip_data rest of None \<Rightarrow> None | Some rest' \<Rightarrow> skip_fields n rest'))"

definition skip_additional :: "chain_ops \<Rightarrow> bytes \<Rightarrow> bytes option" where
  "skip_additional X input =
     (case scale_compact_u32 X input of
        None \<Rightarrow> None
      | Some (n, rest) \<Rightarrow> if 64 < unat n then None else skip_fields (unat n) rest)"

definition decode_registration_display :: "chain_ops \<Rightarrow> bytes \<Rightarrow> bool \<Rightarrow> string option" where
  "decode_registration_display X raw has_additional =
     (case scale_compact_u32 X raw of
        None \<Rightarrow> None
      | Some (len, rest) \<Rightarrow>
          (case skip_judgements X (unat len) rest of
             None \<Rightarrow> None
           | Some rest1 \<Rightarrow>
               (case scale_u128 X rest1 of
                  None \<Rightarrow> None
                | Some rest2 \<Rightarrow>
                    (case (if has_additional then skip_additional X rest2 else Some rest2) of
                       None \<Rightarrow> None
                     | Some rest3 \<Rightarrow> fst (decode_data_as_string rest3)))))"

definition decode_display_name :: "chain_ops \<Rightarrow> bytes \<Rightarrow> string option" where
  "decode_display_name X raw =
     (case decode_registration_display X raw False of
        Some name \<Rightarrow> Some name
      | None \<Rightarrow> decode_registration_display X raw True)"

definition decode_super_of_parent :: "bytes \<Rightarrow> bytes option" where
  "decode_super_of_parent raw = (if length raw < 32 then None else Some (take 32 raw))"

section \<open>Storage queries\<close>

definition CHUNK_SIZE :: nat where
  "CHUNK_SIZE = 500"

function chunks :: "nat \<Rightarrow> 'a list \<Rightarrow> 'a list list" where
  "chunks n xs = (if xs = [] \<or> n = 0 then [] else take n xs # chunks n (drop n xs))"
  by pat_completeness auto
termination
  by (relation "measure (\<lambda>(n, xs). length xs)") (auto simp: neq_Nil_conv)

declare chunks.simps [simp del]

text \<open>
  The answer to a query is a list of change sets, each a list of keys with their value if they
  have one.
\<close>

type_synonym 'e storage_rpc = "string list \<Rightarrow> 'e + (string \<times> string option) list list"

definition insert_change ::
  "chain_ops \<Rightarrow> string \<times> string option \<Rightarrow> (string, bytes) hash_map \<Rightarrow> (string, bytes) hash_map" where
  "insert_change X = (\<lambda>(key, val) m.
     (case val of
        None \<Rightarrow> m
      | Some hex_val \<Rightarrow>
          (case chain_hex_decode X (trim_start_matches ''0x'' hex_val) of
             None \<Rightarrow> m
           | Some bs \<Rightarrow> AList.update key bs m)))"

fun query_chunks ::
  "chain_ops \<Rightarrow> 'e storage_rpc \<Rightarrow> string list list \<Rightarrow> (string, bytes) hash_map
     \<Rightarrow> 'e + (string, bytes) hash_map" where
  "query_chunks X query [] m = Inr m"
| "query_chunks X query (chunk # rest) m =
     (case query chunk of
        Inl e \<Rightarrow> Inl e
      | Inr response \<Rightarrow> query_chunks X query rest (fold (insert_change X) (concat response) m))"

definition batch_get_storage ::
  "chain_ops \<Rightarrow> 'e storage_rpc \<Rightarrow> string list \<Rightarrow> 'e + (string, bytes) hash_map" where
  "batch_get_storage X query ks =
     (if ks = [] then Inr [] else query_chunks X query (chunks CHUNK_SIZE ks) [])"

section \<open>Resolving names\<close>

record identity_result =
  ir_names :: "(bytes, string) hash_map"
  ir_stash_accounts :: "(bytes, bytes) hash_map"

text \<open>The orders in which the hash maps are iterated.\<close>

record map_orders =
  mo_stash_pairs :: "(bytes \<times> bytes) list \<Rightarrow> (bytes \<times> bytes) list"
  mo_stashes :: "bytes list \<Rightarrow> bytes list"
  mo_parents :: "bytes list \<Rightarrow> bytes list"

definition stash_accounts ::
  "chain_ops \<Rightarrow> (string, bytes) hash_map \<Rightarrow> bytes list \<Rightarrow> (bytes, bytes) hash_map" where
  "stash_accounts X key_owner_values authorities =
     fold (\<lambda>auth m.
       (case map_of key_owner_values (storage_key_session_key_owner X auth) of
          Some val \<Rightarrow> if 32 \<le> length val then AList.update auth (take 32 val) m else m
        | None \<Rightarrow> m)) authorities []"

definition invert_stashes :: "(bytes \<times> bytes) list \<Rightarrow> (bytes, bytes) hash_map" where
  "invert_stashes pairs = fold (\<lambda>(a, s). AList.update s a) pairs []"

text \<open>The names found directly, and the accounts without one.\<close>

definition direct_name ::
  "chain_ops \<Rightarrow> (bytes, bytes) hash_map \<Rightarrow> (string, bytes) hash_map \<Rightarrow> bytes
     \<Rightarrow> (bytes, string) hash_map \<times> bytes list \<Rightarrow> (bytes, string) hash_map \<times> bytes list" where
  "direct_name X stash_to_auth identity_values stash = (\<lambda>(names, missing).
     (case Option.bind (map_of identity_values (storage_key_identity_of X stash)) (decode_display_name X) of
        Some display \<Rightarrow>
          (case map_of stash_to_auth stash of
             Some auth \<Rightarrow> (AList.update auth display names, missing)
           | None \<Rightarrow> (names, missing))
      | None \<Rightarrow> (names, missing @ [stash])))"

definition children_of ::
  "chain_ops \<Rightarrow> (string, bytes) hash_map \<Rightarrow> bytes list \<Rightarrow> (bytes, bytes list) hash_map" where
  "children_of X super_values missing =
     fold (\<lambda>stash m.
       (case Option.bind (map_of super_values (storage_key_super_of X stash)) decode_super_of_parent of
          Some parent \<Rightarrow> map_entry parent (\<lambda>cs. cs @ [stash]) [stash] m
        | None \<Rightarrow> m)) missing []"

definition name_child ::
  "(bytes, bytes) hash_map \<Rightarrow> string \<Rightarrow> bytes \<Rightarrow> (bytes, string) hash_map \<Rightarrow> (bytes, string) hash_map" where
  "name_child stash_to_auth display child names =
     (case map_of stash_to_auth child of
        Some auth \<Rightarrow> AList.update auth display names
      | None \<Rightarrow> names)"

definition parent_name ::
  "chain_ops \<Rightarrow> (bytes, bytes) hash_map \<Rightarrow> (string, bytes) hash_map \<Rightarrow> (bytes, bytes list) hash_map
     \<Rightarrow> bytes \<Rightarrow> (bytes, string) hash_map \<Rightarrow> (bytes, string) hash_map" where
  "parent_name X stash_to_auth parent_values children parent names =
     (case Option.bind (map_of parent_values (storage_key_identity_of X parent)) (decode_display_name X) of
        Some display \<Rightarrow>
          fold (name_child stash_to_auth display)
            (case map_of children parent of Some cs \<Rightarrow> cs | None \<Rightarrow> []) names
      | None \<Rightarrow> names)"

text \<open>The fallback on parent accounts; a failed query leaves the names as they are.\<close>

definition parent_names ::
  "chain_ops \<Rightarrow> map_orders \<Rightarrow> 'e storage_rpc \<Rightarrow> (bytes, bytes) hash_map \<Rightarrow> bytes list
     \<Rightarrow> (bytes, string) hash_map \<Rightarrow> (bytes, string) hash_map" where
  "parent_names X M query stash_to_auth missing names =
     (if missing = [] then names
      else
        (case batch_get_storage X query (map (storage_key_super_of X) missing) of
           Inl _ \<Rightarrow> names
         | Inr super_values \<Rightarrow>
             (let children = children_of X super_values missing
              in if children = [] then names
                 else
                   (let parents = mo_parents M (keys children)
                    in case batch_get_storage X query (map (storage_key_identity_of X) parents) of
                         Inl _ \<Rightarrow> names
                       | Inr parent_values \<Rightarrow>
                           fold (parent_name X stash_to_auth parent_values children) parents names))))"

definition fetch_identity_names ::
  "chain_ops \<Rightarrow> map_orders \<Rightarrow> ('url \<Rightarrow> 'e + 'e storage_rpc) \<Rightarrow> 'url \<Rightarrow> 'url option \<Rightarrow> bytes list
     \<Rightarrow> identity_result" where
  "fetch_identity_names X M connect relay_url identity_url authorities =
     (let empty_result = \<lparr>ir_names = [], ir_stash_accounts = []\<rparr>
      in case connect relay_url of
           Inl _ \<Rightarrow> empty_result
         | Inr relay \<Rightarrow>
             (case batch_get_storage X relay (map (storage_key_session_key_owner X) authorities) of
                Inl _ \<Rightarrow> empty_result
              | Inr key_owner_values \<Rightarrow>
                  (let auth_to_stash = stash_accounts X key_owner_values authorities
                   in if auth_to_stash = [] then empty_result
                      else
                        (case connect (case identity_url of Some u \<Rightarrow> u | None \<Rightarrow> relay_url) of
                           Inl _ \<Rightarrow> \<lparr>ir_names = [], ir_stash_accounts = auth_to_stash\<rparr>
                         | Inr query \<Rightarrow>
                             (let stash_to_auth = invert_stashes (mo_stash_pairs M auth_to_stash);
                                  unique_stashes = mo_stashes M (keys stash_to_auth)
                              in case batch_get_storage X query
                                        (map (storage_key_identity_of X) unique_stashes) of
                                   Inl _ \<Rightarrow> \<lparr>ir_names = [], ir_stash_accounts = auth_to_stash\<rparr>
                                 | Inr identity_values \<Rightarrow>
                                     (case fold (direct_name X stash_to_auth identity_values)
                                             unique_stashes ([], []) of
                                        (names, missing) \<Rightarrow>
                                          \<lparr>ir_names = parent_names X M query stash_to_auth missing names,
                                           ir_stash_accounts = auth_to_stash\<rparr>))))))"

section \<open>Registrations\<close>

text \<open>
  The documented SCALE format, as far as the decoder relies on it: a number below 64 is one
  byte in compact form, fixed-width numbers take their width.
\<close>

definition scale_documented :: "chain_ops \<Rightarrow> bool" where
  "scale_documented X \<longleftrightarrow>
     (\<forall>n r. n < 64 \<longrightarrow> scale_compact_u32 X (of_nat (4 * n) # r) = Some (of_nat n, r))
     \<and> (\<forall>bs r. length bs = 4 \<longrightarrow> scale_u32 X (bs @ r) = Some r)
     \<and> (\<forall>bs r. length bs = 16 \<longrightarrow> scale_u128 X (bs @ r) = Some r)"

text \<open>Encoding: raw data, judgements (a registrar and a variant without a fee), registrations.\<close>

definition encode_raw :: "bytes \<Rightarrow> bytes" where
  "encode_raw d = of_nat (length d + 1) # d"

definition encode_judgements :: "(bytes \<times> u8) list \<Rightarrow> bytes" where
  "encode_judgements js = of_nat (4 * length js) # concat (map (\<lambda>(i, v). i @ [v]) js)"

definition judgements_ok :: "(bytes \<times> u8) list \<Rightarrow> bool" where
  "judgements_ok js \<longleftrightarrow> length js < 64 \<and> (\<forall>(i, v) \<in> set js. length i = 4 \<and> v \<in> {0, 2, 3, 4, 5, 6})"

definition encode_fields :: "(bytes \<times> bytes) list \<Rightarrow> bytes" where
  "encode_fields fs = concat (map (\<lambda>(a, b). encode_raw a @ encode_raw b) fs)"

definition fields_ok :: "(bytes \<times> bytes) list \<Rightarrow> bool" where
  "fields_ok fs \<longleftrightarrow> length fs < 64 \<and> (\<forall>(a, b) \<in> set fs. length a \<le> 32 \<and> length b \<le> 32)"

definition simple_registration :: "(bytes \<times> u8) list \<Rightarrow> bytes \<Rightarrow> bytes \<Rightarrow> bytes \<Rightarrow> bytes" where
  "simple_registration js deposit display tail =
     encode_judgements js @ deposit @ encode_raw display @ tail"

definition legacy_registration ::
  "(bytes \<times> u8) list \<Rightarrow> bytes \<Rightarrow> (bytes \<times> bytes) list \<Rightarrow> bytes \<Rightarrow> bytes \<Rightarrow> bytes" where
  "legacy_registration js deposit fs display tail =
     encode_judgements js @ deposit @ of_nat (4 * length fs) # encode_fields fs @ encode_raw display @ tail"

lemma u8_small: "n < 256 \<Longrightarrow> unat (of_nat n :: u8) = n"
  by (simp add: unat_of_nat)

lemma u8_order:
  assumes "n < 256" and "m < 256"
  shows "(of_nat n :: u8) \<le> of_nat m \<longleftrightarrow> n \<le> m" and "(of_nat n :: u8) = of_nat m \<longleftrightarrow> n = m"
  using u8_small [OF assms(1)] u8_small [OF assms(2)] by (simp add: word_le_nat_alt, metis)

lemma lossy_nonempty: "from_utf8_lossy d = [] \<longleftrightarrow> d = []"
proof (cases d)
  case (Cons b bs)
  obtain ok n where h: "utf8_head (b # bs) = (ok, n)" by fastforce
  then have "0 < n" using utf8_head_pos [of b bs] by simp
  with h show ?thesis
    unfolding Cons from_utf8_lossy.simps(2) h
    by (cases ok) (simp_all add: as_string_def del: from_utf8_lossy.simps)
qed simp

lemma u8_bounds:
  assumes "n < 256"
  shows "(of_nat n :: u8) = 0 \<longleftrightarrow> n = 0" "1 \<le> (of_nat n :: u8) \<longleftrightarrow> 1 \<le> n"
    "(of_nat n :: u8) \<le> 33 \<longleftrightarrow> n \<le> 33" "34 \<le> (of_nat n :: u8) \<longleftrightarrow> 34 \<le> n"
    "(of_nat n :: u8) \<le> 37 \<longleftrightarrow> n \<le> 37"
  using u8_order(2) [OF assms, of 0] u8_order(1) [OF _ assms, of 1] u8_order(1) [OF assms, of 33]
    u8_order(1) [OF _ assms, of 34] u8_order(1) [OF assms, of 37]
  by simp_all

lemma u8_pred:
  assumes "1 \<le> n" and "n < 256"
  shows "unat ((of_nat n :: u8) - 1) = n - 1"
proof -
  have "(of_nat n :: u8) - 1 = of_nat (n - 1)" using assms(1) by (simp add: of_nat_diff)
  then show ?thesis using u8_small [of "n - 1"] assms(2) by (simp only: less_imp_diff_less)
qed

lemma decode_data_variant:
  assumes "n < 256"
  shows "fst (decode_data_as_string (of_nat n # r)) =
    (if 2 \<le> n \<and> n \<le> 33 \<and> n - 1 \<le> length r then Some (from_utf8_lossy (take (n - 1) r)) else None)"
proof (cases "1 \<le> n \<and> n \<le> 33")
  case True
  then show ?thesis
    by (simp add: decode_data_as_string_def u8_bounds [OF assms] u8_pred Let_def lossy_nonempty assms)
next
  case False
  then show ?thesis
    by (auto simp: decode_data_as_string_def u8_bounds [OF assms])
qed

lemma decode_raw:
  "length d \<le> 32 \<Longrightarrow> d \<noteq> [] \<Longrightarrow> fst (decode_data_as_string (encode_raw d @ r)) = Some (from_utf8_lossy d)"
  unfolding encode_raw_def append_Cons by (subst decode_data_variant) (cases d; auto)+

lemma skip_raw:
  assumes "length d \<le> 32"
  shows "skip_data (encode_raw d @ r) = Some r"
proof -
  have n: "length d + 1 < 256" using assms by simp
  show ?thesis
    unfolding skip_data_def encode_raw_def append_Cons list.case u8_bounds [OF n] u8_pred [OF _ n, simplified]
    using assms u8_pred [OF _ n] by (simp add: Let_def)
qed

lemma skip_encoded_fields:
  "(\<forall>(a, b) \<in> set fs. length a \<le> 32 \<and> length b \<le> 32) \<Longrightarrow>
     skip_fields (length fs) (encode_fields fs @ r) = Some r"
  by (induction fs) (auto simp: encode_fields_def skip_raw)

lemma skip_encoded_judgements:
  assumes "scale_documented X"
  shows "(\<forall>(i, v) \<in> set js. length i = 4 \<and> v \<in> {0, 2, 3, 4, 5, 6}) \<Longrightarrow>
     skip_judgements X (length js) (concat (map (\<lambda>(i, v). i @ [v]) js) @ r) = Some r"
proof (induction js)
  case (Cons j js)
  obtain i v where j: "j = (i, v)" by (cases j)
  have "scale_u32 X (i @ v # concat (map (\<lambda>(i, v). i @ [v]) js) @ r) =
      Some (v # concat (map (\<lambda>(i, v). i @ [v]) js) @ r)"
    using assms Cons.prems j by (auto simp: scale_documented_def)
  with Cons j show ?case by (auto simp: skip_judgement_def)
qed simp

lemma decode_after_deposit:
  assumes "scale_documented X" and "judgements_ok js" and "length deposit = 16"
  shows "decode_registration_display X (encode_judgements js @ deposit @ r) additional =
    (case (if additional then skip_additional X r else Some r) of
       None \<Rightarrow> None | Some r' \<Rightarrow> fst (decode_data_as_string r'))"
proof -
  have "length js < 64" using assms(2) by (simp add: judgements_ok_def)
  then have "scale_compact_u32 X (encode_judgements js @ deposit @ r) =
      Some (of_nat (length js), concat (map (\<lambda>(i, v). i @ [v]) js) @ deposit @ r)"
    and "unat (of_nat (length js) :: u32) = length js"
    using assms(1) by (simp_all add: scale_documented_def encode_judgements_def unat_of_nat)
  moreover have "skip_judgements X (length js) (concat (map (\<lambda>(i, v). i @ [v]) js) @ deposit @ r) =
      Some (deposit @ r)"
    using assms by (intro skip_encoded_judgements) (simp_all add: judgements_ok_def)
  moreover have "scale_u128 X (deposit @ r) = Some r"
    using assms(1,3) by (simp add: scale_documented_def)
  ultimately show ?thesis
    by (simp add: decode_registration_display_def)
qed

lemma skip_encoded_additional:
  assumes "scale_documented X" and "fields_ok fs"
  shows "skip_additional X (of_nat (4 * length fs) # encode_fields fs @ r) = Some r"
proof -
  have len: "length fs < 64" using assms(2) by (simp add: fields_ok_def)
  then have "scale_compact_u32 X (of_nat (4 * length fs) # encode_fields fs @ r) =
      Some (of_nat (length fs), encode_fields fs @ r)"
    using assms(1) by (simp only: scale_documented_def)
  with len assms(2) show ?thesis
    by (simp add: skip_additional_def unat_of_nat skip_encoded_fields fields_ok_def)
qed

text \<open>
  C30. A registration of a people chain decodes to its display name. One of a relay chain
  (legacy layout) does too when it has no additional fields, or nine and more. With one to
  eight, their encoded number reads as the length of a display name in the layout that is tried
  first, and the bytes of the fields that follow it are returned as the name.
\<close>

theorem registration_display_name:
  assumes "scale_documented X" and "judgements_ok js" and "length deposit = 16"
    and "fields_ok fs" and "display \<noteq> []" and "length display \<le> 32"
  shows "decode_display_name X (simple_registration js deposit display tail) = Some (from_utf8_lossy display)
    \<and> decode_display_name X (legacy_registration js deposit fs display tail) =
        (let k = length fs; body = encode_fields fs @ encode_raw display @ tail
         in if 1 \<le> k \<and> k \<le> 8 \<and> 4 * k - 1 \<le> length body
            then Some (from_utf8_lossy (take (4 * k - 1) body))
            else Some (from_utf8_lossy display))"
proof -
  note after = decode_after_deposit [OF assms(1-3)]
  have simple: "decode_registration_display X (simple_registration js deposit display tail) False =
      Some (from_utf8_lossy display)"
    unfolding simple_registration_def after using assms(5,6) by (simp add: decode_raw)
  let ?k = "length fs" and ?body = "encode_fields fs @ encode_raw display @ tail"
  have "?k < 64" using assms(4) by (simp add: fields_ok_def)
  then have first: "decode_registration_display X (legacy_registration js deposit fs display tail) False =
      (if 2 \<le> 4 * ?k \<and> 4 * ?k \<le> 33 \<and> 4 * ?k - 1 \<le> length ?body
       then Some (from_utf8_lossy (take (4 * ?k - 1) ?body)) else None)"
    unfolding legacy_registration_def after by (simp add: decode_data_variant [of "4 * ?k", simplified])
  have "decode_registration_display X (legacy_registration js deposit fs display tail) True =
      Some (from_utf8_lossy display)"
    unfolding legacy_registration_def after
    using assms(5,6) by (simp add: skip_encoded_additional [OF assms(1,4), simplified] decode_raw)
  moreover have "2 \<le> 4 * ?k \<and> 4 * ?k \<le> 33 \<longleftrightarrow> 1 \<le> ?k \<and> ?k \<le> 8" by auto
  ultimately show ?thesis
    using simple first by (auto simp: decode_display_name_def Let_def)
qed

definition sample_chain :: chain_ops where
  "sample_chain =
     \<lparr>xx_hash64 = (\<lambda>_ _. 0), blake2b_16 = (\<lambda>_. []), chain_hex_encode = as_string,
      chain_hex_decode = (\<lambda>s. Some (as_bytes s)), scale_bytes = (\<lambda>bs. bs),
      scale_compact_u32 = (\<lambda>bs. case bs of [] \<Rightarrow> None | b # r \<Rightarrow> Some (ucast (drop_bit 2 b), r)),
      scale_compact_u128 = (\<lambda>bs. case bs of [] \<Rightarrow> None | b # r \<Rightarrow> Some r),
      scale_u32 = (\<lambda>bs. if length bs < 4 then None else Some (drop 4 bs)),
      scale_u128 = (\<lambda>bs. if length bs < 16 then None else Some (drop 16 bs))\<rparr>"

lemma compact_single_byte:
  assumes "n < 64"
  shows "(ucast (drop_bit 2 (of_nat (4 * n) :: u8)) :: u32) = of_nat n"
proof -
  have four: "unat (of_nat (4 * n) :: u8) = 4 * n" using assms by (intro u8_small) simp
  have "unat (drop_bit 2 (of_nat (4 * n) :: u8)) = n"
    unfolding unat_drop_bit_eq four by (simp add: drop_bit_eq_div)
  then show ?thesis by (metis of_nat_unat)
qed

lemma sample_chain_documented: "scale_documented sample_chain"
  using compact_single_byte by (simp add: scale_documented_def sample_chain_def)

theorem registration_display_name_witness:
  "decode_display_name sample_chain
     (legacy_registration [] (replicate 16 0) [([0x61, 0x62, 0x63], [0x64])] [0x41] []) = Some [CHR 0x04, CHR ''a'', CHR ''b'']"
proof -
  have "judgements_ok []" "length (replicate 16 (0 :: u8)) = 16" "fields_ok [([0x61, 0x62, 0x63], [0x64])]"
    by (simp_all add: judgements_ok_def fields_ok_def)
  from registration_display_name [OF sample_chain_documented this, of "[0x41]" "[]"]
  have r: "decode_display_name sample_chain
      (legacy_registration [] (replicate 16 0) [([0x61, 0x62, 0x63], [0x64])] [0x41] []) =
      Some (from_utf8_lossy [4, 0x61, 0x62])"
    by (simp add: Let_def encode_fields_def encode_raw_def del: from_utf8_lossy.simps)
  have "from_utf8_lossy [4, 0x61, 0x62] = [CHR 0x04, CHR ''a'', CHR ''b'']" by code_simp
  with r show ?thesis by (simp del: from_utf8_lossy.simps)
qed

end
