(* ===== verification/Identity_Names.thy ===== *)
theory Identity_Names
  imports Identity
begin

text \<open>
  The resolution of names by \<open>fetch_identity_names\<close> against what the chain holds. Nodes
  are any that answer the storage keys they are asked for (\<open>answers\<close>); the reference is the
  name stored for an account, or for its parent (\<open>resolved_name\<close>). The loops of the program
  are read as lists of assignments to a map (\<open>assign_all\<close>).
\<close>

section \<open>Batches\<close>

lemma concat_chunks: "0 < n \<Longrightarrow> concat (chunks n xs) = xs"
proof (induction n xs rule: chunks.induct)
  case (1 n xs)
  then show ?case
    by (cases "xs = []") (simp_all add: chunks.simps [of n xs] chunks.simps [of n "[]"])
qed

lemma chunks_bounded: "c \<in> set (chunks n xs) \<Longrightarrow> length c \<le> n \<and> c \<noteq> []"
proof (induction n xs rule: chunks.induct)
  case (1 n xs)
  then show ?case by (cases "xs = [] \<or> n = 0") (auto simp: chunks.simps [of n xs])
qed

text \<open>A node that answers every key asked for, in change sets of any size.\<close>

definition answers :: "'e storage_rpc \<Rightarrow> (string \<Rightarrow> string option) \<Rightarrow> bool" where
  "answers query val \<longleftrightarrow>
     (\<forall>ks. length ks \<le> CHUNK_SIZE \<longrightarrow>
        (\<exists>response. query ks = Inr response \<and> concat response = map (\<lambda>k. (k, val k)) ks))"

text \<open>The bytes stored under a key.\<close>

definition stored :: "chain_ops \<Rightarrow> (string \<Rightarrow> string option) \<Rightarrow> string \<Rightarrow> bytes option" where
  "stored X val k = Option.bind (val k) (\<lambda>h. chain_hex_decode X (trim_start_matches ''0x'' h))"

lemma map_of_insert_changes:
  "map_of (fold (insert_change X) (map (\<lambda>k. (k, val k)) ks) m) key =
     (if key \<in> set ks \<and> stored X val key \<noteq> None then stored X val key else map_of m key)"
  by (induction ks arbitrary: m)
    (auto simp: insert_change_def stored_def update_conv' split: option.splits)

lemma query_chunks_answers:
  assumes "answers query val" and "\<And>c. c \<in> set cs \<Longrightarrow> length c \<le> CHUNK_SIZE"
  shows "\<exists>m'. query_chunks X query cs m = Inr m'
    \<and> (\<forall>k. map_of m' k =
          (if k \<in> set (concat cs) \<and> stored X val k \<noteq> None then stored X val k else map_of m k))"
  using assms(2)
proof (induction cs arbitrary: m)
  case (Cons c cs)
  obtain response where resp: "query c = Inr response" "concat response = map (\<lambda>k. (k, val k)) c"
    using assms(1) Cons.prems [of c] by (auto simp: answers_def)
  show ?case
    using Cons.IH [of "fold (insert_change X) (map (\<lambda>k. (k, val k)) c) m"] Cons.prems
    by (auto simp: resp map_of_insert_changes)
qed simp

lemma batch_get_storage_answers:
  assumes "answers query val"
  shows "\<exists>m. batch_get_storage X query ks = Inr m
    \<and> (\<forall>k. map_of m k = (if k \<in> set ks then stored X val k else None))"
proof -
  have "\<exists>m. query_chunks X query (chunks CHUNK_SIZE ks) [] = Inr m
      \<and> (\<forall>k. map_of m k = (if k \<in> set (concat (chunks CHUNK_SIZE ks)) \<and> stored X val k \<noteq> None
            then stored X val k else map_of [] k))"
    using assms chunks_bounded by (intro query_chunks_answers) blast+
  then show ?thesis
    by (cases "ks = []") (auto simp: batch_get_storage_def concat_chunks CHUNK_SIZE_def)
qed

lemma batch_lookup:
  assumes "answers query val" and "batch_get_storage X query (map key xs) = Inr m" and "x \<in> set xs"
  shows "map_of m (key x) = stored X val (key x)"
  using batch_get_storage_answers [OF assms(1), of X "map key xs"] assms(2,3) by auto

section \<open>Assignments in a loop\<close>

text \<open>A loop that assigns what each element gives, if it gives anything.\<close>

abbreviation assign_all ::
  "('x \<Rightarrow> ('k \<times> 'v) option) \<Rightarrow> 'x list \<Rightarrow> ('k, 'v) hash_map \<Rightarrow> ('k, 'v) hash_map" where
  "assign_all f \<equiv> fold (\<lambda>x m. case f x of Some (k, v) \<Rightarrow> AList.update k v m | None \<Rightarrow> m)"

lemma assign_all_sound:
  "map_of (assign_all f xs m) k = Some v \<Longrightarrow> map_of m k = Some v \<or> (\<exists>x \<in> set xs. f x = Some (k, v))"
proof (induction xs arbitrary: m)
  case (Cons x xs)
  show ?case
  proof (cases "f x")
    case None
    with Cons.IH [of m] Cons.prems show ?thesis by auto
  next
    case (Some kv)
    obtain k' v' where kv: "kv = (k', v')" by (cases kv)
    with Some Cons.IH [of "AList.update k' v' m"] Cons.prems show ?thesis
      by (auto simp: update_conv' split: if_splits)
  qed
qed simp

lemma assign_all_other:
  "(\<And>x v. x \<in> set xs \<Longrightarrow> f x \<noteq> Some (k, v)) \<Longrightarrow> map_of (assign_all f xs m) k = map_of m k"
  by (induction xs arbitrary: m) (auto simp: update_conv' split: option.splits prod.splits)

lemma assign_all_value:
  assumes "x \<in> set xs" and "f x = Some (k, v)"
    and "\<And>y v'. y \<in> set xs \<Longrightarrow> f y = Some (k, v') \<Longrightarrow> v' = v"
  shows "map_of (assign_all f xs m) k = Some v"
  using assms
proof (induction xs arbitrary: x m)
  case (Cons y xs)
  have later: "f z = Some (k, v') \<Longrightarrow> v' = v" if "z \<in> set xs" for z v'
    using Cons.prems(3) [of z] that by simp
  show ?case
  proof (cases "\<exists>z \<in> set xs. \<exists>v'. f z = Some (k, v')")
    case True
    then obtain z v' where z: "z \<in> set xs" "f z = Some (k, v')" by blast
    with later have "f z = Some (k, v)" by blast
    from Cons.IH [OF z(1) this later] show ?thesis by simp
  next
    case False
    with Cons.prems(1,2) have "f y = Some (k, v)" by auto
    with False assign_all_other [of xs f k] show ?thesis by (auto simp: update_conv')
  qed
qed simp

section \<open>Names\<close>

text \<open>What the chain holds of an account.\<close>

definition identity_name ::
  "chain_ops \<Rightarrow> (string \<Rightarrow> string option) \<Rightarrow> bytes \<Rightarrow> string option" where
  "identity_name X val account =
     Option.bind (stored X val (storage_key_identity_of X account)) (decode_display_name X)"

definition super_account ::
  "chain_ops \<Rightarrow> (string \<Rightarrow> string option) \<Rightarrow> bytes \<Rightarrow> bytes option" where
  "super_account X val account =
     Option.bind (stored X val (storage_key_super_of X account)) decode_super_of_parent"

text \<open>The reference: the name of an account is its own, or else that of its parent.\<close>

definition resolved_name ::
  "chain_ops \<Rightarrow> (string \<Rightarrow> string option) \<Rightarrow> bytes \<Rightarrow> string option" where
  "resolved_name X val account =
     (case identity_name X val account of
        Some name \<Rightarrow> Some name
      | None \<Rightarrow> Option.bind (super_account X val account) (identity_name X val))"

definition owner_account ::
  "chain_ops \<Rightarrow> (string \<Rightarrow> string option) \<Rightarrow> bytes \<Rightarrow> bytes option" where
  "owner_account X val authority =
     Option.bind (stored X val (storage_key_session_key_owner X authority))
       (\<lambda>v. if 32 \<le> length v then Some (take 32 v) else None)"

lemma stash_accounts_exact:
  assumes "\<And>a. a \<in> set authorities \<Longrightarrow>
    map_of values (storage_key_session_key_owner X a) = stored X val (storage_key_session_key_owner X a)"
  shows "map_of (stash_accounts X values authorities) a =
    (if a \<in> set authorities then owner_account X val a else None)"
proof -
  let ?f = "\<lambda>a. map_option (Pair a) (owner_account X val a)"
  have step: "(case map_of values (storage_key_session_key_owner X a) of
        Some v \<Rightarrow> if 32 \<le> length v then AList.update a (take 32 v) m else m | None \<Rightarrow> m) =
      (case ?f a of Some (k, v) \<Rightarrow> AList.update k v m | None \<Rightarrow> m)"
    if "a \<in> set authorities" for a m
    using assms [OF that] by (auto simp: owner_account_def split: option.splits)
  have eq: "stash_accounts X values authorities = assign_all ?f authorities []"
    unfolding stash_accounts_def by (rule fold_cong) (use step in auto)
  show ?thesis
  proof (cases "a \<in> set authorities \<and> owner_account X val a \<noteq> None")
    case True
    then obtain s where s: "owner_account X val a = Some s" by auto
    have "map_of (assign_all ?f authorities []) a = Some s"
      using True s by (intro assign_all_value [of a]) auto
    with True s show ?thesis by (simp only: eq) simp
  next
    case False
    then have "map_of (assign_all ?f authorities []) a = map_of [] a"
      by (intro assign_all_other) auto
    with False show ?thesis by (simp only: eq) auto
  qed
qed

lemma wf_stash_accounts: "wf_map (stash_accounts X values authorities)"
proof -
  have "wf_map m \<Longrightarrow> wf_map (fold (\<lambda>auth m.
       (case map_of values (storage_key_session_key_owner X auth) of
          Some val \<Rightarrow> if 32 \<le> length val then AList.update auth (take 32 val) m else m
        | None \<Rightarrow> m)) authorities m)" for m
    by (induction authorities arbitrary: m) (auto split: option.splits)
  then show ?thesis by (simp add: stash_accounts_def)
qed

lemma invert_stashes_eq: "invert_stashes pairs = assign_all (\<lambda>(a, s). Some (s, a)) pairs []"
  by (auto simp: invert_stashes_def intro!: fold_cong)

lemma invert_stashes_sound: "map_of (invert_stashes pairs) s = Some a \<Longrightarrow> (a, s) \<in> set pairs"
  unfolding invert_stashes_eq by (drule assign_all_sound) auto

lemma invert_stashes_domain: "fst ` set (invert_stashes pairs) = snd ` set pairs"
proof -
  have "fst ` set (fold (\<lambda>(a, s). AList.update s a) pairs m) = fst ` set m \<union> snd ` set pairs" for m :: "(bytes, bytes) hash_map"
    by (induction pairs arbitrary: m) (simp_all add: keys_update case_prod_beta)
  then show ?thesis by (simp add: invert_stashes_def)
qed

text \<open>The two passes over the accounts, as assignments.\<close>

lemma direct_names_eq:
  "fold (direct_name X S values) stashes (names, missing) =
     (assign_all (\<lambda>s. case Option.bind (map_of values (storage_key_identity_of X s)) (decode_display_name X) of
          Some d \<Rightarrow> map_option (\<lambda>a. (a, d)) (map_of S s) | None \<Rightarrow> None) stashes names,
      missing @ filter (\<lambda>s. Option.bind (map_of values (storage_key_identity_of X s)) (decode_display_name X) = None)
        stashes)"
  by (induction stashes arbitrary: names missing) (auto simp: direct_name_def split: option.splits)

lemma children_of_exact:
  "(case map_of (children_of X values missing) p of Some cs \<Rightarrow> set cs | None \<Rightarrow> {}) =
     {c \<in> set missing. Option.bind (map_of values (storage_key_super_of X c)) decode_super_of_parent = Some p}"
  "fst ` set (children_of X values missing) =
     {p. \<exists>c \<in> set missing. Option.bind (map_of values (storage_key_super_of X c)) decode_super_of_parent = Some p}"
proof -
  let ?par = "\<lambda>c. Option.bind (map_of values (storage_key_super_of X c)) decode_super_of_parent"
  let ?step = "\<lambda>stash m. case ?par stash of
      Some parent \<Rightarrow> map_entry parent (\<lambda>cs. cs @ [stash]) [stash] m | None \<Rightarrow> m"
  have "(case map_of (fold ?step missing m) p of Some cs \<Rightarrow> set cs | None \<Rightarrow> {}) =
      (case map_of m p of Some cs \<Rightarrow> set cs | None \<Rightarrow> {}) \<union> {c \<in> set missing. ?par c = Some p}" for m
  proof (induction missing arbitrary: m)
    case (Cons c missing)
    show ?case
      by (cases "?par c") (auto simp: Cons.IH map_of_map_entry split: option.splits)
  qed simp
  from this [of "[]"] show "(case map_of (children_of X values missing) p of Some cs \<Rightarrow> set cs | None \<Rightarrow> {}) =
      {c \<in> set missing. ?par c = Some p}"
    by (simp add: children_of_def)
  have "fst ` set (fold ?step missing m) = fst ` set m \<union> {p. \<exists>c \<in> set missing. ?par c = Some p}" for m
  proof (induction missing arbitrary: m)
    case (Cons c missing)
    show ?case
      by (cases "?par c") (simp_all add: Cons.IH keys_map_entry, blast)
  qed simp
  from this [of "[]"] show "fst ` set (children_of X values missing) =
      {p. \<exists>c \<in> set missing. ?par c = Some p}"
    by (simp add: children_of_def)
qed

text \<open>The names given to the children of the parents, one assignment per child.\<close>

definition child_names ::
  "chain_ops \<Rightarrow> (string, bytes) hash_map \<Rightarrow> (bytes, bytes list) hash_map \<Rightarrow> bytes list \<Rightarrow> (bytes \<times> string) list" where
  "child_names X values children parents =
     concat (map (\<lambda>p. case Option.bind (map_of values (storage_key_identity_of X p)) (decode_display_name X) of
        Some d \<Rightarrow> map (\<lambda>c. (c, d)) (case map_of children p of Some cs \<Rightarrow> cs | None \<Rightarrow> []) | None \<Rightarrow> []) parents)"

lemma parent_names_eq:
  "fold (parent_name X S values children) parents names =
     assign_all (\<lambda>(c, d). map_option (\<lambda>a. (a, d)) (map_of S c)) (child_names X values children parents) names"
proof (induction parents arbitrary: names)
  case (Cons p parents)
  have "fold (name_child S d) cs names =
      assign_all (\<lambda>(c, d). map_option (\<lambda>a. (a, d)) (map_of S c)) (map (\<lambda>c. (c, d)) cs) names" for d cs names
    by (induction cs arbitrary: names) (auto simp: name_child_def split: option.splits)
  with Cons.IH show ?case
    by (simp add: parent_name_def child_names_def split: option.splits)
qed (simp add: child_names_def)

lemma in_child_names:
  "(c, d) \<in> set (concat (map (\<lambda>p. case f p of Some d \<Rightarrow> map (\<lambda>c. (c, d)) (g p) | None \<Rightarrow> []) ps)) \<longleftrightarrow>
     (\<exists>p \<in> set ps. f p = Some d \<and> c \<in> set (g p))"
  by (induction ps) (auto split: option.splits)

lemma parent_names_assign:
  assumes "answers query val" and "permuting (mo_parents M)"
  shows "\<exists>pairs. parent_names X M query S missing names =
      assign_all (\<lambda>(c, d). map_option (\<lambda>a. (a, d)) (map_of S c)) pairs names
    \<and> (\<forall>c d. (c, d) \<in> set pairs \<longleftrightarrow>
          c \<in> set missing \<and> Option.bind (super_account X val c) (identity_name X val) = Some d)"
proof (cases "missing = []")
  case True
  then show ?thesis by (intro exI [of _ "[]"]) (simp add: parent_names_def)
next
  case False
  obtain sv where sv: "batch_get_storage X query (map (storage_key_super_of X) missing) = Inr sv"
    using batch_get_storage_answers [OF assms(1)] by blast
  have super: "Option.bind (map_of sv (storage_key_super_of X c)) decode_super_of_parent = super_account X val c"
    if "c \<in> set missing" for c
    using batch_lookup [OF assms(1) sv that] by (simp add: super_account_def)
  define children where "children = children_of X sv missing"
  have kids: "c \<in> set (case map_of children p of Some cs \<Rightarrow> cs | None \<Rightarrow> []) \<longleftrightarrow>
      c \<in> set missing \<and> super_account X val c = Some p" for c p
    using children_of_exact(1) [of X sv missing p] super
    by (auto simp: children_def split: option.splits)
  have parents: "p \<in> fst ` set children \<longleftrightarrow> (\<exists>c \<in> set missing. super_account X val c = Some p)" for p
    using children_of_exact(2) [of X sv missing] super by (auto simp: children_def)
  show ?thesis
  proof (cases "children = []")
    case True
    with parents have "super_account X val c = None" if "c \<in> set missing" for c
      using that by (cases "super_account X val c") auto
    with True False sv show ?thesis
      by (intro exI [of _ "[]"]) (auto simp: parent_names_def Let_def simp flip: children_def)
  next
    case nonempty: False
    define ps where "ps = mo_parents M (keys children)"
    have set_ps: "set ps = fst ` set children"
      by (simp add: ps_def permuting_set [OF assms(2)])
    have in_ps: "p \<in> set ps" if "c \<in> set missing" "super_account X val c = Some p" for c p
      using that parents set_ps by blast
    obtain pv where pv: "batch_get_storage X query (map (storage_key_identity_of X) ps) = Inr pv"
      using batch_get_storage_answers [OF assms(1)] by blast
    have ident: "Option.bind (map_of pv (storage_key_identity_of X p)) (decode_display_name X) = identity_name X val p"
      if "p \<in> set ps" for p
      using batch_lookup [OF assms(1) pv that] by (simp add: identity_name_def)
    have "child_names X pv children ps =
        concat (map (\<lambda>p. case identity_name X val p of
           Some d \<Rightarrow> map (\<lambda>c. (c, d)) (case map_of children p of Some cs \<Rightarrow> cs | None \<Rightarrow> [])
         | None \<Rightarrow> []) ps)"
      using ident by (simp add: child_names_def cong: map_cong)
    then have "(c, d) \<in> set (child_names X pv children ps) \<longleftrightarrow>
        (\<exists>p \<in> set ps. identity_name X val p = Some d \<and> c \<in> set missing \<and> super_account X val c = Some p)" for c d
      by (simp only: in_child_names kids)
    then have "(c, d) \<in> set (child_names X pv children ps) \<longleftrightarrow>
        c \<in> set missing \<and> Option.bind (super_account X val c) (identity_name X val) = Some d" for c d
      using in_ps unfolding Option.bind_eq_Some_conv by blast
    moreover have "parent_names X M query S missing names =
        assign_all (\<lambda>(c, d). map_option (\<lambda>a. (a, d)) (map_of S c)) (child_names X pv children ps) names"
      using False nonempty sv pv
      by (simp add: parent_names_def Let_def parent_names_eq flip: children_def ps_def)
    ultimately show ?thesis by blast
  qed
qed

text \<open>
  Assignments of names to accounts, seen from the authority of the account: each account has
  one authority in \<open>S\<close>, so only the pairs of that account matter.
\<close>

lemma assign_names:
  fixes S :: "(bytes, bytes) hash_map" and pairs :: "(bytes \<times> string) list"
  assumes inj: "\<And>s s' a. map_of S s = Some a \<Longrightarrow> map_of S s' = Some a \<Longrightarrow> s = s'"
  defines "g \<equiv> \<lambda>(c, d :: string). map_option (\<lambda>a. (a, d)) (map_of S c)"
  shows "map_of S s = Some a \<Longrightarrow> (\<And>d'. (s, d') \<in> set pairs \<longleftrightarrow> d' = d) \<Longrightarrow>
      map_of (assign_all g pairs m) a = Some d"
    and "(\<And>s d. map_of S s = Some a \<Longrightarrow> (s, d) \<notin> set pairs) \<Longrightarrow>
      map_of (assign_all g pairs m) a = map_of m a"
proof -
  have g: "g y = Some (a, d') \<longleftrightarrow> map_of S (fst y) = Some a \<and> d' = snd y" for y a d'
    by (auto simp: g_def split: prod.splits)
  show "map_of (assign_all g pairs m) a = Some d"
    if s: "map_of S s = Some a" and d: "\<And>d'. (s, d') \<in> set pairs \<longleftrightarrow> d' = d"
  proof (rule assign_all_value [of "(s, d)"])
    show "(s, d) \<in> set pairs" using d by simp
    show "g (s, d) = Some (a, d)" using s by (simp add: g)
    fix y v' assume "y \<in> set pairs" and "g y = Some (a, v')"
    with inj [OF s] d show "v' = d" by (cases y) (auto simp: g)
  qed
  show "map_of (assign_all g pairs m) a = map_of m a"
    if "\<And>s d. map_of S s = Some a \<Longrightarrow> (s, d) \<notin> set pairs"
    by (rule assign_all_other) (use that in \<open>auto simp: g\<close>)
qed

definition direct_pairs :: "(bytes \<Rightarrow> string option) \<Rightarrow> bytes list \<Rightarrow> (bytes \<times> string) list" where
  "direct_pairs name stashes = List.map_filter (\<lambda>s. map_option (\<lambda>d. (s, d)) (name s)) stashes"

lemma in_direct_pairs: "(s, d) \<in> set (direct_pairs name stashes) \<longleftrightarrow> s \<in> set stashes \<and> name s = Some d"
  by (auto simp: direct_pairs_def List.map_filter_def image_iff)

lemma assign_direct:
  "assign_all (\<lambda>s. case name s of Some d \<Rightarrow> map_option (\<lambda>a. (a, d)) (map_of S s) | None \<Rightarrow> None) stashes m =
     assign_all (\<lambda>(c, d). map_option (\<lambda>a. (a, d)) (map_of S c)) (direct_pairs name stashes) m"
  by (induction stashes arbitrary: m)
    (auto simp: direct_pairs_def List.map_filter_simps split: option.splits)

lemma direct_names:
  assumes "answers query val"
    and iv: "batch_get_storage X query (map (storage_key_identity_of X) stashes) = Inr iv"
    and folded: "fold (direct_name X S iv) stashes ([], []) = (names, missing)"
  shows "names = assign_all (\<lambda>(c, d). map_option (\<lambda>a. (a, d)) (map_of S c))
      (direct_pairs (identity_name X val) stashes) []"
    and "set missing = {s \<in> set stashes. identity_name X val s = None}"
proof -
  have ident: "Option.bind (map_of iv (storage_key_identity_of X s)) (decode_display_name X) = identity_name X val s"
    if "s \<in> set stashes" for s
    using batch_lookup [OF assms(1) iv that] by (simp add: identity_name_def)
  show "names = assign_all (\<lambda>(c, d). map_option (\<lambda>a. (a, d)) (map_of S c))
      (direct_pairs (identity_name X val) stashes) []"
    unfolding assign_direct [symmetric] using folded ident by (auto simp: direct_names_eq intro!: fold_cong)
  show "set missing = {s \<in> set stashes. identity_name X val s = None}"
    using folded ident by (auto simp: direct_names_eq)
qed

lemma names_resolved:
  assumes "answers query val" and "permuting (mo_parents M)"
    and inj: "\<And>s s' a. map_of S s = Some a \<Longrightarrow> map_of S s' = Some a \<Longrightarrow> s = s'"
    and dom: "set stashes = fst ` set S"
    and iv: "batch_get_storage X query (map (storage_key_identity_of X) stashes) = Inr iv"
    and folded: "fold (direct_name X S iv) stashes ([], []) = (names, missing)"
  shows "map_of S s = Some a \<Longrightarrow> map_of (parent_names X M query S missing names) a = resolved_name X val s"
    and "\<nexists>s. map_of S s = Some a \<Longrightarrow> map_of (parent_names X M query S missing names) a = None"
proof -
  note names = direct_names(1) [OF assms(1) iv folded] and missing = direct_names(2) [OF assms(1) iv folded]
  obtain pairs where final: "parent_names X M query S missing names =
        assign_all (\<lambda>(c, d). map_option (\<lambda>a. (a, d)) (map_of S c)) pairs names"
      and pairs: "\<And>c d. (c, d) \<in> set pairs \<longleftrightarrow>
        c \<in> set missing \<and> Option.bind (super_account X val c) (identity_name X val) = Some d"
    using parent_names_assign [OF assms(1,2), of X S missing names] by blast
  show "map_of (parent_names X M query S missing names) a = resolved_name X val s"
    if s: "map_of S s = Some a"
  proof -
    have mem: "s \<in> set stashes" using s dom map_of_eq_Some_keys by fast
    have only: "map_of S c = Some a \<longleftrightarrow> c = s" for c using s inj by blast
    have direct: "map_of names a = identity_name X val s"
    proof (cases "identity_name X val s")
      case (Some d)
      have "map_of names a = Some d"
        unfolding names by (rule assign_names(1) [OF inj s]) (auto simp: in_direct_pairs Some mem)
      with Some show ?thesis by simp
    next
      case None
      have "map_of names a = map_of [] a"
        unfolding names by (rule assign_names(2) [OF inj]) (auto simp: in_direct_pairs None only)
      with None show ?thesis by simp
    qed
    show ?thesis
    proof (cases "(\<exists>d. (s, d) \<in> set pairs)")
      case True
      then obtain d where d: "(s, d) \<in> set pairs" by blast
      have "map_of (parent_names X M query S missing names) a = Some d"
        unfolding final by (rule assign_names(1) [OF inj s]) (use d pairs in auto)
      with d show ?thesis by (auto simp: pairs missing resolved_name_def)
    next
      case False
      have "map_of (parent_names X M query S missing names) a = map_of names a"
        unfolding final by (rule assign_names(2) [OF inj]) (use False only in auto)
      with False mem show ?thesis
        by (auto simp: direct pairs missing resolved_name_def split: option.splits)
    qed
  qed
  show "map_of (parent_names X M query S missing names) a = None" if "\<nexists>s. map_of S s = Some a"
  proof -
    have "map_of (parent_names X M query S missing names) a = map_of names a"
      unfolding final by (rule assign_names(2) [OF inj]) (use that in \<open>auto\<close>)
    also have "\<dots> = map_of [] a"
      unfolding names by (rule assign_names(2) [OF inj]) (use that in \<open>auto\<close>)
    finally show ?thesis by simp
  qed
qed

definition sole_owner ::
  "chain_ops \<Rightarrow> (string \<Rightarrow> string option) \<Rightarrow> bytes list \<Rightarrow> bytes \<Rightarrow> bool" where
  "sole_owner X val authorities a \<longleftrightarrow>
     (\<forall>b \<in> set authorities. owner_account X val b = owner_account X val a \<longrightarrow> b = a)"

text \<open>Inverting the map of accounts, and the names of the owners it gives.\<close>

lemma inverted_stashes:
  assumes "wf_map A" and "permuting order"
  shows "map_of (invert_stashes (order A)) s = Some a \<Longrightarrow> map_of A a = Some s"
    and "map_of A a = Some s \<Longrightarrow> \<exists>b. map_of (invert_stashes (order A)) s = Some b"
proof -
  have in_A: "(a, s) \<in> set (order A) \<longleftrightarrow> map_of A a = Some s" for a s
    using assms(1) permuting_set [OF assms(2)] by (simp add: map_of_eq_Some_iff)
  show "map_of (invert_stashes (order A)) s = Some a \<Longrightarrow> map_of A a = Some s"
    using invert_stashes_sound in_A by blast
  show "\<exists>b. map_of (invert_stashes (order A)) s = Some b" if "map_of A a = Some s"
  proof -
    have "s \<in> fst ` set (invert_stashes (order A))"
      unfolding invert_stashes_domain using that in_A by (force simp: image_iff)
    then show ?thesis
      by (cases "map_of (invert_stashes (order A)) s") (auto simp: map_of_eq_None_iff)
  qed
qed

lemma owners_named:
  assumes A: "\<And>a. map_of A a = (if a \<in> set authorities then owner_account X relay_val a else None)"
    and S: "\<And>s a. map_of S s = Some a \<Longrightarrow> map_of A a = Some s"
    and S_dom: "\<And>s a. map_of A a = Some s \<Longrightarrow> \<exists>b. map_of S s = Some b"
    and named: "\<And>s a. map_of S s = Some a \<Longrightarrow> map_of ns a = resolved_name X val s"
      "\<And>a. \<nexists>s. map_of S s = Some a \<Longrightarrow> map_of ns a = None"
  shows "(\<forall>a name. map_of ns a = Some name \<longrightarrow> a \<in> set authorities
            \<and> Option.bind (owner_account X relay_val a) (resolved_name X val) = Some name)
    \<and> (\<forall>s name. s \<in> owner_account X relay_val ` set authorities \<longrightarrow>
          Option.bind s (resolved_name X val) = Some name \<longrightarrow>
          (\<exists>!a. a \<in> set authorities \<and> owner_account X relay_val a = s \<and> map_of ns a \<noteq> None))
    \<and> (\<forall>a \<in> set authorities. sole_owner X relay_val authorities a \<longrightarrow>
          map_of ns a = Option.bind (owner_account X relay_val a) (resolved_name X val))"
proof (intro conjI allI impI ballI)
  fix t name
  assume "t \<in> owner_account X relay_val ` set authorities"
    and name: "Option.bind t (resolved_name X val) = Some name"
  then obtain a where "a \<in> set authorities" "owner_account X relay_val a = t" by blast
  moreover obtain s where "t = Some s" using name by (cases t) simp_all
  ultimately have a: "a \<in> set authorities" "owner_account X relay_val a = Some s" "t = Some s" by simp_all
  with A [of a] S_dom obtain b where b: "map_of S s = Some b" by force
  with S A [of b] have own: "b \<in> set authorities" "owner_account X relay_val b = Some s"
    by (auto split: if_splits)
  have "map_of ns b \<noteq> None"
    using named(1) [OF b] name a(3) by simp
  moreover have "c = b" if c: "owner_account X relay_val c = Some s" "map_of ns c \<noteq> None" for c
  proof -
    from c(2) named(2) obtain s' where s': "map_of S s' = Some c" by fastforce
    with S A [of c] c(1) have "s' = s" by (auto split: if_splits)
    with s' b show ?thesis by simp
  qed
  ultimately show "\<exists>!a. a \<in> set authorities \<and> owner_account X relay_val a = t \<and> map_of ns a \<noteq> None"
    unfolding a(3) by (intro ex1I [of _ b]) (use own in \<open>blast+\<close>)
next
  fix a name
  assume n: "map_of ns a = Some name"
  with named(2) obtain s where s: "map_of S s = Some a" by fastforce
  with S A [of a] have "a \<in> set authorities" "owner_account X relay_val a = Some s"
    by (auto split: if_splits)
  with s n named(1) show "a \<in> set authorities"
    and "Option.bind (owner_account X relay_val a) (resolved_name X val) = Some name" by simp_all
next
  fix a
  assume a: "a \<in> set authorities" and alone: "sole_owner X relay_val authorities a"
  show "map_of ns a = Option.bind (owner_account X relay_val a) (resolved_name X val)"
  proof (cases "owner_account X relay_val a")
    case None
    with S A [of a] a have "\<nexists>s. map_of S s = Some a" by fastforce
    with named(2) None show ?thesis by simp
  next
    case (Some s)
    with A [of a] a S_dom obtain b where b: "map_of S s = Some b" by force
    with S A [of b] Some alone have "b = a"
      by (auto simp: sole_owner_def split: if_splits)
    with b named(1) Some show ?thesis by simp
  qed
qed

text \<open>
  C13. Against nodes that answer the keys they are asked for, in batches of at most 500, the
  resolution agrees with the chain, for every order in which the maps are iterated: exactly the
  authorities with an owner are given a stash account; every name given to an authority is the
  name of its account, or of the parent of its account when the account has none; of the
  authorities that share an account with a name exactly one is named; and an authority that
  shares its account with no other gets that name.
\<close>

theorem identity_names_resolved:
  assumes "connect relay_url = Inr relay" and "answers relay relay_val"
    and "connect (case identity_url of Some u \<Rightarrow> u | None \<Rightarrow> relay_url) = Inr query"
    and "answers query val"
    and "permuting (mo_stash_pairs M)" and "permuting (mo_stashes M)" and "permuting (mo_parents M)"
    and "res = fetch_identity_names X M connect relay_url identity_url authorities"
  shows "(\<forall>a. map_of (ir_stash_accounts res) a =
            (if a \<in> set authorities then owner_account X relay_val a else None))
    \<and> (\<forall>a name. map_of (ir_names res) a = Some name \<longrightarrow>
          a \<in> set authorities
          \<and> Option.bind (owner_account X relay_val a) (resolved_name X val) = Some name)
    \<and> (\<forall>s name. s \<in> owner_account X relay_val ` set authorities \<longrightarrow>
          Option.bind s (resolved_name X val) = Some name \<longrightarrow>
          (\<exists>!a. a \<in> set authorities \<and> owner_account X relay_val a = s \<and> map_of (ir_names res) a \<noteq> None))
    \<and> (\<forall>a \<in> set authorities. sole_owner X relay_val authorities a \<longrightarrow>
          map_of (ir_names res) a = Option.bind (owner_account X relay_val a) (resolved_name X val))"
proof -
  obtain kv where kv: "batch_get_storage X relay (map (storage_key_session_key_owner X) authorities) = Inr kv"
    using batch_get_storage_answers [OF assms(2)] by blast
  define A where "A = stash_accounts X kv authorities"
  have A: "map_of A a = (if a \<in> set authorities then owner_account X relay_val a else None)" for a
    unfolding A_def by (rule stash_accounts_exact) (rule batch_lookup [OF assms(2) kv])
  show ?thesis
  proof (cases "A = []")
    case True
    then have "res = \<lparr>ir_names = [], ir_stash_accounts = []\<rparr>"
      by (simp add: assms(8) fetch_identity_names_def assms(1) kv Let_def flip: A_def)
    moreover have "owner_account X relay_val a = None" if "a \<in> set authorities" for a
      using A [of a] that True by simp
    ultimately show ?thesis by auto
  next
    case False
    define S where "S = invert_stashes (mo_stash_pairs M A)"
    define stashes where "stashes = mo_stashes M (keys S)"
    have "wf_map A" by (simp add: A_def wf_stash_accounts)
    note S = inverted_stashes [OF this assms(5), folded S_def]
    have dom: "set stashes = fst ` set S"
      by (simp add: stashes_def permuting_set [OF assms(6)])
    obtain iv where iv: "batch_get_storage X query (map (storage_key_identity_of X) stashes) = Inr iv"
      using batch_get_storage_answers [OF assms(4)] by blast
    obtain names missing where folded: "fold (direct_name X S iv) stashes ([], []) = (names, missing)"
      by fastforce
    have inj: "s = s'" if "map_of S s = Some a" "map_of S s' = Some a" for s s' a
      using S(1) [OF that(1)] S(1) [OF that(2)] by simp
    have res: "res = \<lparr>ir_names = parent_names X M query S missing names, ir_stash_accounts = A\<rparr>"
      using False folded
      by (simp add: assms(8) fetch_identity_names_def assms(1,3) kv iv Let_def
          flip: A_def S_def stashes_def)
    show ?thesis
      unfolding res identity_result.simps
      by (intro conjI [OF allI, OF A] owners_named [OF A S] names_resolved [OF assms(4,7) inj dom iv folded])
  qed
qed

definition sample_answer :: "(string \<Rightarrow> string option) \<Rightarrow> unit storage_rpc" where
  "sample_answer val ks = Inr [map (\<lambda>k. (k, val k)) ks]"

definition sample_owner :: "string \<Rightarrow> string option" where
  "sample_owner k = Some (replicate 32 CHR ''s'')"

definition sample_registration :: "string \<Rightarrow> string option" where
  "sample_registration k = Some (as_string (simple_registration [] (replicate 16 0) [0x61, 0x62] []))"

definition sample_orders :: map_orders where
  "sample_orders = \<lparr>mo_stash_pairs = rev, mo_stashes = rev, mo_parents = rev\<rparr>"

theorem identity_names_resolved_witness:
  "\<exists>!a. a \<in> {[1], [2]} \<and> map_of (ir_names (fetch_identity_names sample_chain sample_orders
     (\<lambda>u. Inr (sample_answer (if u then sample_owner else sample_registration))) True (Some False)
     [[1], [2]])) a = Some ''ab''"
proof -
  let ?connect = "\<lambda>u. Inr (sample_answer (if u then sample_owner else sample_registration)) :: unit + unit storage_rpc"
  let ?names = "ir_names (fetch_identity_names sample_chain sample_orders ?connect True (Some False) [[1], [2]])"
  have ans: "answers (sample_answer val) val" for val
    by (simp add: answers_def sample_answer_def)
  have owner: "owner_account sample_chain sample_owner [1] = Some (replicate 32 0x73)"
      "owner_account sample_chain sample_owner [2] = Some (replicate 32 0x73)" by code_simp+
  have name: "resolved_name sample_chain sample_registration (replicate 32 0x73) = Some ''ab''" by code_simp
  have perms: "permuting (mo_stash_pairs sample_orders)" "permuting (mo_stashes sample_orders)"
      "permuting (mo_parents sample_orders)"
    by (simp_all add: sample_orders_def)
  have sound: "\<forall>a d. map_of ?names a = Some d \<longrightarrow> a \<in> set [[1], [2]]
      \<and> Option.bind (owner_account sample_chain sample_owner a) (resolved_name sample_chain sample_registration) = Some d"
    and one: "\<forall>t d. t \<in> owner_account sample_chain sample_owner ` set [[1], [2]] \<longrightarrow>
      Option.bind t (resolved_name sample_chain sample_registration) = Some d \<longrightarrow>
      (\<exists>!a. a \<in> set [[1], [2]] \<and> owner_account sample_chain sample_owner a = t \<and> map_of ?names a \<noteq> None)"
    using identity_names_resolved [of ?connect True "sample_answer sample_owner" sample_owner "Some False"
        "sample_answer sample_registration" sample_registration sample_orders _ sample_chain "[[1], [2]]",
        OF _ ans _ ans perms refl] by simp_all
  from one [rule_format, of "Some (replicate 32 0x73)" "''ab''"]
  have "\<exists>!a. a \<in> {[1], [2]} \<and> owner_account sample_chain sample_owner a = Some (replicate 32 0x73)
      \<and> map_of ?names a \<noteq> None"
    by (simp add: owner name)
  then have "\<exists>!a. a \<in> {[1], [2]} \<and> map_of ?names a \<noteq> None"
    using owner by (metis insert_iff singletonD)
  moreover have "map_of ?names a \<noteq> None \<longleftrightarrow> map_of ?names a = Some ''ab''" if "a \<in> {[1], [2]}" for a
    using sound [rule_format, of a] that owner name by fastforce
  ultimately show ?thesis by (metis (lifting))
qed

end
