(* ===== verification/Core_Types.thy ===== *)
theory Core_Types
  imports Addresses
begin

text \<open>
  The address types of \<open>subp2p-explorer-core/src/types\<close> that stand between the two network
  libraries: multihashes, protocols, multiaddresses and peer identities with their conversions.
  The multihashes and peer identities of \<open>litep2p\<close> (\<open>'mh\<close>), of the \<open>multihash\<close> crate
  (\<open>'g\<close>) and of \<open>libp2p\<close> (\<open>'pid\<close>; \<open>'lid\<close> for the peers of \<open>litep2p\<close>) are third-party types; their operations are the
  fields of \<open>mh_ops\<close> and what the program relies on is \<open>mh_laws\<close>. The protocol
  enumerations of the two libraries are data, with one constructor for the variants of
  \<open>libp2p\<close> that the program does not name.
\<close>

section \<open>Multihashes\<close>

datatype multihash_code = CodeIdentity | CodeSha2_256

datatype litep2p_code = LiteIdentity | LiteSha2_256 | LiteOtherCode u64

datatype litep2p_mh_error = LiteInvalidSize u64 | LiteUnsupportedCode u64 | LiteOtherError string

datatype multihash_error = InvalidSize u64 | UnsupportedCode u64 | OtherMhError string

record ('mh, 'g, 'pid, 'lid) mh_ops =
  mh_code :: "'mh \<Rightarrow> u64"
  mh_digest :: "'mh \<Rightarrow> bytes"
  mh_wrap :: "u64 \<Rightarrow> bytes \<Rightarrow> litep2p_mh_error + 'mh"
  mh_from_bytes :: "bytes \<Rightarrow> litep2p_mh_error + 'mh"
  mh_to_bytes :: "'mh \<Rightarrow> bytes"
  mh_hash :: "litep2p_code \<Rightarrow> bytes \<Rightarrow> 'mh"
  code_of_u64 :: "u64 \<Rightarrow> litep2p_mh_error + litep2p_code"
  u64_of_code :: "litep2p_code \<Rightarrow> u64"
  g_code :: "'g \<Rightarrow> u64"
  g_digest :: "'g \<Rightarrow> bytes"
  g_wrap :: "u64 \<Rightarrow> bytes \<Rightarrow> string + 'g"
  pid_of_multihash :: "'g \<Rightarrow> 'pid option"
  pid_multihash :: "'pid \<Rightarrow> 'g"
  pid_to_bytes :: "'pid \<Rightarrow> bytes"
  pid_from_bytes :: "bytes \<Rightarrow> string + 'pid"
  lid_to_bytes :: "'lid \<Rightarrow> bytes"
  lid_from_bytes :: "bytes \<Rightarrow> string + 'lid"

definition code_digest :: "('mh, 'g, 'pid, 'lid) mh_ops \<Rightarrow> multihash_code \<Rightarrow> bytes \<Rightarrow> 'mh" where
  "code_digest M code input =
     mh_hash M (case code of CodeIdentity \<Rightarrow> LiteIdentity | CodeSha2_256 \<Rightarrow> LiteSha2_256) input"

fun error_of_litep2p :: "litep2p_mh_error \<Rightarrow> multihash_error" where
  "error_of_litep2p (LiteInvalidSize s) = InvalidSize s"
| "error_of_litep2p (LiteUnsupportedCode c) = UnsupportedCode c"
| "error_of_litep2p (LiteOtherError e) = OtherMhError e"

fun code_to_litep2p :: "multihash_code \<Rightarrow> litep2p_code" where
  "code_to_litep2p CodeIdentity = LiteIdentity"
| "code_to_litep2p CodeSha2_256 = LiteSha2_256"

definition code_of_litep2p ::
  "('mh, 'g, 'pid, 'lid) mh_ops \<Rightarrow> litep2p_code \<Rightarrow> multihash_error + multihash_code" where
  "code_of_litep2p M code =
     (case code of
        LiteIdentity \<Rightarrow> Inr CodeIdentity
      | LiteSha2_256 \<Rightarrow> Inr CodeSha2_256
      | _ \<Rightarrow> Inl (UnsupportedCode (u64_of_code M code)))"

definition code_try_from :: "('mh, 'g, 'pid, 'lid) mh_ops \<Rightarrow> u64 \<Rightarrow> multihash_error + multihash_code" where
  "code_try_from M code =
     (case code_of_u64 M code of
        Inr c \<Rightarrow> code_of_litep2p M c
      | Inl e \<Rightarrow> Inl (error_of_litep2p e))"

definition code_into_u64 :: "('mh, 'g, 'pid, 'lid) mh_ops \<Rightarrow> multihash_code \<Rightarrow> u64" where
  "code_into_u64 M code = u64_of_code M (code_to_litep2p code)"

definition multihash_wrap ::
  "('mh, 'g, 'pid, 'lid) mh_ops \<Rightarrow> u64 \<Rightarrow> bytes \<Rightarrow> multihash_error + 'mh" where
  "multihash_wrap M code d = map_sum error_of_litep2p id (mh_wrap M code d)"

definition multihash_from_bytes ::
  "('mh, 'g, 'pid, 'lid) mh_ops \<Rightarrow> bytes \<Rightarrow> multihash_error + 'mh" where
  "multihash_from_bytes M bs = map_sum error_of_litep2p id (mh_from_bytes M bs)"

text \<open>\<open>expect\<close> on a result.\<close>

definition expect_ok :: "string \<Rightarrow> 'e + 'a \<Rightarrow> panic + 'a" where
  "expect_ok msg r = (case r of Inl _ \<Rightarrow> Inl (UnwrapNone msg) | Inr x \<Rightarrow> Inr x)"

definition multihash_of_generic :: "('mh, 'g, 'pid, 'lid) mh_ops \<Rightarrow> 'g \<Rightarrow> panic + 'mh" where
  "multihash_of_generic M g = expect_ok ''both have size 64'' (mh_wrap M (g_code M g) (g_digest M g))"

definition multihash_to_generic :: "('mh, 'g, 'pid, 'lid) mh_ops \<Rightarrow> 'mh \<Rightarrow> panic + 'g" where
  "multihash_to_generic M m = expect_ok ''both have size 64'' (g_wrap M (mh_code M m) (mh_digest M m))"

section \<open>Protocols\<close>

datatype 'mh core_protocol =
    P_Dccp u16
  | P_Dns string
  | P_Dns4 string
  | P_Dns6 string
  | P_Dnsaddr string
  | P_Http
  | P_Https
  | P_Ip4 ipv4_addr
  | P_Ip6 ipv6_addr
  | P_P2pWebRtcDirect
  | P_P2pWebRtcStar
  | P_WebRTC
  | P_Certhash 'mh
  | P_P2pWebSocketStar
  | P_Memory u64
  | P_Onion bytes u16
  | P_Onion3 bytes u16
  | P_P2p 'mh
  | P_P2pCircuit
  | P_Quic
  | P_QuicV1
  | P_Sctp u16
  | P_Tcp u16
  | P_Tls
  | P_Noise
  | P_Udp u16
  | P_Udt
  | P_Unix string
  | P_Utp
  | P_Ws string
  | P_Wss string

datatype 'mh litep2p_protocol =
    Lite_Dccp u16
  | Lite_Dns string
  | Lite_Dns4 string
  | Lite_Dns6 string
  | Lite_Dnsaddr string
  | Lite_Http
  | Lite_Https
  | Lite_Ip4 ipv4_addr
  | Lite_Ip6 ipv6_addr
  | Lite_P2pWebRtcDirect
  | Lite_P2pWebRtcStar
  | Lite_WebRTC
  | Lite_Certhash 'mh
  | Lite_P2pWebSocketStar
  | Lite_Memory u64
  | Lite_Onion bytes u16
  | Lite_Onion3 bytes u16
  | Lite_P2p 'mh
  | Lite_P2pCircuit
  | Lite_Quic
  | Lite_QuicV1
  | Lite_Sctp u16
  | Lite_Tcp u16
  | Lite_Tls
  | Lite_Noise
  | Lite_Udp u16
  | Lite_Udt
  | Lite_Unix string
  | Lite_Utp
  | Lite_Ws string
  | Lite_Wss string

datatype ('g, 'pid) libp2p_protocol =
    Lib_Dccp u16
  | Lib_Dns string
  | Lib_Dns4 string
  | Lib_Dns6 string
  | Lib_Dnsaddr string
  | Lib_Http
  | Lib_Https
  | Lib_Ip4 ipv4_addr
  | Lib_Ip6 ipv6_addr
  | Lib_P2pWebRtcDirect
  | Lib_P2pWebRtcStar
  | Lib_Certhash 'g
  | Lib_P2pWebSocketStar
  | Lib_Memory u64
  | Lib_Onion bytes u16
  | Lib_Onion3 bytes u16
  | Lib_P2p 'pid
  | Lib_P2pCircuit
  | Lib_Quic
  | Lib_QuicV1
  | Lib_Sctp u16
  | Lib_Tcp u16
  | Lib_Tls
  | Lib_Noise
  | Lib_Udp u16
  | Lib_Udt
  | Lib_Unix string
  | Lib_Utp
  | Lib_Ws string
  | Lib_Wss string
  | Lib_WebRTCDirect
  | Lib_Other string  \<comment> \<open>its tag\<close>

primrec protocol_of_litep2p ::
  "'mh litep2p_protocol \<Rightarrow> 'mh core_protocol" where
  "protocol_of_litep2p (Lite_Dccp x) = P_Dccp x"
| "protocol_of_litep2p (Lite_Dns x) = P_Dns x"
| "protocol_of_litep2p (Lite_Dns4 x) = P_Dns4 x"
| "protocol_of_litep2p (Lite_Dns6 x) = P_Dns6 x"
| "protocol_of_litep2p (Lite_Dnsaddr x) = P_Dnsaddr x"
| "protocol_of_litep2p Lite_Http = P_Http"
| "protocol_of_litep2p Lite_Https = P_Https"
| "protocol_of_litep2p (Lite_Ip4 x) = P_Ip4 x"
| "protocol_of_litep2p (Lite_Ip6 x) = P_Ip6 x"
| "protocol_of_litep2p Lite_P2pWebRtcDirect = P_P2pWebRtcDirect"
| "protocol_of_litep2p Lite_P2pWebRtcStar = P_P2pWebRtcStar"
| "protocol_of_litep2p Lite_WebRTC = P_WebRTC"
| "protocol_of_litep2p (Lite_Certhash x) = P_Certhash x"
| "protocol_of_litep2p Lite_P2pWebSocketStar = P_P2pWebSocketStar"
| "protocol_of_litep2p (Lite_Memory x) = P_Memory x"
| "protocol_of_litep2p (Lite_Onion x y) = P_Onion x y"
| "protocol_of_litep2p (Lite_Onion3 x y) = P_Onion3 x y"
| "protocol_of_litep2p (Lite_P2p x) = P_P2p x"
| "protocol_of_litep2p Lite_P2pCircuit = P_P2pCircuit"
| "protocol_of_litep2p Lite_Quic = P_Quic"
| "protocol_of_litep2p Lite_QuicV1 = P_QuicV1"
| "protocol_of_litep2p (Lite_Sctp x) = P_Sctp x"
| "protocol_of_litep2p (Lite_Tcp x) = P_Tcp x"
| "protocol_of_litep2p Lite_Tls = P_Tls"
| "protocol_of_litep2p Lite_Noise = P_Noise"
| "protocol_of_litep2p (Lite_Udp x) = P_Udp x"
| "protocol_of_litep2p Lite_Udt = P_Udt"
| "protocol_of_litep2p (Lite_Unix x) = P_Unix x"
| "protocol_of_litep2p Lite_Utp = P_Utp"
| "protocol_of_litep2p (Lite_Ws x) = P_Ws x"
| "protocol_of_litep2p (Lite_Wss x) = P_Wss x"

primrec protocol_to_litep2p ::
  "'mh core_protocol \<Rightarrow> 'mh litep2p_protocol" where
  "protocol_to_litep2p (P_Dccp x) = Lite_Dccp x"
| "protocol_to_litep2p (P_Dns x) = Lite_Dns x"
| "protocol_to_litep2p (P_Dns4 x) = Lite_Dns4 x"
| "protocol_to_litep2p (P_Dns6 x) = Lite_Dns6 x"
| "protocol_to_litep2p (P_Dnsaddr x) = Lite_Dnsaddr x"
| "protocol_to_litep2p P_Http = Lite_Http"
| "protocol_to_litep2p P_Https = Lite_Https"
| "protocol_to_litep2p (P_Ip4 x) = Lite_Ip4 x"
| "protocol_to_litep2p (P_Ip6 x) = Lite_Ip6 x"
| "protocol_to_litep2p P_P2pWebRtcDirect = Lite_P2pWebRtcDirect"
| "protocol_to_litep2p P_P2pWebRtcStar = Lite_P2pWebRtcStar"
| "protocol_to_litep2p P_WebRTC = Lite_WebRTC"
| "protocol_to_litep2p (P_Certhash x) = Lite_Certhash x"
| "protocol_to_litep2p P_P2pWebSocketStar = Lite_P2pWebSocketStar"
| "protocol_to_litep2p (P_Memory x) = Lite_Memory x"
| "protocol_to_litep2p (P_Onion x y) = Lite_Onion x y"
| "protocol_to_litep2p (P_Onion3 x y) = Lite_Onion3 x y"
| "protocol_to_litep2p (P_P2p x) = Lite_P2p x"
| "protocol_to_litep2p P_P2pCircuit = Lite_P2pCircuit"
| "protocol_to_litep2p P_Quic = Lite_Quic"
| "protocol_to_litep2p P_QuicV1 = Lite_QuicV1"
| "protocol_to_litep2p (P_Sctp x) = Lite_Sctp x"
| "protocol_to_litep2p (P_Tcp x) = Lite_Tcp x"
| "protocol_to_litep2p P_Tls = Lite_Tls"
| "protocol_to_litep2p P_Noise = Lite_Noise"
| "protocol_to_litep2p (P_Udp x) = Lite_Udp x"
| "protocol_to_litep2p P_Udt = Lite_Udt"
| "protocol_to_litep2p (P_Unix x) = Lite_Unix x"
| "protocol_to_litep2p P_Utp = Lite_Utp"
| "protocol_to_litep2p (P_Ws x) = Lite_Ws x"
| "protocol_to_litep2p (P_Wss x) = Lite_Wss x"

primrec protocol_of_libp2p ::
  "('mh, 'g, 'pid, 'lid) mh_ops \<Rightarrow> ('g, 'pid) libp2p_protocol \<Rightarrow> panic + 'mh core_protocol" where
  "protocol_of_libp2p M (Lib_Dccp x) = Inr (P_Dccp x)"
| "protocol_of_libp2p M (Lib_Dns x) = Inr (P_Dns x)"
| "protocol_of_libp2p M (Lib_Dns4 x) = Inr (P_Dns4 x)"
| "protocol_of_libp2p M (Lib_Dns6 x) = Inr (P_Dns6 x)"
| "protocol_of_libp2p M (Lib_Dnsaddr x) = Inr (P_Dnsaddr x)"
| "protocol_of_libp2p M Lib_Http = Inr P_Http"
| "protocol_of_libp2p M Lib_Https = Inr P_Https"
| "protocol_of_libp2p M (Lib_Ip4 x) = Inr (P_Ip4 x)"
| "protocol_of_libp2p M (Lib_Ip6 x) = Inr (P_Ip6 x)"
| "protocol_of_libp2p M Lib_P2pWebRtcDirect = Inr P_P2pWebRtcDirect"
| "protocol_of_libp2p M Lib_P2pWebRtcStar = Inr P_P2pWebRtcStar"
| "protocol_of_libp2p M (Lib_Certhash x) = map_sum id P_Certhash (multihash_of_generic M x)"
| "protocol_of_libp2p M Lib_P2pWebSocketStar = Inr P_P2pWebSocketStar"
| "protocol_of_libp2p M (Lib_Memory x) = Inr (P_Memory x)"
| "protocol_of_libp2p M (Lib_Onion x y) = Inr (P_Onion x y)"
| "protocol_of_libp2p M (Lib_Onion3 x y) = Inr (P_Onion3 x y)"
| "protocol_of_libp2p M (Lib_P2p x) = map_sum id P_P2p (multihash_of_generic M (pid_multihash M x))"
| "protocol_of_libp2p M Lib_P2pCircuit = Inr P_P2pCircuit"
| "protocol_of_libp2p M Lib_Quic = Inr P_Quic"
| "protocol_of_libp2p M Lib_QuicV1 = Inr P_QuicV1"
| "protocol_of_libp2p M (Lib_Sctp x) = Inr (P_Sctp x)"
| "protocol_of_libp2p M (Lib_Tcp x) = Inr (P_Tcp x)"
| "protocol_of_libp2p M Lib_Tls = Inr P_Tls"
| "protocol_of_libp2p M Lib_Noise = Inr P_Noise"
| "protocol_of_libp2p M (Lib_Udp x) = Inr (P_Udp x)"
| "protocol_of_libp2p M Lib_Udt = Inr P_Udt"
| "protocol_of_libp2p M (Lib_Unix x) = Inr (P_Unix x)"
| "protocol_of_libp2p M Lib_Utp = Inr P_Utp"
| "protocol_of_libp2p M (Lib_Ws x) = Inr (P_Ws x)"
| "protocol_of_libp2p M (Lib_Wss x) = Inr (P_Wss x)"
| "protocol_of_libp2p M Lib_WebRTCDirect = Inr (P_Dccp 0)"
| "protocol_of_libp2p M (Lib_Other tag) = Inr (P_Dccp 0)"

text \<open>A multihash that is no peer identity is replaced by a random one.\<close>

primrec protocol_to_libp2p ::
  "('mh, 'g, 'pid, 'lid) mh_ops \<Rightarrow> 'pid \<Rightarrow> 'mh core_protocol \<Rightarrow> panic + ('g, 'pid) libp2p_protocol" where
  "protocol_to_libp2p M random_pid (P_Dccp x) = Inr (Lib_Dccp x)"
| "protocol_to_libp2p M random_pid (P_Dns x) = Inr (Lib_Dns x)"
| "protocol_to_libp2p M random_pid (P_Dns4 x) = Inr (Lib_Dns4 x)"
| "protocol_to_libp2p M random_pid (P_Dns6 x) = Inr (Lib_Dns6 x)"
| "protocol_to_libp2p M random_pid (P_Dnsaddr x) = Inr (Lib_Dnsaddr x)"
| "protocol_to_libp2p M random_pid P_Http = Inr Lib_Http"
| "protocol_to_libp2p M random_pid P_Https = Inr Lib_Https"
| "protocol_to_libp2p M random_pid (P_Ip4 x) = Inr (Lib_Ip4 x)"
| "protocol_to_libp2p M random_pid (P_Ip6 x) = Inr (Lib_Ip6 x)"
| "protocol_to_libp2p M random_pid P_P2pWebRtcDirect = Inr Lib_P2pWebRtcDirect"
| "protocol_to_libp2p M random_pid P_P2pWebRtcStar = Inr Lib_P2pWebRtcStar"
| "protocol_to_libp2p M random_pid P_WebRTC = Inr Lib_WebRTCDirect"
| "protocol_to_libp2p M random_pid (P_Certhash x) = map_sum id Lib_Certhash (multihash_to_generic M x)"
| "protocol_to_libp2p M random_pid P_P2pWebSocketStar = Inr Lib_P2pWebSocketStar"
| "protocol_to_libp2p M random_pid (P_Memory x) = Inr (Lib_Memory x)"
| "protocol_to_libp2p M random_pid (P_Onion x y) = Inr (Lib_Onion x y)"
| "protocol_to_libp2p M random_pid (P_Onion3 x y) = Inr (Lib_Onion3 x y)"
| "protocol_to_libp2p M random_pid (P_P2p x) = map_sum id
     (\<lambda>g. Lib_P2p (case pid_of_multihash M g of Some pid \<Rightarrow> pid | None \<Rightarrow> random_pid)) (multihash_to_generic M x)"
| "protocol_to_libp2p M random_pid P_P2pCircuit = Inr Lib_P2pCircuit"
| "protocol_to_libp2p M random_pid P_Quic = Inr Lib_Quic"
| "protocol_to_libp2p M random_pid P_QuicV1 = Inr Lib_QuicV1"
| "protocol_to_libp2p M random_pid (P_Sctp x) = Inr (Lib_Sctp x)"
| "protocol_to_libp2p M random_pid (P_Tcp x) = Inr (Lib_Tcp x)"
| "protocol_to_libp2p M random_pid P_Tls = Inr Lib_Tls"
| "protocol_to_libp2p M random_pid P_Noise = Inr Lib_Noise"
| "protocol_to_libp2p M random_pid (P_Udp x) = Inr (Lib_Udp x)"
| "protocol_to_libp2p M random_pid P_Udt = Inr Lib_Udt"
| "protocol_to_libp2p M random_pid (P_Unix x) = Inr (Lib_Unix x)"
| "protocol_to_libp2p M random_pid P_Utp = Inr Lib_Utp"
| "protocol_to_libp2p M random_pid (P_Ws x) = Inr (Lib_Ws x)"
| "protocol_to_libp2p M random_pid (P_Wss x) = Inr (Lib_Wss x)"

definition protocol_of_ip :: "ip_addr \<Rightarrow> 'mh core_protocol" where
  "protocol_of_ip addr = (case addr of IpV4 a \<Rightarrow> P_Ip4 a | IpV6 a \<Rightarrow> P_Ip6 a)"

definition protocol_of_ip4 :: "ipv4_addr \<Rightarrow> 'mh core_protocol" where
  "protocol_of_ip4 addr = P_Ip4 addr"

definition protocol_of_ip6 :: "ipv6_addr \<Rightarrow> 'mh core_protocol" where
  "protocol_of_ip6 addr = P_Ip6 addr"

text \<open>A component is printed as the library \<open>litep2p\<close> prints it (\<open>show\<close>).\<close>

definition protocol_display :: "('mh litep2p_protocol \<Rightarrow> string) \<Rightarrow> 'mh core_protocol \<Rightarrow> string" where
  "protocol_display show p = show (protocol_to_litep2p p)"

section \<open>Multiaddresses\<close>

text \<open>The type wraps a \<open>litep2p\<close> address, the list of its protocols.\<close>

type_synonym 'mh core_multiaddr = "'mh litep2p_protocol list"

definition multiaddr_empty :: "'mh core_multiaddr" where
  "multiaddr_empty = []"

definition multiaddr_push :: "'mh core_protocol \<Rightarrow> 'mh core_multiaddr \<Rightarrow> 'mh core_multiaddr" where
  "multiaddr_push p a = a @ [protocol_to_litep2p p]"

definition multiaddr_pop :: "'mh core_multiaddr \<Rightarrow> 'mh core_protocol option \<times> 'mh core_multiaddr" where
  "multiaddr_pop a =
     (if a = [] then (None, a) else (Some (protocol_of_litep2p (last a)), butlast a))"

definition multiaddr_with :: "'mh core_multiaddr \<Rightarrow> 'mh core_protocol \<Rightarrow> 'mh core_multiaddr" where
  "multiaddr_with a p = a @ [protocol_to_litep2p p]"

definition multiaddr_iter :: "'mh core_multiaddr \<Rightarrow> 'mh core_protocol list" where
  "multiaddr_iter a = map protocol_of_litep2p a"

definition multiaddr_from_iter :: "'mh core_protocol list \<Rightarrow> 'mh core_multiaddr" where
  "multiaddr_from_iter ps = map protocol_to_litep2p ps"

fun collect_panics :: "(panic + 'a) list \<Rightarrow> panic + 'a list" where
  "collect_panics [] = Inr []"
| "collect_panics (r # rs) =
     (case r of
        Inl e \<Rightarrow> Inl e
      | Inr x \<Rightarrow> (case collect_panics rs of Inl e \<Rightarrow> Inl e | Inr xs \<Rightarrow> Inr (x # xs)))"

definition multiaddr_of_libp2p ::
  "('mh, 'g, 'pid, 'lid) mh_ops \<Rightarrow> ('g, 'pid) libp2p_protocol list \<Rightarrow> panic + 'mh core_multiaddr" where
  "multiaddr_of_libp2p M ps =
     map_sum id multiaddr_from_iter (collect_panics (map (protocol_of_libp2p M) ps))"

definition multiaddr_to_libp2p ::
  "('mh, 'g, 'pid, 'lid) mh_ops \<Rightarrow> 'pid \<Rightarrow> 'mh core_multiaddr \<Rightarrow> panic + ('g, 'pid) libp2p_protocol list" where
  "multiaddr_to_libp2p M random_pid a =
     collect_panics (map (protocol_to_libp2p M random_pid) (multiaddr_iter a))"

definition multiaddr_of_protocol :: "'mh core_protocol \<Rightarrow> 'mh core_multiaddr" where
  "multiaddr_of_protocol p = [protocol_to_litep2p p]"

definition multiaddr_of_ip :: "ip_addr \<Rightarrow> 'mh core_multiaddr" where
  "multiaddr_of_ip v =
     (case v of IpV4 a \<Rightarrow> multiaddr_of_protocol (P_Ip4 a) | IpV6 a \<Rightarrow> multiaddr_of_protocol (P_Ip6 a))"

text \<open>Parse errors, of the library and of the program.\<close>

datatype 'e litep2p_addr_error =
    LiteDataLessThanLen | LiteInvalidMultiaddr | LiteInvalidProtocolString
  | LiteUnknownProtocolString string | LiteUnknownProtocolId u32 | LiteInvalidUvar 'e
  | LiteParsingError 'e | LiteOtherAddrError 'e

datatype 'e addr_parse_error =
    DataLessThanLen | InvalidMultiaddr | InvalidProtocolString
  | UnknownProtocolString string | UnknownProtocolId u32 | InvalidUvar 'e | ParsingError 'e

primrec parse_error_of_litep2p :: "'e litep2p_addr_error \<Rightarrow> 'e addr_parse_error" where
  "parse_error_of_litep2p LiteDataLessThanLen = DataLessThanLen"
| "parse_error_of_litep2p LiteInvalidMultiaddr = InvalidMultiaddr"
| "parse_error_of_litep2p LiteInvalidProtocolString = InvalidProtocolString"
| "parse_error_of_litep2p (LiteUnknownProtocolString s) = UnknownProtocolString s"
| "parse_error_of_litep2p (LiteUnknownProtocolId n) = UnknownProtocolId n"
| "parse_error_of_litep2p (LiteInvalidUvar e) = InvalidUvar e"
| "parse_error_of_litep2p (LiteParsingError e) = ParsingError e"
| "parse_error_of_litep2p (LiteOtherAddrError e) = ParsingError e"

definition multiaddr_from_str ::
  "(string \<Rightarrow> 'e litep2p_addr_error + 'mh litep2p_protocol list) \<Rightarrow> string
     \<Rightarrow> 'e addr_parse_error + 'mh core_multiaddr" where
  "multiaddr_from_str parse s = map_sum parse_error_of_litep2p id (parse s)"

definition multiaddr_from_string ::
  "(string \<Rightarrow> 'e litep2p_addr_error + 'mh litep2p_protocol list) \<Rightarrow> string
     \<Rightarrow> 'e addr_parse_error + 'mh core_multiaddr" where
  "multiaddr_from_string parse s = multiaddr_from_str parse s"

definition multiaddr_from_bytes ::
  "(bytes \<Rightarrow> 'e litep2p_addr_error + 'mh litep2p_protocol list) \<Rightarrow> bytes
     \<Rightarrow> 'e addr_parse_error + 'mh core_multiaddr" where
  "multiaddr_from_bytes decode v = map_sum parse_error_of_litep2p id (decode v)"

text \<open>The macro that builds an address chains one component after the other.\<close>

definition build_multiaddr :: "'mh core_protocol list \<Rightarrow> 'mh core_multiaddr" where
  "build_multiaddr comps = multiaddr_from_iter (foldl (\<lambda>elem cmp. elem @ [cmp]) [] comps)"

lemma build_multiaddr_pushes: "build_multiaddr (comps @ [p]) = multiaddr_push p (build_multiaddr comps)"
  by (simp add: build_multiaddr_def multiaddr_push_def multiaddr_from_iter_def)

section \<open>Peer identities\<close>

definition MAX_INLINE_KEY_LENGTH :: nat where
  "MAX_INLINE_KEY_LENGTH = 42"

text \<open>A peer identity of the program is a multihash.\<close>

definition peer_from_multihash :: "('mh, 'g, 'pid, 'lid) mh_ops \<Rightarrow> 'mh \<Rightarrow> 'mh + 'mh" where
  "peer_from_multihash M m =
     (case code_try_from M (mh_code M m) of
        Inr CodeSha2_256 \<Rightarrow> Inr m
      | Inr CodeIdentity \<Rightarrow> if length (mh_digest M m) \<le> MAX_INLINE_KEY_LENGTH then Inr m else Inl m
      | _ \<Rightarrow> Inl m)"

definition peer_from_bytes :: "('mh, 'g, 'pid, 'lid) mh_ops \<Rightarrow> bytes \<Rightarrow> multihash_error + 'mh" where
  "peer_from_bytes M d =
     (case multihash_from_bytes M d of
        Inl e \<Rightarrow> Inl e
      | Inr m \<Rightarrow> map_sum (\<lambda>m'. UnsupportedCode (mh_code M m')) id (peer_from_multihash M m))"

definition peer_to_bytes :: "('mh, 'g, 'pid, 'lid) mh_ops \<Rightarrow> 'mh \<Rightarrow> bytes" where
  "peer_to_bytes M p = mh_to_bytes M p"

definition peer_to_base58 :: "('mh, 'g, 'pid, 'lid) mh_ops \<Rightarrow> (bytes \<Rightarrow> string) \<Rightarrow> 'mh \<Rightarrow> string" where
  "peer_to_base58 M bs58_encode p = bs58_encode (peer_to_bytes M p)"

datatype 'e peer_parse_error = B58Error 'e | PeerUnsupportedCode u64 | InvalidMultihash multihash_error

definition peer_from_str ::
  "('mh, 'g, 'pid, 'lid) mh_ops \<Rightarrow> (string \<Rightarrow> 'e + bytes) \<Rightarrow> string \<Rightarrow> 'e peer_parse_error + 'mh" where
  "peer_from_str M bs58_decode s =
     (case bs58_decode s of
        Inl e \<Rightarrow> Inl (B58Error e)
      | Inr bs \<Rightarrow> map_sum InvalidMultihash id (peer_from_bytes M bs))"

definition peer_random :: "('mh, 'g, 'pid, 'lid) mh_ops \<Rightarrow> bytes \<Rightarrow> panic + 'mh" where
  "peer_random M random_bytes =
     expect_ok ''The digest size is never too large'' (multihash_wrap M 0 random_bytes)"

text \<open>The first \<open>p2p\<close> component, its multihash taken as it is.\<close>

definition try_from_multiaddr :: "'mh core_multiaddr \<Rightarrow> 'mh option" where
  "try_from_multiaddr a =
     (case List.find (\<lambda>p. case p of P_P2p _ \<Rightarrow> True | _ \<Rightarrow> False) (multiaddr_iter a) of
        Some (P_P2p m) \<Rightarrow> Some m
      | _ \<Rightarrow> None)"

definition peer_of_libp2p :: "('mh, 'g, 'pid, 'lid) mh_ops \<Rightarrow> 'pid \<Rightarrow> panic + 'mh" where
  "peer_of_libp2p M pid = expect_ok ''to succeed'' (multihash_from_bytes M (pid_to_bytes M pid))"

definition peer_to_libp2p :: "('mh, 'g, 'pid, 'lid) mh_ops \<Rightarrow> 'mh \<Rightarrow> panic + 'pid" where
  "peer_to_libp2p M p = expect_ok ''to succeed'' (pid_from_bytes M (peer_to_bytes M p))"

definition peer_of_litep2p :: "('mh, 'g, 'pid, 'lid) mh_ops \<Rightarrow> 'lid \<Rightarrow> panic + 'mh" where
  "peer_of_litep2p M lid = expect_ok ''to succeed'' (multihash_from_bytes M (lid_to_bytes M lid))"

definition peer_to_litep2p :: "('mh, 'g, 'pid, 'lid) mh_ops \<Rightarrow> 'mh \<Rightarrow> panic + 'lid" where
  "peer_to_litep2p M p = expect_ok ''to succeed'' (lid_from_bytes M (peer_to_bytes M p))"

text \<open>The same conversions from references.\<close>

definition peer_of_libp2p_ref :: "('mh, 'g, 'pid, 'lid) mh_ops \<Rightarrow> 'pid \<Rightarrow> panic + 'mh" where
  "peer_of_libp2p_ref M pid = expect_ok ''to succeed'' (multihash_from_bytes M (pid_to_bytes M pid))"

definition peer_to_libp2p_ref :: "('mh, 'g, 'pid, 'lid) mh_ops \<Rightarrow> 'mh \<Rightarrow> panic + 'pid" where
  "peer_to_libp2p_ref M p = expect_ok ''to succeed'' (pid_from_bytes M (peer_to_bytes M p))"

definition peer_of_litep2p_ref :: "('mh, 'g, 'pid, 'lid) mh_ops \<Rightarrow> 'lid \<Rightarrow> panic + 'mh" where
  "peer_of_litep2p_ref M lid = expect_ok ''to succeed'' (multihash_from_bytes M (lid_to_bytes M lid))"

definition peer_to_litep2p_ref :: "('mh, 'g, 'pid, 'lid) mh_ops \<Rightarrow> 'mh \<Rightarrow> panic + 'lid" where
  "peer_to_litep2p_ref M p = expect_ok ''to succeed'' (lid_from_bytes M (peer_to_bytes M p))"

lemma conversions_by_reference:
  "peer_of_libp2p_ref M = peer_of_libp2p M" "peer_to_libp2p_ref M = peer_to_libp2p M"
  "peer_of_litep2p_ref M = peer_of_litep2p M" "peer_to_litep2p_ref M = peer_to_litep2p M"
  by (simp_all add: fun_eq_iff peer_of_libp2p_ref_def peer_of_libp2p_def peer_to_libp2p_ref_def
      peer_to_libp2p_def peer_of_litep2p_ref_def peer_of_litep2p_def peer_to_litep2p_ref_def
      peer_to_litep2p_def)

text \<open>A peer is printed in base 58; its debug form is that of a tuple with this text.\<close>

definition peer_display :: "('mh, 'g, 'pid, 'lid) mh_ops \<Rightarrow> (bytes \<Rightarrow> string) \<Rightarrow> 'mh \<Rightarrow> string" where
  "peer_display M bs58 p = peer_to_base58 M bs58 p"

definition peer_debug :: "('mh, 'g, 'pid, 'lid) mh_ops \<Rightarrow> (bytes \<Rightarrow> string) \<Rightarrow> 'mh \<Rightarrow> string" where
  "peer_debug M bs58 p = ''PeerId(\"'' @ peer_to_base58 M bs58 p @ ''\")''"

text \<open>
  Keys: decoding a public key from its protobuf form and reading it as an ed25519 key, and the
  reverse, are operations of \<open>libp2p_identity\<close>.
\<close>

record ('k, 'pid) key_ops =
  try_decode_protobuf :: "bytes \<Rightarrow> 'k option"
  try_into_ed25519 :: "'k \<Rightarrow> bytes option"
  ed25519_key :: "bytes \<Rightarrow> 'k option"
  pid_of_key :: "'k \<Rightarrow> 'pid"

definition into_ed25519 ::
  "('mh, 'g, 'pid, 'lid) mh_ops \<Rightarrow> ('k, 'pid) key_ops \<Rightarrow> 'mh \<Rightarrow> bytes option" where
  "into_ed25519 M K p =
     (if mh_code M p \<noteq> 0 then None
      else Option.bind (try_decode_protobuf K (mh_digest M p)) (try_into_ed25519 K))"

definition from_ed25519 ::
  "('mh, 'g, 'pid, 'lid) mh_ops \<Rightarrow> ('k, 'pid) key_ops \<Rightarrow> bytes \<Rightarrow> (panic + 'mh) option" where
  "from_ed25519 M K bs = map_option (\<lambda>k. peer_of_libp2p M (pid_of_key K k)) (ed25519_key K bs)"

section \<open>What the libraries promise\<close>

text \<open>
  A peer identity is a multihash with the SHA-256 code, or with the identity code and at most
  42 bytes of digest.
\<close>

definition peer_shape :: "u64 \<Rightarrow> bytes \<Rightarrow> bool" where
  "peer_shape code d \<longleftrightarrow> code = 0x12 \<or> code = 0 \<and> length d \<le> 42"

text \<open>
  Both multihash types hold a code and at most 64 bytes of digest and nothing else, both peer
  types hold a multihash of the shape above, and all of them have the same byte format.
\<close>

definition mh_laws :: "('mh, 'g, 'pid, 'lid) mh_ops \<Rightarrow> bool" where
  "mh_laws M \<longleftrightarrow>
     (\<forall>m. length (mh_digest M m) \<le> 64) \<and>
     (\<forall>m. mh_wrap M (mh_code M m) (mh_digest M m) = Inr m) \<and>
     (\<forall>c d. length d \<le> 64 \<longrightarrow> (\<exists>m. mh_wrap M c d = Inr m \<and> mh_code M m = c \<and> mh_digest M m = d)) \<and>
     (\<forall>m. mh_from_bytes M (mh_to_bytes M m) = Inr m) \<and>
     (\<forall>g. length (g_digest M g) \<le> 64) \<and>
     (\<forall>g. g_wrap M (g_code M g) (g_digest M g) = Inr g) \<and>
     (\<forall>c d. length d \<le> 64 \<longrightarrow> (\<exists>g. g_wrap M c d = Inr g \<and> g_code M g = c \<and> g_digest M g = d)) \<and>
     code_of_u64 M 0 = Inr LiteIdentity \<and> code_of_u64 M 0x12 = Inr LiteSha2_256 \<and>
     (\<forall>c. code_of_u64 M c = Inr LiteIdentity \<longrightarrow> c = 0) \<and>
     (\<forall>c. code_of_u64 M c = Inr LiteSha2_256 \<longrightarrow> c = 0x12) \<and>
     (\<forall>g. pid_of_multihash M g \<noteq> None \<longleftrightarrow> peer_shape (g_code M g) (g_digest M g)) \<and>
     (\<forall>g p. pid_of_multihash M g = Some p \<longrightarrow> pid_multihash M p = g) \<and>
     (\<forall>p. pid_of_multihash M (pid_multihash M p) = Some p) \<and>
     (\<forall>p m. mh_from_bytes M (pid_to_bytes M p) = Inr m \<longleftrightarrow>
        mh_code M m = g_code M (pid_multihash M p) \<and> mh_digest M m = g_digest M (pid_multihash M p)) \<and>
     (\<forall>m p. pid_from_bytes M (mh_to_bytes M m) = Inr p \<longleftrightarrow>
        mh_code M m = g_code M (pid_multihash M p) \<and> mh_digest M m = g_digest M (pid_multihash M p))"

lemma mh_laws_wrap:
  assumes "mh_laws M"
  shows "mh_wrap M (mh_code M m) (mh_digest M m) = Inr m"
    and "g_wrap M (g_code M g) (g_digest M g) = Inr g"
    and "length (mh_digest M m) \<le> 64" and "length (g_digest M g) \<le> 64"
    and "mh_from_bytes M (mh_to_bytes M m) = Inr m"
    and "pid_of_multihash M g \<noteq> None \<longleftrightarrow> peer_shape (g_code M g) (g_digest M g)"
    and "pid_of_multihash M g = Some pid \<Longrightarrow> pid_multihash M pid = g"
    and "pid_of_multihash M (pid_multihash M pid) = Some pid"
    and "mh_from_bytes M (pid_to_bytes M pid) = Inr m \<longleftrightarrow>
        mh_code M m = g_code M (pid_multihash M pid) \<and> mh_digest M m = g_digest M (pid_multihash M pid)"
    and "pid_from_bytes M (mh_to_bytes M m) = Inr pid \<longleftrightarrow>
        mh_code M m = g_code M (pid_multihash M pid) \<and> mh_digest M m = g_digest M (pid_multihash M pid)"
  using assms unfolding mh_laws_def by blast+

text \<open>A multihash and its image in the other type hold the same code and digest.\<close>

lemma multihash_to_generic_ok:
  assumes laws: "mh_laws M"
  obtains g where "multihash_to_generic M m = Inr g"
    and "g_code M g = mh_code M m" and "g_digest M g = mh_digest M m"
    and "multihash_of_generic M g = Inr m"
proof -
  have "length (mh_digest M m) \<le> 64"
    using laws by (rule mh_laws_wrap)
  then obtain g where g: "g_wrap M (mh_code M m) (mh_digest M m) = Inr g"
    "g_code M g = mh_code M m" "g_digest M g = mh_digest M m"
    using laws unfolding mh_laws_def by blast
  then show thesis
    using that [of g] laws
    by (simp add: multihash_to_generic_def multihash_of_generic_def expect_ok_def mh_laws_wrap)
qed

lemma multihash_of_generic_ok:
  assumes laws: "mh_laws M"
  obtains m where "multihash_of_generic M g = Inr m"
    and "mh_code M m = g_code M g" and "mh_digest M m = g_digest M g"
    and "multihash_to_generic M m = Inr g"
proof -
  have "length (g_digest M g) \<le> 64"
    using laws by (rule mh_laws_wrap)
  then obtain m where m: "mh_wrap M (g_code M g) (g_digest M g) = Inr m"
    "mh_code M m = g_code M g" "mh_digest M m = g_digest M g"
    using laws unfolding mh_laws_def by blast
  then show thesis
    using that [of m] laws
    by (simp add: multihash_to_generic_def multihash_of_generic_def expect_ok_def mh_laws_wrap)
qed

text \<open>The program's own test of a peer identity accepts exactly that shape.\<close>

abbreviation valid_peer :: "('mh, 'g, 'pid, 'lid) mh_ops \<Rightarrow> 'mh \<Rightarrow> bool" where
  "valid_peer M m \<equiv> peer_shape (mh_code M m) (mh_digest M m)"

lemma peer_from_multihash_eq:
  assumes laws: "mh_laws M"
  shows "peer_from_multihash M m = (if valid_peer M m then Inr m else Inl m)"
proof -
  have codes: "code_of_u64 M c = Inr LiteIdentity \<longleftrightarrow> c = 0"
    "code_of_u64 M c = Inr LiteSha2_256 \<longleftrightarrow> c = 0x12" for c
    using laws unfolding mh_laws_def by auto
  show ?thesis
    using codes [of "mh_code M m"]
    by (auto simp: peer_from_multihash_def code_try_from_def code_of_litep2p_def peer_shape_def
        MAX_INLINE_KEY_LENGTH_def split: sum.splits litep2p_code.splits)
qed

section \<open>Round trips\<close>

lemma litep2p_roundtrip [simp]:
  "protocol_of_litep2p (protocol_to_litep2p p) = p"
  "protocol_to_litep2p (protocol_of_litep2p q) = q"
  by (cases p; simp) (cases q; simp)

lemma collect_panics_Inr: "collect_panics (map (\<lambda>x. Inr (f x)) xs) = Inr (map f xs)"
  by (induction xs) auto

lemma collect_panics_image:
  assumes "\<And>x. \<exists>y. f x = Inr y \<and> g y = Inr (h x)"
  shows "\<exists>ys. collect_panics (map f xs) = Inr ys \<and> collect_panics (map g ys) = Inr (map h xs)"
proof (induction xs)
  case (Cons x xs)
  then obtain ys where "collect_panics (map f xs) = Inr ys" "collect_panics (map g ys) = Inr (map h xs)"
    by auto
  moreover obtain y where "f x = Inr y" "g y = Inr (h x)"
    using assms [of x] by auto
  ultimately show ?case
    by (intro exI [of _ "y # ys"]) simp
qed simp

text \<open>
  What is left of a component after a passage through \<open>libp2p\<close>, and of a component of
  \<open>libp2p\<close> after a passage through the program.
\<close>

definition through_libp2p ::
  "('mh, 'g, 'pid, 'lid) mh_ops \<Rightarrow> 'pid \<Rightarrow> 'mh core_protocol \<Rightarrow> 'mh core_protocol" where
  "through_libp2p M random_pid p =
     (case p of
        P_WebRTC \<Rightarrow> P_Dccp 0
      | P_P2p m \<Rightarrow>
          if valid_peer M m then p
          else (case multihash_of_generic M (pid_multihash M random_pid) of
                  Inr m' \<Rightarrow> P_P2p m' | Inl _ \<Rightarrow> p)
      | _ \<Rightarrow> p)"

definition through_core :: "('g, 'pid) libp2p_protocol \<Rightarrow> ('g, 'pid) libp2p_protocol" where
  "through_core p = (case p of Lib_WebRTCDirect \<Rightarrow> Lib_Dccp 0 | Lib_Other _ \<Rightarrow> Lib_Dccp 0 | _ \<Rightarrow> p)"

lemma protocol_through_libp2p:
  assumes laws: "mh_laws M"
  shows "\<exists>q. protocol_to_libp2p M r p = Inr q \<and> protocol_of_libp2p M q = Inr (through_libp2p M r p)"
proof (cases p)
  case (P_Certhash m)
  obtain g where "multihash_to_generic M m = Inr g" "multihash_of_generic M g = Inr m"
    using multihash_to_generic_ok [OF laws, of m] by metis
  then show ?thesis
    using P_Certhash by (simp add: through_libp2p_def)
next
  case (P_P2p m)
  obtain g where g: "multihash_to_generic M m = Inr g" "g_code M g = mh_code M m"
    "g_digest M g = mh_digest M m" "multihash_of_generic M g = Inr m"
    using multihash_to_generic_ok [OF laws, of m] by metis
  obtain m' where m': "multihash_of_generic M (pid_multihash M r) = Inr m'"
    using multihash_of_generic_ok [OF laws] by metis
  have "pid_of_multihash M g \<noteq> None \<longleftrightarrow> valid_peer M m"
    using mh_laws_wrap(6) [OF laws, of g] g(2,3) by simp
  moreover have "pid_multihash M pid = g" if "pid_of_multihash M g = Some pid" for pid
    using laws that by (rule mh_laws_wrap)
  ultimately show ?thesis
    using P_P2p g m' by (cases "pid_of_multihash M g") (auto simp: through_libp2p_def)
qed (simp_all add: through_libp2p_def)

lemma protocol_through_core:
  assumes laws: "mh_laws M"
  shows "\<exists>q. protocol_of_libp2p M p = Inr q \<and> protocol_to_libp2p M r q = Inr (through_core p)"
proof (cases p)
  case (Lib_Certhash g)
  obtain m where "multihash_of_generic M g = Inr m" "multihash_to_generic M m = Inr g"
    using multihash_of_generic_ok [OF laws, of g] by metis
  then show ?thesis
    using Lib_Certhash by (simp add: through_core_def)
next
  case (Lib_P2p pid)
  obtain m where "multihash_of_generic M (pid_multihash M pid) = Inr m"
    "multihash_to_generic M m = Inr (pid_multihash M pid)"
    using multihash_of_generic_ok [OF laws] by metis
  moreover have "pid_of_multihash M (pid_multihash M pid) = Some pid"
    using laws by (rule mh_laws_wrap)
  ultimately show ?thesis
    using Lib_P2p by (simp add: through_core_def)
qed (simp_all add: through_core_def)

text \<open>
  C17. An address of the program can always be handed to \<open>libp2p\<close> and read back, and every
  component survives except two: WebRTC comes back as DCCP with port 0, and a \<open>p2p\<close> component
  whose multihash is no peer identity comes back as the random peer put in its place. In the
  other direction WebRTC-direct and the variants the program does not name become DCCP with port
  0 and all other components survive. Addresses of \<open>litep2p\<close> survive unchanged both ways.
\<close>

theorem addresses_between_libraries:
  assumes laws: "mh_laws M"
  shows "(\<exists>b. multiaddr_to_libp2p M r a = Inr b \<and>
            multiaddr_of_libp2p M b =
              Inr (multiaddr_from_iter (map (through_libp2p M r) (multiaddr_iter a)))) \<and>
         (\<exists>c. multiaddr_of_libp2p M b = Inr c \<and> multiaddr_to_libp2p M r c = Inr (map through_core b)) \<and>
         multiaddr_from_iter (multiaddr_iter a) = a \<and> multiaddr_iter (multiaddr_from_iter ps) = ps"
proof (intro conjI)
  show "\<exists>b. multiaddr_to_libp2p M r a = Inr b \<and>
      multiaddr_of_libp2p M b = Inr (multiaddr_from_iter (map (through_libp2p M r) (multiaddr_iter a)))"
    using collect_panics_image [where f = "protocol_to_libp2p M r" and h = "through_libp2p M r"
        and g = "protocol_of_libp2p M" and xs = "multiaddr_iter a"] protocol_through_libp2p [OF laws]
    unfolding multiaddr_to_libp2p_def multiaddr_of_libp2p_def by fastforce
  obtain qs where "collect_panics (map (protocol_of_libp2p M) b) = Inr qs"
    "collect_panics (map (protocol_to_libp2p M r) qs) = Inr (map through_core b)"
    using collect_panics_image [where f = "protocol_of_libp2p M" and h = through_core
        and g = "protocol_to_libp2p M r" and xs = b] protocol_through_core [OF laws] by blast
  then show "\<exists>c. multiaddr_of_libp2p M b = Inr c \<and> multiaddr_to_libp2p M r c = Inr (map through_core b)"
    by (intro exI [of _ "multiaddr_from_iter qs"])
      (simp add: multiaddr_to_libp2p_def multiaddr_of_libp2p_def multiaddr_iter_def
        multiaddr_from_iter_def comp_def)
qed (simp_all add: multiaddr_iter_def multiaddr_from_iter_def comp_def)

text \<open>
  A multihash type and a peer type with all the promised operations, for the concrete instances:
  a code and at most 64 bytes, written as that many ones, a zero and the digest.
\<close>

typedef sample_mh = "{m :: u64 \<times> bytes. length (snd m) \<le> 64}"
  by (rule exI [of _ "(0, [])"]) simp

typedef sample_pid = "{m. peer_shape (fst (Rep_sample_mh m)) (snd (Rep_sample_mh m))}"
  by (rule exI [of _ "Abs_sample_mh (0, [])"]) (simp add: Abs_sample_mh_inverse peer_shape_def)

definition sample_encode :: "sample_mh \<Rightarrow> bytes" where
  "sample_encode m = replicate (unat (fst (Rep_sample_mh m))) 1 @ 0 # snd (Rep_sample_mh m)"

definition sample_wrap :: "(nat \<Rightarrow> 'e) \<Rightarrow> u64 \<Rightarrow> bytes \<Rightarrow> 'e + sample_mh" where
  "sample_wrap err c d = (if length d \<le> 64 then Inr (Abs_sample_mh (c, d)) else Inl (err (length d)))"

definition sample_decode :: "(nat \<Rightarrow> 'e) \<Rightarrow> bytes \<Rightarrow> 'e + sample_mh" where
  "sample_decode err bs =
     (let n = length (takeWhile (\<lambda>b. b = 1) bs) in sample_wrap err (of_nat n) (drop (Suc n) bs))"

definition sample_to_pid :: "sample_mh \<Rightarrow> sample_pid option" where
  "sample_to_pid m =
     (if peer_shape (fst (Rep_sample_mh m)) (snd (Rep_sample_mh m)) then Some (Abs_sample_pid m) else None)"

definition sample_pid_decode :: "bytes \<Rightarrow> string + sample_pid" where
  "sample_pid_decode bs =
     (case sample_decode (\<lambda>_. ''size'') bs of
        Inl e \<Rightarrow> Inl e
      | Inr m \<Rightarrow> (case sample_to_pid m of None \<Rightarrow> Inl ''code'' | Some p \<Rightarrow> Inr p))"

definition sample_ops :: "(sample_mh, sample_mh, sample_pid, sample_pid) mh_ops" where
  "sample_ops =
     \<lparr>mh_code = fst \<circ> Rep_sample_mh, mh_digest = snd \<circ> Rep_sample_mh,
      mh_wrap = sample_wrap (LiteInvalidSize \<circ> of_nat),
      mh_from_bytes = sample_decode (LiteInvalidSize \<circ> of_nat), mh_to_bytes = sample_encode,
      mh_hash = (\<lambda>c d. Abs_sample_mh (if c = LiteIdentity then 0 else 0x12, take 32 d)),
      code_of_u64 = (\<lambda>c. if c = 0 then Inr LiteIdentity else if c = 0x12 then Inr LiteSha2_256
        else Inl (LiteUnsupportedCode c)),
      u64_of_code = (\<lambda>c. case c of LiteIdentity \<Rightarrow> 0 | LiteSha2_256 \<Rightarrow> 0x12 | LiteOtherCode n \<Rightarrow> n),
      g_code = fst \<circ> Rep_sample_mh, g_digest = snd \<circ> Rep_sample_mh,
      g_wrap = sample_wrap (\<lambda>_. ''size''),
      pid_of_multihash = sample_to_pid, pid_multihash = Rep_sample_pid,
      pid_to_bytes = sample_encode \<circ> Rep_sample_pid, pid_from_bytes = sample_pid_decode,
      lid_to_bytes = sample_encode \<circ> Rep_sample_pid, lid_from_bytes = sample_pid_decode\<rparr>"

lemma sample_rep:
  "length (snd (Rep_sample_mh m)) \<le> 64" "sample_to_pid (Rep_sample_pid p) = Some p"
  using Rep_sample_mh [of m] Rep_sample_pid [of p] by (auto simp: sample_to_pid_def Rep_sample_pid_inverse)

lemma sample_wrap_rep:
  "sample_wrap err (fst (Rep_sample_mh m)) (snd (Rep_sample_mh m)) = Inr m"
  by (simp add: sample_wrap_def sample_rep Rep_sample_mh_inverse)

lemma sample_decode_encode: "sample_decode err (sample_encode m) = Inr m"
proof -
  have "takeWhile (\<lambda>b. b = 1) (sample_encode m) = replicate (unat (fst (Rep_sample_mh m))) 1"
    by (simp add: sample_encode_def takeWhile_append)
  moreover have "drop (Suc (unat (fst (Rep_sample_mh m)))) (sample_encode m) = snd (Rep_sample_mh m)"
    by (simp add: sample_encode_def)
  ultimately show ?thesis
    by (simp add: sample_decode_def sample_wrap_rep)
qed

lemma sample_to_pid_Some: "sample_to_pid m = Some p \<longleftrightarrow> Rep_sample_pid p = m"
  by (metis (mono_tags, lifting) Abs_sample_pid_inverse mem_Collect_eq option.distinct(1)
      option.inject sample_rep(2) sample_to_pid_def)

lemma sample_same: "fst (Rep_sample_mh m) = fst (Rep_sample_mh m') \<and>
    snd (Rep_sample_mh m) = snd (Rep_sample_mh m') \<longleftrightarrow> m = m'"
  by (metis Rep_sample_mh_inject prod.expand)

lemma sample_laws: "mh_laws sample_ops"
proof -
  have pid: "sample_pid_decode (sample_encode m) = Inr p \<longleftrightarrow> Rep_sample_pid p = m" for m p
    by (cases "sample_to_pid m")
      (use sample_to_pid_Some [of m p] in \<open>auto simp: sample_pid_decode_def sample_decode_encode\<close>)
  have wrap: "\<exists>m. sample_wrap err c d = Inr m \<and> fst (Rep_sample_mh m) = c \<and> snd (Rep_sample_mh m) = d"
    if "length d \<le> 64" for err :: "nat \<Rightarrow> 'e" and c d
    using that by (simp add: sample_wrap_def Abs_sample_mh_inverse)
  show ?thesis
    unfolding mh_laws_def sample_ops_def
    by (auto simp: sample_rep sample_wrap_rep sample_decode_encode sample_to_pid_Some pid wrap sample_same
        sample_to_pid_def Abs_sample_pid_inverse Rep_sample_pid_inverse Rep_sample_pid [simplified]
        split: if_splits)
qed

theorem addresses_between_libraries_witness:
  "\<exists>b. multiaddr_to_libp2p sample_ops (Abs_sample_pid (Abs_sample_mh (0, []))) [Lite_Tcp 30333, Lite_WebRTC] = Inr b \<and>
       multiaddr_of_libp2p sample_ops b = Inr [Lite_Tcp 30333, Lite_Dccp 0]"
  using addresses_between_libraries [OF sample_laws, where b = "[]" and ps = "[]" and
      r = "Abs_sample_pid (Abs_sample_mh (0, []))" and a = "[Lite_Tcp 30333, Lite_WebRTC]"]
  by (simp add: multiaddr_iter_def multiaddr_from_iter_def through_libp2p_def)

lemma peer_to_libp2p_cases:
  assumes laws: "mh_laws M"
  shows "if valid_peer M m then \<exists>pid. peer_to_libp2p M m = Inr pid \<and> peer_of_libp2p M pid = Inr m
         else peer_to_libp2p M m = Inl (UnwrapNone ''to succeed'')"
proof (cases "pid_from_bytes M (mh_to_bytes M m)")
  case (Inr pid)
  then have same: "mh_code M m = g_code M (pid_multihash M pid)" "mh_digest M m = g_digest M (pid_multihash M pid)"
    using mh_laws_wrap(10) [OF laws] by blast+
  moreover have "peer_shape (g_code M (pid_multihash M pid)) (g_digest M (pid_multihash M pid))"
    using mh_laws_wrap(6,8) [OF laws] by (metis option.distinct(1))
  moreover have "mh_from_bytes M (pid_to_bytes M pid) = Inr m"
    using mh_laws_wrap(9) [OF laws] same by blast
  ultimately show ?thesis
    using Inr by (simp add: peer_to_libp2p_def peer_of_libp2p_def peer_to_bytes_def expect_ok_def
        multihash_from_bytes_def)
next
  case (Inl e)
  have "\<not> valid_peer M m"
  proof
    assume valid: "valid_peer M m"
    obtain g where g: "g_code M g = mh_code M m" "g_digest M g = mh_digest M m"
      using multihash_to_generic_ok [OF laws, of m] by metis
    then obtain pid where "pid_multihash M pid = g"
      using mh_laws_wrap(6,7) [OF laws] valid by (metis option.exhaust)
    then have "pid_from_bytes M (mh_to_bytes M m) = Inr pid"
      using mh_laws_wrap(10) [OF laws] g by metis
    with Inl show False by simp
  qed
  with Inl show ?thesis
    by (simp add: peer_to_libp2p_def peer_to_bytes_def expect_ok_def)
qed

text \<open>
  C33. Parsing is the only gate: a peer identity read from bytes is an accepted one, writes back to
  the bytes it stands for and converts to \<open>libp2p\<close> and back without change. The identity
  taken from an address is the multihash of its first \<open>p2p\<close> component unchecked, and its
  conversion to \<open>libp2p\<close> panics exactly when it is not an accepted identity.
\<close>

theorem peer_identities_checked:
  assumes laws: "mh_laws M"
  shows "peer_from_bytes M (peer_to_bytes M m) =
           (if valid_peer M m then Inr m else Inl (UnsupportedCode (mh_code M m))) \<and>
         (if valid_peer M m then \<exists>pid. peer_to_libp2p M m = Inr pid \<and> peer_of_libp2p M pid = Inr m
          else peer_to_libp2p M m = Inl (UnwrapNone ''to succeed'')) \<and>
         try_from_multiaddr (multiaddr_with a (P_P2p m)) =
           (case try_from_multiaddr a of None \<Rightarrow> Some m | Some m' \<Rightarrow> Some m')"
proof (intro conjI)
  show "peer_from_bytes M (peer_to_bytes M m) =
      (if valid_peer M m then Inr m else Inl (UnsupportedCode (mh_code M m)))"
    using laws by (simp add: peer_from_bytes_def peer_to_bytes_def multihash_from_bytes_def
        mh_laws_wrap peer_from_multihash_eq)
  show "try_from_multiaddr (multiaddr_with a (P_P2p m)) =
      (case try_from_multiaddr a of None \<Rightarrow> Some m | Some m' \<Rightarrow> Some m')"
    by (induction a) (auto simp: try_from_multiaddr_def multiaddr_with_def multiaddr_iter_def
        split: core_protocol.splits)
qed (rule peer_to_libp2p_cases [OF laws])

theorem peer_identities_checked_witness:
  "try_from_multiaddr (multiaddr_with [Lite_Tcp 30333] (P_P2p (Abs_sample_mh (0x13, [])))) =
     Some (Abs_sample_mh (0x13, [])) \<and>
   peer_to_libp2p sample_ops (Abs_sample_mh (0x13, [])) = Inl (UnwrapNone ''to succeed'')"
  using peer_identities_checked [OF sample_laws, of "Abs_sample_mh (0x13, [])" "[Lite_Tcp 30333]"]
  by (simp add: sample_ops_def Abs_sample_mh_inverse peer_shape_def try_from_multiaddr_def
      multiaddr_iter_def)

text \<open>
  The ed25519 key of a peer is read back from the identity built from it, given that the
  library stores an ed25519 key in the identity multihash of its protobuf form.
\<close>

lemma ed25519_roundtrip:
  assumes laws: "mh_laws M" and key: "ed25519_key K bs = Some k"
    and inline: "g_code M (pid_multihash M (pid_of_key K k)) = 0"
    and protobuf: "try_decode_protobuf K (g_digest M (pid_multihash M (pid_of_key K k))) = Some k"
    and bytes: "try_into_ed25519 K k = Some bs"
  shows "\<exists>p. from_ed25519 M K bs = Some (Inr p) \<and> into_ed25519 M K p = Some bs"
proof -
  obtain m where "mh_code M m = g_code M (pid_multihash M (pid_of_key K k))"
    "mh_digest M m = g_digest M (pid_multihash M (pid_of_key K k))"
    using multihash_of_generic_ok [OF laws] by metis
  moreover from this have "mh_from_bytes M (pid_to_bytes M (pid_of_key K k)) = Inr m"
    using mh_laws_wrap(9) [OF laws] by metis
  ultimately show ?thesis
    using key inline protobuf bytes
    by (simp add: from_ed25519_def into_ed25519_def peer_of_libp2p_def multihash_from_bytes_def expect_ok_def)
qed

end
