(* ===== verification/Libp2p_Backend.thy ===== *)
theory Libp2p_Backend
  imports Core_Types Library_Swarm
begin

text \<open>
  The \<open>libp2p\<close> network backend (\<open>subp2p-explorer-core/src/libp2p.rs\<close>) with the events and
  the query identifiers of the \<open>NetworkBackend\<close> trait (\<open>lib.rs\<close>). The backend sends commands
  over a channel to a background task that owns the swarm and forwards every event of the
  swarm over a second channel. The commands sent and not yet handled are part of the state, and
  what the second channel yields to a poll is an argument of the poll. Both channels are
  bounded: a full one delays its sender and loses nothing, so their capacities do not appear.
  The swarm \<open>'sw\<close> and the identifiers \<open>'q\<close> of its queries are those of the library.
\<close>

section \<open>The trait\<close>

text \<open>A query identifier is a \<open>usize\<close>.\<close>

type_synonym query_id = u64

datatype 'mh network_event =
    PeerIdentified 'mh "string option" "string option" "string list"
      "'mh core_multiaddr" "'mh core_multiaddr list"
  | FindNode query_id 'mh "('mh \<times> 'mh core_multiaddr list) list"

text \<open>
  What a poll did: its result, whether it woke its own task, and the sources it polled that
  were not ready. A source that is not ready keeps the waker and wakes the task later.
\<close>

datatype poll_source = EventChannel | IdentifyStream | KademliaStream

record 'e polled =
  poll_result :: "'e option poll"
  poll_woke :: bool
  poll_waits :: "poll_source list"

text \<open>
  The contract a client of the trait relies on: a run of requests, up to as many as there are
  identifiers, gets different ones. \<open>good\<close> holds of the backend states the contract is about.
\<close>

fun issue :: "('p \<Rightarrow> 'b \<Rightarrow> panic + query_id \<times> 'b) \<Rightarrow> 'p list \<Rightarrow> 'b \<Rightarrow> panic + query_id list \<times> 'b" where
  "issue ask [] b = Inr ([], b)"
| "issue ask (p # ps) b =
     (case ask p b of
        Inl e \<Rightarrow> Inl e
      | Inr (i, b') \<Rightarrow> map_sum id (\<lambda>(ids, b''). (i # ids, b'')) (issue ask ps b'))"

lemma issue_Cons:
  "issue ask (p # ps) b = Inr (ids, b') \<longleftrightarrow>
     (\<exists>i b1 ids1. ask p b = Inr (i, b1) \<and> issue ask ps b1 = Inr (ids1, b') \<and> ids = i # ids1)"
  by (cases "ask p b"; cases "issue ask ps (snd (projr (ask p b)))") (auto split: prod.splits)

locale query_issuer =
  fixes ask :: "'p \<Rightarrow> 'b \<Rightarrow> panic + query_id \<times> 'b" and good :: "'b \<Rightarrow> bool"
  assumes good_ask: "good b \<Longrightarrow> ask p b = Inr (i, b') \<Longrightarrow> good b'"
    and issue_distinct: "good b \<Longrightarrow> length ps \<le> 2 ^ 64 \<Longrightarrow> issue ask ps b = Inr (ids, b') \<Longrightarrow> distinct ids"
begin

lemma issue_snoc:
  "issue ask ps b = Inr (ids, b') \<Longrightarrow> ask p b' = Inr (i, b'') \<Longrightarrow>
     issue ask (ps @ [p]) b = Inr (ids @ [i], b'')"
  by (induction ps arbitrary: b ids) (auto simp: issue_Cons simp del: issue.simps(2))

end

section \<open>State and commands\<close>

type_synonym ('g, 'pid) lib_addr = "('g, 'pid) libp2p_protocol list"

datatype ('g, 'pid) inner_command =
    AddKnownAddress 'pid "('g, 'pid) lib_addr"
  | FindNodeCommand 'pid bool  \<comment> \<open>whether the requester still listens\<close>

record ('g, 'pid, 'q, 'sw) libp2p_backend =
  lb_swarm :: 'sw
  lb_commands :: "('g, 'pid) inner_command list"
  lb_query_translate :: "('q, query_id) hash_map"
  lb_peer_addresses :: "('pid, ('g, 'pid) lib_addr list) hash_map"
  lb_next_query_id :: u64
  lb_pending_actions :: "('g, 'pid) inner_command list"

text \<open>
  The settings of the swarm. \<open>StreamProtocol::try_from_owned\<close> refuses a protocol name that does
  not start with a slash; \<open>build\<close> is the swarm builder of the library.
\<close>

definition libp2p_settings :: "string \<Rightarrow> swarm_settings" where
  "libp2p_settings kad_protocol =
     \<lparr>ss_nodelay = True,
      ss_identify = \<lparr>is_protocol_version = ''subp2p-explorer-0.1'', is_agent_version = None,
        is_cache_size = Some 0\<rparr>,
      ss_ping = True,
      ss_kad = Some \<lparr>ks_protocol = kad_protocol, ks_manual_inserts = True, ks_max_packet_size = 8192,
        ks_record_ttl = None, ks_provider_ttl = None, ks_query_timeout = 10\<rparr>\<rparr>"

definition libp2p_backend_new ::
  "(swarm_settings \<Rightarrow> build_step + 'sw) \<Rightarrow> string \<Rightarrow> panic + ('g, 'pid, 'q, 'sw) libp2p_backend" where
  "libp2p_backend_new build genesis =
     (let kad_protocol = ''/'' @ trim_start_matches ''0x'' genesis @ ''/kad''
      in if \<not> prefix ''/'' kad_protocol then Inl (UnwrapNone ''StreamProtocol'')
         else
           (case built ''Can construct websocket; qed'' (build (libp2p_settings kad_protocol)) of
              Inl e \<Rightarrow> Inl e
            | Inr sw \<Rightarrow>
                Inr \<lparr>lb_swarm = sw, lb_commands = [], lb_query_translate = [], lb_peer_addresses = [],
                     lb_next_query_id = 0, lb_pending_actions = []\<rparr>))"

section \<open>The background task\<close>

record ('g, 'pid, 'q, 'sw) lib_kad_ops =
  lk_add_address :: "'pid \<Rightarrow> ('g, 'pid) lib_addr \<Rightarrow> 'sw \<Rightarrow> 'sw"
  lk_get_closest_peers :: "'pid \<Rightarrow> 'sw \<Rightarrow> 'q \<times> 'sw"

text \<open>
  A command: whether the task stops, the identifier it answers with, and the swarm. An answer
  that nobody waits for panics.
\<close>

definition handle_cmd ::
  "('g, 'pid, 'q, 'sw) lib_kad_ops \<Rightarrow> ('g, 'pid) inner_command option \<Rightarrow> 'sw
     \<Rightarrow> panic + bool \<times> 'q option \<times> 'sw" where
  "handle_cmd K cmd sw =
     (case cmd of
        None \<Rightarrow> Inr (True, None, sw)
      | Some (AddKnownAddress peer address) \<Rightarrow> Inr (False, None, lk_add_address K peer address sw)
      | Some (FindNodeCommand peer listening) \<Rightarrow>
          (case lk_get_closest_peers K peer sw of (q, sw') \<Rightarrow>
             if listening then Inr (False, Some q, sw')
             else Inl (UnwrapNone ''Query ID should be received'')))"

text \<open>An event: whether the task stops, which it does when the receiver is gone.\<close>

definition handle_swarm_event :: "bool \<Rightarrow> 'ev \<Rightarrow> bool \<times> 'ev list" where
  "handle_swarm_event receiver_open event = (if receiver_open then (False, [event]) else (True, []))"

text \<open>The loop, on what \<open>select!\<close> picks in each turn; the events forwarded and the answers given.\<close>

datatype ('g, 'pid, 'ev) background_turn =
    OnCommand "('g, 'pid) inner_command option"
  | OnSwarmEvent 'ev bool

fun background ::
  "('g, 'pid, 'q, 'sw) lib_kad_ops \<Rightarrow> ('g, 'pid, 'ev) background_turn list \<Rightarrow> 'sw
     \<Rightarrow> panic + 'q list \<times> 'ev list \<times> 'sw" where
  "background K [] sw = Inr ([], [], sw)"
| "background K (OnCommand cmd # ts) sw =
     (case handle_cmd K cmd sw of
        Inl e \<Rightarrow> Inl e
      | Inr (stop, answer, sw') \<Rightarrow>
          if stop then Inr ([], [], sw')
          else (case background K ts sw' of
                  Inl e \<Rightarrow> Inl e
                | Inr (qs, evs, sw'') \<Rightarrow> Inr ((case answer of None \<Rightarrow> qs | Some q \<Rightarrow> q # qs), evs, sw'')))"
| "background K (OnSwarmEvent ev open # ts) sw =
     (case handle_swarm_event open ev of (stop, forwarded) \<Rightarrow>
        if stop then Inr ([], [], sw)
        else (case background K ts sw of
                Inl e \<Rightarrow> Inl e
              | Inr (qs, evs, sw') \<Rightarrow> Inr (qs, forwarded @ evs, sw')))"

section \<open>Operations\<close>

text \<open>
  Asking for a node: the request is queued behind the commands already sent, and the answer
  comes when the task has handled them all.
\<close>

definition libp2p_start_query ::
  "('mh, 'g, 'pid, 'lid) mh_ops \<Rightarrow> ('g, 'pid, 'q, 'sw) lib_kad_ops \<Rightarrow> 'mh
     \<Rightarrow> ('g, 'pid, 'q, 'sw) libp2p_backend \<Rightarrow> panic + 'q \<times> ('g, 'pid, 'q, 'sw) libp2p_backend" where
  "libp2p_start_query M K peer s =
     (case peer_to_libp2p M peer of
        Inl e \<Rightarrow> Inl e
      | Inr pid \<Rightarrow>
          (case background K (map (\<lambda>c. OnCommand (Some c)) (lb_commands s @ [FindNodeCommand pid True]))
                  (lb_swarm s) :: panic + 'q list \<times> unit list \<times> 'sw of
             Inl e \<Rightarrow> Inl e
           | Inr (answers, _, sw) \<Rightarrow>
               if answers = [] then Inl (UnwrapNone ''Query ID should be received'')
               else Inr (last answers, s\<lparr>lb_swarm := sw, lb_commands := []\<rparr>)))"

definition libp2p_find_node ::
  "('mh, 'g, 'pid, 'lid) mh_ops \<Rightarrow> ('g, 'pid, 'q, 'sw) lib_kad_ops \<Rightarrow> 'mh
     \<Rightarrow> ('g, 'pid, 'q, 'sw) libp2p_backend
     \<Rightarrow> panic + query_id \<times> ('g, 'pid, 'q, 'sw) libp2p_backend" where
  "libp2p_find_node M K peer s =
     (case libp2p_start_query M K peer s of
        Inl e \<Rightarrow> Inl e
      | Inr (query, s1) \<Rightarrow>
          (let query_id = lb_next_query_id s1
           in Inr (query_id,
                s1\<lparr>lb_next_query_id := query_id + 1,
                   lb_query_translate := AList.update query query_id (lb_query_translate s1)\<rparr>)))"

fun libp2p_send_addresses ::
  "('mh, 'g, 'pid, 'lid) mh_ops \<Rightarrow> 'pid \<Rightarrow> 'pid \<Rightarrow> 'mh core_multiaddr list
     \<Rightarrow> ('g, 'pid, 'q, 'sw) libp2p_backend \<Rightarrow> panic + ('g, 'pid, 'q, 'sw) libp2p_backend" where
  "libp2p_send_addresses M r pid [] s = Inr s"
| "libp2p_send_addresses M r pid (a # as) s =
     (case multiaddr_to_libp2p M r a of
        Inl e \<Rightarrow> Inl e
      | Inr addr \<Rightarrow>
          libp2p_send_addresses M r pid as
            (s\<lparr>lb_commands := lb_commands s @ [AddKnownAddress pid addr]\<rparr>))"

text \<open>The random peer stands in for components that hold no peer identity.\<close>

definition libp2p_add_known_peer ::
  "('mh, 'g, 'pid, 'lid) mh_ops \<Rightarrow> 'pid \<Rightarrow> 'mh \<Rightarrow> 'mh core_multiaddr list
     \<Rightarrow> ('g, 'pid, 'q, 'sw) libp2p_backend \<Rightarrow> panic + ('g, 'pid, 'q, 'sw) libp2p_backend" where
  "libp2p_add_known_peer M r peer address s =
     (case peer_to_libp2p M peer of
        Inl e \<Rightarrow> Inl e
      | Inr pid \<Rightarrow> libp2p_send_addresses M r pid address s)"

definition libp2p_listen_addresses :: "('g, 'pid, 'q, 'sw) libp2p_backend \<Rightarrow> 'mh core_multiaddr list" where
  "libp2p_listen_addresses s = []"

section \<open>Polling\<close>

record ('g, 'pid) lib_identify_info =
  li_protocol_version :: string
  li_agent_version :: string
  li_protocols :: "string list"
  li_observed_addr :: "('g, 'pid) lib_addr"
  li_listen_addrs :: "('g, 'pid) lib_addr list"

datatype ('g, 'pid) closest_result =
    ClosestPeersFound bytes "('pid \<times> ('g, 'pid) lib_addr list) list"
  | ClosestPeersTimeout bytes "('pid \<times> ('g, 'pid) lib_addr list) list"

datatype ('g, 'pid, 'q) lib_event =
    IdentifyReceived 'pid "('g, 'pid) lib_identify_info"
  | ClosestPeersProgressed 'q "('g, 'pid) closest_result"
  | LibRoutablePeer 'pid "('g, 'pid) lib_addr"
  | LibPendingRoutablePeer 'pid "('g, 'pid) lib_addr"
  | LibRoutingUpdated 'pid "('g, 'pid) lib_addr list"
  | OtherLibEvent

text \<open>Outcome of a poll with the new state; the first argument of the result is the wake-up.\<close>

definition poll_ready :: "'e option \<Rightarrow> 's \<Rightarrow> 'e polled \<times> 's" where
  "poll_ready ev s = (\<lparr>poll_result = Ready ev, poll_woke = False, poll_waits = []\<rparr>, s)"

definition poll_again :: "'s \<Rightarrow> 'e polled \<times> 's" where
  "poll_again s = (\<lparr>poll_result = Pending, poll_woke = True, poll_waits = []\<rparr>, s)"

definition convert_peers ::
  "('p \<Rightarrow> panic + 'mh) \<Rightarrow> ('a \<Rightarrow> panic + 'mh core_multiaddr) \<Rightarrow> ('p \<times> 'a list) list
     \<Rightarrow> panic + ('mh \<times> 'mh core_multiaddr list) list" where
  "convert_peers of_peer of_addr peers =
     collect_panics (map (\<lambda>(p, addrs).
       case of_peer p of
         Inl e \<Rightarrow> Inl e
       | Inr m \<Rightarrow> map_sum id (Pair m) (collect_panics (map of_addr addrs))) peers)"

definition identified_event ::
  "('p \<Rightarrow> panic + 'mh) \<Rightarrow> ('a \<Rightarrow> panic + 'mh core_multiaddr) \<Rightarrow> 'p \<Rightarrow> string option \<Rightarrow> string option
     \<Rightarrow> string list \<Rightarrow> 'a \<Rightarrow> 'a list \<Rightarrow> panic + 'mh network_event" where
  "identified_event of_peer of_addr peer version agent protocols observed listen =
     (case of_peer peer of
        Inl e \<Rightarrow> Inl e
      | Inr m \<Rightarrow>
          (case of_addr observed of
             Inl e \<Rightarrow> Inl e
           | Inr seen \<Rightarrow>
               map_sum id (PeerIdentified m version agent (remdups protocols) seen)
                 (collect_panics (map of_addr listen))))"

text \<open>A finished query, with the peers found up to a timeout.\<close>

definition libp2p_on_closest ::
  "('mh, 'g, 'pid, 'lid) mh_ops \<Rightarrow> 'q \<Rightarrow> ('g, 'pid) closest_result
     \<Rightarrow> ('g, 'pid, 'q, 'sw) libp2p_backend
     \<Rightarrow> panic + 'mh network_event polled \<times> ('g, 'pid, 'q, 'sw) libp2p_backend" where
  "libp2p_on_closest M i result s =
     (let (key, peers) = (case result of ClosestPeersFound k ps \<Rightarrow> (k, ps) | ClosestPeersTimeout k ps \<Rightarrow> (k, ps))
      in case map_of (lb_query_translate s) i of
           None \<Rightarrow> Inl (UnwrapNone ''query_translate'')
         | Some query_id \<Rightarrow>
             (case peer_from_bytes M key of
                Inl _ \<Rightarrow> Inl (UnwrapNone ''PeerId'')
              | Inr target \<Rightarrow>
                  (case convert_peers (peer_of_libp2p M) (multiaddr_of_libp2p M) peers of
                     Inl e \<Rightarrow> Inl e
                   | Inr found \<Rightarrow>
                       Inr (poll_ready (Some (FindNode query_id target found))
                         (s\<lparr>lb_query_translate := map_remove i (lb_query_translate s)\<rparr>)))))"

definition note_peer_addresses ::
  "'pid \<Rightarrow> ('g, 'pid) lib_addr list \<Rightarrow> ('g, 'pid, 'q, 'sw) libp2p_backend
     \<Rightarrow> ('g, 'pid, 'q, 'sw) libp2p_backend" where
  "note_peer_addresses peer addrs s =
     s\<lparr>lb_peer_addresses := map_entry peer (\<lambda>known. known @ addrs) addrs (lb_peer_addresses s)\<rparr>"

text \<open>A discovered address is sent to the routing table by an action of its own.\<close>

definition libp2p_on_routable ::
  "'pid \<Rightarrow> ('g, 'pid) lib_addr \<Rightarrow> ('g, 'pid, 'q, 'sw) libp2p_backend
     \<Rightarrow> ('g, 'pid, 'q, 'sw) libp2p_backend" where
  "libp2p_on_routable peer address s =
     note_peer_addresses peer [address]
       (s\<lparr>lb_pending_actions := lb_pending_actions s @ [AddKnownAddress peer address]\<rparr>)"

definition libp2p_on_event ::
  "('mh, 'g, 'pid, 'lid) mh_ops \<Rightarrow> ('g, 'pid, 'q) lib_event \<Rightarrow> ('g, 'pid, 'q, 'sw) libp2p_backend
     \<Rightarrow> panic + 'mh network_event polled \<times> ('g, 'pid, 'q, 'sw) libp2p_backend" where
  "libp2p_on_event M event s =
     (case event of
        IdentifyReceived peer info \<Rightarrow>
          map_sum id (\<lambda>ev. poll_ready (Some ev) s)
            (identified_event (peer_of_libp2p M) (multiaddr_of_libp2p M) peer
               (Some (li_protocol_version info)) (Some (li_agent_version info)) (li_protocols info)
               (li_observed_addr info) (li_listen_addrs info))
      | ClosestPeersProgressed i result \<Rightarrow> libp2p_on_closest M i result s
      | LibRoutablePeer peer address \<Rightarrow> Inr (poll_again (libp2p_on_routable peer address s))
      | LibPendingRoutablePeer peer address \<Rightarrow> Inr (poll_again (libp2p_on_routable peer address s))
      | LibRoutingUpdated peer addresses \<Rightarrow> Inr (poll_again (note_peer_addresses peer addresses s))
      | OtherLibEvent \<Rightarrow> Inr (poll_again s))"

text \<open>Polling the pending actions completes at most one: it sends its command.\<close>

definition libp2p_poll_actions ::
  "nat option \<Rightarrow> ('g, 'pid, 'q, 'sw) libp2p_backend \<Rightarrow> ('g, 'pid, 'q, 'sw) libp2p_backend" where
  "libp2p_poll_actions completed s =
     (case completed of
        None \<Rightarrow> s
      | Some n \<Rightarrow>
          if n < length (lb_pending_actions s)
          then s\<lparr>lb_commands := lb_commands s @ [lb_pending_actions s ! n],
                 lb_pending_actions := take n (lb_pending_actions s) @ drop (Suc n) (lb_pending_actions s)\<rparr>
          else s)"

definition libp2p_poll_next ::
  "('mh, 'g, 'pid, 'lid) mh_ops \<Rightarrow> nat option \<Rightarrow> ('g, 'pid, 'q) lib_event option poll
     \<Rightarrow> ('g, 'pid, 'q, 'sw) libp2p_backend
     \<Rightarrow> panic + 'mh network_event polled \<times> ('g, 'pid, 'q, 'sw) libp2p_backend" where
  "libp2p_poll_next M completed received s =
     (let s1 = (if lb_pending_actions s \<noteq> [] then libp2p_poll_actions completed s else s)
      in case received of
           Ready (Some event) \<Rightarrow> libp2p_on_event M event s1
         | Ready None \<Rightarrow> Inr (poll_ready None s1)
         | Pending \<Rightarrow>
             Inr (\<lparr>poll_result = Pending, poll_woke = False, poll_waits = [EventChannel]\<rparr>, s1))"

section \<open>Conversions that do not panic\<close>

lemma collect_panics_total:
  assumes "\<And>x. x \<in> set xs \<Longrightarrow> \<exists>y. f x = Inr y"
  shows "\<exists>ys. collect_panics (map f xs) = Inr ys \<and> length ys = length xs \<and>
           (\<forall>n < length xs. f (xs ! n) = Inr (ys ! n))"
  using assms
proof (induction xs)
  case (Cons x xs)
  then obtain y ys where "f x = Inr y" "collect_panics (map f xs) = Inr ys" "length ys = length xs"
    "\<forall>n < length xs. f (xs ! n) = Inr (ys ! n)"
    by (metis list.set_intros(1,2))
  then show ?case
    by (intro exI [of _ "y # ys"]) (auto simp: less_Suc_eq_0_disj)
qed simp

lemma peer_of_libp2p_total:
  assumes "mh_laws M"
  obtains m where "peer_of_libp2p M pid = Inr m"
proof -
  obtain m where "mh_code M m = g_code M (pid_multihash M pid)"
    "mh_digest M m = g_digest M (pid_multihash M pid)"
    using multihash_of_generic_ok [OF assms] by metis
  then have "mh_from_bytes M (pid_to_bytes M pid) = Inr m"
    using mh_laws_wrap(9) [OF assms] by metis
  then show thesis
    using that [of m] by (simp add: peer_of_libp2p_def multihash_from_bytes_def expect_ok_def)
qed

lemma multiaddr_of_libp2p_total:
  assumes "mh_laws M"
  obtains a where "multiaddr_of_libp2p M b = Inr a"
proof -
  have "\<exists>q. protocol_of_libp2p M p = Inr q" for p
    using protocol_through_core [OF assms] by blast
  then obtain qs where "collect_panics (map (protocol_of_libp2p M) b) = Inr qs"
    using collect_panics_total [of b "protocol_of_libp2p M"] by blast
  then show thesis
    using that by (simp add: multiaddr_of_libp2p_def)
qed

text \<open>Peers keep their order, and each keeps its identity and its number of addresses.\<close>

lemma convert_peers_total:
  assumes laws: "mh_laws M"
  shows "\<exists>found. convert_peers (peer_of_libp2p M) (multiaddr_of_libp2p M) peers = Inr found \<and>
           map (Inr \<circ> fst) found = map (peer_of_libp2p M \<circ> fst) peers"
proof (induction peers)
  case (Cons x peers)
  obtain p addrs where x: "x = (p, addrs)" by (cases x)
  obtain m where m: "peer_of_libp2p M p = Inr m"
    using peer_of_libp2p_total [OF laws] by metis
  have "\<exists>a. multiaddr_of_libp2p M b = Inr a" for b
    using multiaddr_of_libp2p_total [OF laws] by metis
  then obtain as where "collect_panics (map (multiaddr_of_libp2p M) addrs) = Inr as"
    using collect_panics_total [of addrs "multiaddr_of_libp2p M"] by blast
  with Cons.IH x m show ?case
    by (auto simp: convert_peers_def)
qed (simp add: convert_peers_def)

section \<open>Queries and their answers\<close>

text \<open>
  What the library promises of its query identifiers: a query gets one not in use before.
  \<open>issued\<close> is the set of those handed out; the swarm may start queries of its own.
\<close>

definition lib_fresh :: "('g, 'pid, 'q, 'sw) lib_kad_ops \<Rightarrow> ('sw \<Rightarrow> 'q set) \<Rightarrow> bool" where
  "lib_fresh K issued \<longleftrightarrow>
     (\<forall>p sw. case lk_get_closest_peers K p sw of (q, sw') \<Rightarrow>
        q \<notin> issued sw \<and> insert q (issued sw) \<subseteq> issued sw')
     \<and> (\<forall>p a sw. issued sw \<subseteq> issued (lk_add_address K p a sw))"

lemma handle_cmd_issued:
  assumes "lib_fresh K issued" and "handle_cmd K c sw = Inr (stop, ans, sw')"
  shows "issued sw \<subseteq> issued sw' \<and> (case ans of None \<Rightarrow> True | Some q \<Rightarrow> q \<notin> issued sw \<and> q \<in> issued sw')"
  using assms by (auto simp: handle_cmd_def lib_fresh_def split: option.splits inner_command.splits
      prod.splits if_splits) blast+

lemma background_query:
  assumes fresh: "lib_fresh K issued"
    and "background K (map (\<lambda>c. OnCommand (Some c)) cs @ [OnCommand (Some (FindNodeCommand pid True))]) sw = Inr (qs, evs, sw')"
  shows "qs \<noteq> [] \<and> last qs \<notin> issued sw \<and> last qs \<in> issued sw' \<and> issued sw \<subseteq> issued sw'"
  using assms(2)
proof (induction cs arbitrary: sw qs evs)
  case Nil
  with fresh show ?case
    by (auto simp: handle_cmd_def lib_fresh_def split: prod.splits)
next
  case (Cons c cs)
  then obtain stop ans sw1 where h: "handle_cmd K (Some c) sw = Inr (stop, ans, sw1)"
    by (auto split: sum.splits prod.splits)
  then have "\<not> stop"
    by (auto simp: handle_cmd_def split: inner_command.splits prod.splits if_splits)
  with Cons.prems h obtain qs1 where
    rest: "background K (map (\<lambda>c. OnCommand (Some c)) cs @ [OnCommand (Some (FindNodeCommand pid True))]) sw1 = Inr (qs1, evs, sw')"
    and qs: "qs = (case ans of None \<Rightarrow> qs1 | Some q \<Rightarrow> q # qs1)"
    by (auto split: sum.splits prod.splits)
  have "issued sw \<subseteq> issued sw1"
    using handle_cmd_issued [OF fresh h] by simp
  with Cons.IH [OF rest] qs show ?case
    by (auto split: option.splits)
qed

lemma start_query_fresh:
  assumes "lib_fresh K issued" and "libp2p_start_query M K peer s = Inr (q, s')"
  shows "q \<notin> issued (lb_swarm s) \<and> q \<in> issued (lb_swarm s') \<and>
         issued (lb_swarm s) \<subseteq> issued (lb_swarm s') \<and>
         lb_query_translate s' = lb_query_translate s \<and> lb_next_query_id s' = lb_next_query_id s \<and>
         (\<exists>pid. peer_to_libp2p M peer = Inr pid)"
proof -
  from assms(2) obtain pid qs evs sw where "peer_to_libp2p M peer = Inr pid"
    and "background K (map (\<lambda>c. OnCommand (Some c)) (lb_commands s) @ [OnCommand (Some (FindNodeCommand pid True))])
          (lb_swarm s) = Inr (qs, evs :: unit list, sw)"
    and "q = last qs" "s' = s\<lparr>lb_swarm := sw, lb_commands := []\<rparr>"
    by (auto simp: libp2p_start_query_def split: sum.splits prod.splits if_splits)
  with background_query [OF assms(1)] show ?thesis by fastforce
qed

text \<open>
  The states a backend goes through, with the queries asked so far (the library's identifier,
  the one returned, the peer asked for) and the library's identifiers reported back.
\<close>

fun reported :: "('g, 'pid, 'q) lib_event option poll \<Rightarrow> 'q list" where
  "reported (Ready (Some (ClosestPeersProgressed q res))) = [q]"
| "reported _ = []"

inductive libp2p_reach ::
  "('mh, 'g, 'pid, 'lid) mh_ops \<Rightarrow> ('g, 'pid, 'q, 'sw) lib_kad_ops \<Rightarrow> ('sw \<Rightarrow> 'q set)
     \<Rightarrow> ('g, 'pid, 'q, 'sw) libp2p_backend \<Rightarrow> ('q \<times> query_id \<times> 'mh) list \<Rightarrow> 'q list \<Rightarrow> bool"
  for M K issued where
  reach_new: "libp2p_backend_new build genesis = Inr s \<Longrightarrow> libp2p_reach M K issued s [] []"
| reach_find: "libp2p_reach M K issued s asked answered \<Longrightarrow> libp2p_start_query M K peer s = Inr (q, s1) \<Longrightarrow>
    libp2p_find_node M K peer s = Inr (i, s') \<Longrightarrow>
    libp2p_reach M K issued s' (asked @ [(q, i, peer)]) answered"
| reach_add: "libp2p_reach M K issued s asked answered \<Longrightarrow> libp2p_add_known_peer M r peer as s = Inr s' \<Longrightarrow>
    libp2p_reach M K issued s' asked answered"
| reach_command: "libp2p_reach M K issued s asked answered \<Longrightarrow> lb_commands s = c # cs \<Longrightarrow>
    handle_cmd K (Some c) (lb_swarm s) = Inr (stop, ans, sw') \<Longrightarrow>
    libp2p_reach M K issued (s\<lparr>lb_swarm := sw', lb_commands := cs\<rparr>) asked answered"
| reach_swarm: "libp2p_reach M K issued s asked answered \<Longrightarrow> issued (lb_swarm s) \<subseteq> issued sw' \<Longrightarrow>
    libp2p_reach M K issued (s\<lparr>lb_swarm := sw'\<rparr>) asked answered"
| reach_poll: "libp2p_reach M K issued s asked answered \<Longrightarrow>
    libp2p_poll_next M completed received s = Inr (out, s') \<Longrightarrow>
    libp2p_reach M K issued s' asked (answered @ reported received)"

definition query_inv ::
  "('mh, 'g, 'pid, 'lid) mh_ops \<Rightarrow> ('sw \<Rightarrow> 'q set) \<Rightarrow> ('g, 'pid, 'q, 'sw) libp2p_backend
     \<Rightarrow> ('q \<times> query_id \<times> 'mh) list \<Rightarrow> 'q list \<Rightarrow> bool" where
  "query_inv M issued s asked answered \<longleftrightarrow>
     distinct (map fst asked) \<and> fst ` set asked \<subseteq> issued (lb_swarm s) \<and>
     set answered \<subseteq> fst ` set asked \<and>
     (\<forall>q. map_of (lb_query_translate s) q =
        (if q \<in> set answered then None else map_option fst (map_of asked q))) \<and>
     map (fst \<circ> snd) asked = map of_nat [0..<length asked] \<and>
     lb_next_query_id s = of_nat (length asked) \<and>
     (\<forall>(q, i, peer) \<in> set asked. \<exists>pid. peer_to_libp2p M peer = Inr pid)"

lemma send_addresses_rest:
  "libp2p_send_addresses M r pid as s = Inr s' \<Longrightarrow>
     lb_swarm s' = lb_swarm s \<and> lb_query_translate s' = lb_query_translate s \<and>
     lb_next_query_id s' = lb_next_query_id s"
  by (induction as arbitrary: s) (fastforce split: sum.splits)+

lemma map_sum_eq_Inr: "map_sum id f x = Inr y \<longleftrightarrow> (\<exists>z. x = Inr z \<and> y = f z)"
  by (cases x) auto

lemma on_event_effect:
  assumes "libp2p_on_event M event s = Inr (out, s')"
  shows "lb_swarm s' = lb_swarm s \<and> lb_next_query_id s' = lb_next_query_id s \<and>
         (\<forall>q. map_of (lb_query_translate s') q =
           (if q \<in> set (reported (Ready (Some event))) then None else map_of (lb_query_translate s) q)) \<and>
         set (reported (Ready (Some event))) \<subseteq> dom (map_of (lb_query_translate s))"
  using assms
  by (cases event) (auto simp: libp2p_on_event_def libp2p_on_closest_def poll_ready_def poll_again_def
      libp2p_on_routable_def note_peer_addresses_def Let_def delete_conv' map_sum_eq_Inr
      split: option.splits sum.splits prod.splits)

lemma query_poll_effect:
  assumes "libp2p_poll_next M completed received s = Inr (out, s')"
  shows "lb_swarm s' = lb_swarm s \<and> lb_next_query_id s' = lb_next_query_id s \<and>
         (\<forall>q. map_of (lb_query_translate s') q =
           (if q \<in> set (reported received) then None else map_of (lb_query_translate s) q)) \<and>
         set (reported received) \<subseteq> dom (map_of (lb_query_translate s))"
proof -
  define s1 where "s1 = (if lb_pending_actions s \<noteq> [] then libp2p_poll_actions completed s else s)"
  have same: "lb_swarm s1 = lb_swarm s" "lb_next_query_id s1 = lb_next_query_id s"
    "lb_query_translate s1 = lb_query_translate s"
    by (auto simp: s1_def libp2p_poll_actions_def split: option.splits)
  show ?thesis
  proof (cases received)
    case (Ready ev)
    then show ?thesis
      using assms same on_event_effect [of M _ s1 out s']
      by (cases ev) (auto simp: libp2p_poll_next_def poll_ready_def simp flip: s1_def)
  next
    case Pending
    then show ?thesis
      using assms same by (auto simp: libp2p_poll_next_def simp flip: s1_def)
  qed
qed

lemma find_node_effect:
  assumes "libp2p_start_query M K peer s = Inr (q, s1)" and "libp2p_find_node M K peer s = Inr (i, s')"
  shows "i = lb_next_query_id s1 \<and> lb_next_query_id s' = lb_next_query_id s1 + 1 \<and>
         lb_swarm s' = lb_swarm s1 \<and>
         lb_query_translate s' = AList.update q i (lb_query_translate s1)"
  using assms by (auto simp: libp2p_find_node_def Let_def)

lemma query_inv_find:
  assumes fresh: "lib_fresh K issued" and inv: "query_inv M issued s asked answered"
    and start: "libp2p_start_query M K peer s = Inr (q, s1)"
    and find: "libp2p_find_node M K peer s = Inr (i, s')"
  shows "query_inv M issued s' (asked @ [(q, i, peer)]) answered"
proof -
  note f = start_query_fresh [OF fresh start] find_node_effect [OF start find]
  from inv f have new: "q \<notin> fst ` set asked" "q \<notin> set answered"
    unfolding query_inv_def by blast+
  then have "map_of asked q = None"
    by (simp add: map_of_eq_None_iff)
  then have "map_of (asked @ [(q, i, peer)]) p = (if p = q then Some (i, peer) else map_of asked p)" for p
    by (auto simp: map_add_def split: option.splits)
  moreover from inv have "lb_next_query_id s = of_nat (length asked)"
    by (simp add: query_inv_def)
  ultimately show ?thesis
    using inv f new unfolding query_inv_def by (auto simp: update_conv' new(2))
qed

lemma reach_query_inv:
  assumes "libp2p_reach M K issued s asked answered" and fresh: "lib_fresh K issued"
  shows "query_inv M issued s asked answered"
  using assms(1)
proof (induction rule: libp2p_reach.induct)
  case (reach_new build genesis s)
  then show ?case
    by (auto simp: libp2p_backend_new_def query_inv_def Let_def split: sum.splits if_splits)
next
  case (reach_find s asked answered peer q s1 i s')
  show ?case
    by (rule query_inv_find [OF fresh reach_find.IH reach_find(2,3)])
next
  case (reach_add s asked answered r peer as s')
  then show ?case
    by (auto simp: libp2p_add_known_peer_def query_inv_def split: sum.splits dest!: send_addresses_rest)
next
  case (reach_command s asked answered c cs stop ans sw')
  then show ?case
    using handle_cmd_issued [OF fresh reach_command(3)] by (auto simp: query_inv_def)
next
  case (reach_swarm s asked answered sw')
  then show ?case by (auto simp: query_inv_def)
next
  case (reach_poll s asked answered completed received out s')
  note e = query_poll_effect [OF reach_poll(2)]
  have "dom (map_of (lb_query_translate s)) \<subseteq> fst ` set asked"
    using reach_poll.IH unfolding query_inv_def
    by (metis (no_types, lifting) domIff map_of_eq_None_iff option.map_disc_iff subsetI)
  with e reach_poll.IH show ?case
    by (auto simp: query_inv_def)
qed

text \<open>
  C12. The unwrap on the table of running queries never fails: in every state the backend
  reaches, when the library finishes a query it was asked for and has not finished before, the
  poll yields the event with exactly the identifier \<open>find_node\<close> returned for it, the peer that
  was asked for, and the peers found in the order the library gave them, after a timeout too.
  Identifiers count up from zero in the order of the calls.
\<close>

theorem libp2p_query_answered:
  assumes laws: "mh_laws M" and fresh: "lib_fresh K issued"
    and reach: "libp2p_reach M K issued s asked answered"
    and "n < length asked" and asked: "asked ! n = (q, i, peer)" and running: "q \<notin> set answered"
    and pid: "peer_to_libp2p M peer = Inr pid"
    and result: "result = ClosestPeersFound (pid_to_bytes M pid) peers \<or>
                 result = ClosestPeersTimeout (pid_to_bytes M pid) peers"
  shows "i = of_nat n \<and>
         (\<exists>found s'. libp2p_poll_next M completed (Ready (Some (ClosestPeersProgressed q result))) s =
            Inr (poll_ready (Some (FindNode i peer found)) s') \<and>
            map (Inr \<circ> fst) found = map (peer_of_libp2p M \<circ> fst) peers)"
proof
  note inv = reach_query_inv [OF reach fresh, unfolded query_inv_def]
  have "(fst \<circ> snd) (asked ! n) = of_nat n"
    using inv \<open>n < length asked\<close> by (metis (no_types, lifting) add_0 diff_zero length_map length_upt nth_map nth_upt)
  with asked show "i = of_nat n" by simp
  have "(q, i, peer) \<in> set asked"
    using \<open>n < length asked\<close> asked nth_mem by fastforce
  then have "map_of asked q = Some (i, peer)"
    using inv by (simp add: map_of_is_SomeI)
  then have known: "map_of (lb_query_translate s) q = Some i"
    using inv running by simp
  have "peer_of_libp2p M pid = Inr peer" and valid: "valid_peer M peer"
    using peer_to_libp2p_cases [OF laws, of peer] pid by (auto split: if_splits)
  then have "mh_from_bytes M (pid_to_bytes M pid) = Inr peer"
    by (cases "mh_from_bytes M (pid_to_bytes M pid)")
      (simp_all add: peer_of_libp2p_def multihash_from_bytes_def expect_ok_def)
  with valid laws have key: "peer_from_bytes M (pid_to_bytes M pid) = Inr peer"
    by (simp add: peer_from_bytes_def multihash_from_bytes_def peer_from_multihash_eq)
  obtain found where "convert_peers (peer_of_libp2p M) (multiaddr_of_libp2p M) peers = Inr found"
    and "map (Inr \<circ> fst) found = map (peer_of_libp2p M \<circ> fst) peers"
    using convert_peers_total [OF laws] by metis
  with known key result show "\<exists>found s'. libp2p_poll_next M completed (Ready (Some (ClosestPeersProgressed q result))) s =
      Inr (poll_ready (Some (FindNode i peer found)) s') \<and>
      map (Inr \<circ> fst) found = map (peer_of_libp2p M \<circ> fst) peers"
    by (auto simp: libp2p_poll_next_def libp2p_on_event_def libp2p_on_closest_def libp2p_poll_actions_def
        poll_ready_def Let_def split: option.splits)
qed

text \<open>A library that counts its queries, for the concrete instances.\<close>

definition counting_kad :: "('g, 'pid, nat, nat) lib_kad_ops" where
  "counting_kad = \<lparr>lk_add_address = (\<lambda>p a n. n), lk_get_closest_peers = (\<lambda>p n. (n, Suc n))\<rparr>"

lemma counting_kad_fresh: "lib_fresh counting_kad (\<lambda>n. {0..<n})"
  by (auto simp: lib_fresh_def counting_kad_def)

abbreviation sample_peer :: sample_mh where
  "sample_peer \<equiv> Abs_sample_mh (0, [])"

lemma sample_peer_pid: "peer_to_libp2p sample_ops sample_peer = Inr (Abs_sample_pid sample_peer)"
  by (simp add: peer_to_libp2p_def peer_to_bytes_def sample_ops_def sample_pid_decode_def
      sample_decode_encode sample_to_pid_def Abs_sample_mh_inverse peer_shape_def expect_ok_def)

theorem libp2p_query_answered_witness:
  "\<exists>s found s'. libp2p_find_node sample_ops counting_kad sample_peer s = Inr (0, s') \<and>
     (\<exists>s''. libp2p_poll_next sample_ops None (Ready (Some (ClosestPeersProgressed (0 :: nat)
        (ClosestPeersTimeout (pid_to_bytes sample_ops (Abs_sample_pid sample_peer)) [])))) s' =
      Inr (poll_ready (Some (FindNode 0 sample_peer found)) s''))"
proof -
  let ?new = "\<lparr>lb_swarm = 0, lb_commands = [], lb_query_translate = [], lb_peer_addresses = [],
    lb_next_query_id = 0, lb_pending_actions = []\<rparr> :: (sample_mh, sample_pid, nat, nat) libp2p_backend"
  let ?asked = "?new\<lparr>lb_swarm := 1, lb_next_query_id := 1, lb_query_translate := [(0, 0)]\<rparr>"
  have start: "libp2p_start_query sample_ops counting_kad sample_peer ?new = Inr (0, ?new\<lparr>lb_swarm := 1\<rparr>)"
    by (simp add: libp2p_start_query_def sample_peer_pid counting_kad_def handle_cmd_def)
  then have find: "libp2p_find_node sample_ops counting_kad sample_peer ?new = Inr (0, ?asked)"
    by (simp add: libp2p_find_node_def)
  have "libp2p_reach sample_ops counting_kad (\<lambda>n. {0..<n}) ?new [] []"
    by (rule reach_new [of "\<lambda>_. Inr 0" "[]"]) (simp add: libp2p_backend_new_def built_def)
  then have "libp2p_reach sample_ops counting_kad (\<lambda>n. {0..<n}) ?asked ([] @ [(0, 0, sample_peer)]) []"
    using start find by (rule reach_find)
  then have "\<exists>found s'. libp2p_poll_next sample_ops None (Ready (Some (ClosestPeersProgressed 0
        (ClosestPeersTimeout (pid_to_bytes sample_ops (Abs_sample_pid sample_peer)) [])))) ?asked =
      Inr (poll_ready (Some (FindNode 0 sample_peer found)) s')"
    using libp2p_query_answered [OF sample_laws counting_kad_fresh, of ?asked "[(0, 0, sample_peer)]" "[]" 0 0 0
        sample_peer "Abs_sample_pid sample_peer" "ClosestPeersTimeout _ []" "[]" None] sample_peer_pid by auto
  with find show ?thesis by blast
qed

section \<open>The contract\<close>

lemma find_node_counts:
  "libp2p_find_node M K peer s = Inr (i, s') \<Longrightarrow>
     i = lb_next_query_id s \<and> lb_next_query_id s' = lb_next_query_id s + 1"
  by (auto simp: libp2p_find_node_def libp2p_start_query_def Let_def split: sum.splits prod.splits if_splits)

lemma issue_counts:
  "issue (libp2p_find_node M K) ps s = Inr (ids, s') \<Longrightarrow>
     ids = map (\<lambda>n. lb_next_query_id s + of_nat n) [0..<length ps]"
proof (induction ps arbitrary: s ids)
  case (Cons p ps)
  then obtain i s1 ids1 where f: "libp2p_find_node M K p s = Inr (i, s1)"
    and "issue (libp2p_find_node M K) ps s1 = Inr (ids1, s')" and ids: "ids = i # ids1"
    by (auto simp: issue_Cons simp del: issue.simps(2))
  then have "ids1 = map (\<lambda>n. lb_next_query_id s1 + of_nat n) [0..<length ps]"
    using Cons.IH by blast
  with ids find_node_counts [OF f] show ?case
    by (simp add: map_upt_Suc add.assoc del: upt_Suc)
qed simp

lemma consecutive_distinct:
  "n \<le> 2 ^ 64 \<Longrightarrow> distinct (map (\<lambda>k. (w :: u64) + of_nat k) [0..<n])"
  by (auto simp: distinct_map inj_on_def of_nat_eq_iff word_of_nat_eq_iff take_bit_nat_eq_self)

interpretation lib_queries: query_issuer "libp2p_find_node M K" "\<lambda>_. True"
proof
  fix ps s ids s'
  assume "length ps \<le> 2 ^ 64" and "issue (libp2p_find_node M K) ps s = Inr (ids, s')"
  then show "distinct ids"
    using issue_counts consecutive_distinct by blast
qed simp

section \<open>Waiting for the next event\<close>

text \<open>
  The stream is polled until it yields: on what each poll finds, with the time of the poll.
  \<open>None\<close> is a wait that does not end.
\<close>

type_synonym ('g, 'pid, 'q) lib_input = "nat option \<times> ('g, 'pid, 'q) lib_event option poll \<times> nat"

fun libp2p_next ::
  "('mh, 'g, 'pid, 'lid) mh_ops \<Rightarrow> ('g, 'pid, 'q) lib_input list \<Rightarrow> ('g, 'pid, 'q, 'sw) libp2p_backend
     \<Rightarrow> (panic + 'mh network_event option \<times> ('g, 'pid, 'q) lib_input list \<times> nat \<times>
           ('g, 'pid, 'q, 'sw) libp2p_backend) option" where
  "libp2p_next M [] s = None"
| "libp2p_next M ((completed, received, time) # ins) s =
     (case libp2p_poll_next M completed received s of
        Inl e \<Rightarrow> Some (Inl e)
      | Inr (out, s') \<Rightarrow>
          (case poll_result out of
             Ready ev \<Rightarrow> Some (Inr (ev, ins, time, s'))
           | Pending \<Rightarrow> libp2p_next M ins s'))"

end
