(* ===== verification/Litep2p_Backend.thy ===== *)
theory Litep2p_Backend
  imports Libp2p_Backend
begin

text \<open>
  The \<open>litep2p\<close> network backend (\<open>subp2p-explorer-core/src/litep2p.rs\<close>). It drives the
  Kademlia handle itself and sends addresses to a background task that owns the rest of the
  library. What its three event streams yield to a poll are arguments of the poll.
\<close>

section \<open>State and commands\<close>

datatype 'mh lite_command =
    LiteAddKnownAddress 'mh "'mh core_multiaddr list"
  | LiteListenAddresses

record ('mh, 'lid, 'l, 'kad) litep2p_backend =
  lt_library :: 'l
  lt_kad_handle :: 'kad
  lt_commands :: "'mh lite_command list"
  lt_pending_actions :: "('lid \<times> 'mh core_multiaddr list) list"

record ('mh, 'lid, 'l, 'kad) lite_ops =
  lite_add_known_address :: "'lid \<Rightarrow> 'mh core_multiaddr list \<Rightarrow> 'l \<Rightarrow> 'l"
  lite_listen_addresses :: "'l \<Rightarrow> 'mh core_multiaddr list"
  kad_find_node :: "'lid \<Rightarrow> 'kad \<Rightarrow> query_id \<times> 'kad"
  kad_add_known_peer :: "'lid \<Rightarrow> 'mh core_multiaddr list \<Rightarrow> 'kad \<Rightarrow> 'kad"

text \<open>
  What the library is configured with. The name of the Kademlia protocol holds the genesis hash
  as it was given; \<open>parse\<close> is the parser of addresses and \<open>build\<close> the library's constructor,
  which also gives the handle of Kademlia.
\<close>

record 'mh lite_settings =
  ls_protocol_names :: "string list"
  ls_manual_updates :: bool
  ls_identify :: identify_settings
  ls_ping :: bool
  ls_listen_addresses :: "'mh core_multiaddr list"
  ls_reuse_port :: bool
  ls_nodelay :: bool
  ls_websocket :: bool

definition lite_settings_of :: "string \<Rightarrow> 'mh core_multiaddr \<Rightarrow> 'mh lite_settings" where
  "lite_settings_of genesis_hash listen =
     \<lparr>ls_protocol_names = [''/'' @ genesis_hash @ ''/kad''], ls_manual_updates = True,
      ls_identify = \<lparr>is_protocol_version = ''subp2p-explorer-0.1'',
        is_agent_version = Some ''subp2p-explorer'', is_cache_size = None\<rparr>,
      ls_ping = True, ls_listen_addresses = [listen], ls_reuse_port = True, ls_nodelay = True,
      ls_websocket = True\<rparr>"

definition litep2p_backend_new ::
  "(string \<Rightarrow> 'mh core_multiaddr option) \<Rightarrow> ('mh lite_settings \<Rightarrow> ('l \<times> 'kad) option) \<Rightarrow> string
     \<Rightarrow> panic + ('mh, 'lid, 'l, 'kad) litep2p_backend" where
  "litep2p_backend_new parse build genesis_hash =
     (case parse ''/ip6/::/tcp/0'' of
        None \<Rightarrow> Inl (UnwrapNone ''valid address'')
      | Some listen \<Rightarrow>
          (case build (lite_settings_of genesis_hash listen) of
             None \<Rightarrow> Inl (UnwrapNone ''Litep2p'')
           | Some (l, kad) \<Rightarrow>
               Inr \<lparr>lt_library = l, lt_kad_handle = kad, lt_commands = [], lt_pending_actions = []\<rparr>))"

section \<open>The background task\<close>

text \<open>One command: its answer and the library. The task ends when the channel is closed.\<close>

definition lite_handle_command ::
  "('mh, 'g, 'pid, 'lid) mh_ops \<Rightarrow> ('mh, 'lid, 'l, 'kad) lite_ops \<Rightarrow> 'mh lite_command option \<Rightarrow> 'l
     \<Rightarrow> panic + bool \<times> 'mh core_multiaddr list option \<times> 'l" where
  "lite_handle_command M L cmd l =
     (case cmd of
        Some (LiteAddKnownAddress peer address) \<Rightarrow>
          map_sum id (\<lambda>lid. (False, None, lite_add_known_address L lid address l)) (peer_to_litep2p M peer)
      | Some LiteListenAddresses \<Rightarrow> Inr (False, Some (lite_listen_addresses L l), l)
      | None \<Rightarrow> Inr (True, None, l))"

fun lite_background ::
  "('mh, 'g, 'pid, 'lid) mh_ops \<Rightarrow> ('mh, 'lid, 'l, 'kad) lite_ops \<Rightarrow> 'mh lite_command list \<Rightarrow> 'l
     \<Rightarrow> panic + 'mh core_multiaddr list list \<times> 'l" where
  "lite_background M L [] l = Inr ([], l)"
| "lite_background M L (c # cs) l =
     (case lite_handle_command M L (Some c) l of
        Inl e \<Rightarrow> Inl e
      | Inr (_, answer, l') \<Rightarrow>
          (case lite_background M L cs l' of
             Inl e \<Rightarrow> Inl e
           | Inr (answers, l'') \<Rightarrow>
               Inr ((case answer of None \<Rightarrow> answers | Some a \<Rightarrow> a # answers), l'')))"

section \<open>Operations\<close>

definition litep2p_find_node ::
  "('mh, 'g, 'pid, 'lid) mh_ops \<Rightarrow> ('mh, 'lid, 'l, 'kad) lite_ops \<Rightarrow> 'mh
     \<Rightarrow> ('mh, 'lid, 'l, 'kad) litep2p_backend
     \<Rightarrow> panic + query_id \<times> ('mh, 'lid, 'l, 'kad) litep2p_backend" where
  "litep2p_find_node M L peer s =
     (case peer_to_litep2p M peer of
        Inl e \<Rightarrow> Inl e
      | Inr lid \<Rightarrow>
          (case kad_find_node L lid (lt_kad_handle s) of (q, kad) \<Rightarrow>
             Inr (q, s\<lparr>lt_kad_handle := kad\<rparr>)))"

definition litep2p_add_known_peer ::
  "('mh, 'g, 'pid, 'lid) mh_ops \<Rightarrow> ('mh, 'lid, 'l, 'kad) lite_ops \<Rightarrow> 'mh \<Rightarrow> 'mh core_multiaddr list
     \<Rightarrow> ('mh, 'lid, 'l, 'kad) litep2p_backend \<Rightarrow> panic + ('mh, 'lid, 'l, 'kad) litep2p_backend" where
  "litep2p_add_known_peer M L peer address s =
     (let s1 = s\<lparr>lt_commands := lt_commands s @ [LiteAddKnownAddress peer address]\<rparr>
      in case peer_to_litep2p M peer of
           Inl e \<Rightarrow> Inl e
         | Inr lid \<Rightarrow>
             Inr (s1\<lparr>lt_kad_handle := kad_add_known_peer L lid address (lt_kad_handle s1)\<rparr>))"

text \<open>The request is queued behind the commands already sent, and its answer is the last one.\<close>

definition litep2p_listen_addresses ::
  "('mh, 'g, 'pid, 'lid) mh_ops \<Rightarrow> ('mh, 'lid, 'l, 'kad) lite_ops
     \<Rightarrow> ('mh, 'lid, 'l, 'kad) litep2p_backend
     \<Rightarrow> panic + 'mh core_multiaddr list \<times> ('mh, 'lid, 'l, 'kad) litep2p_backend" where
  "litep2p_listen_addresses M L s =
     (case lite_background M L (lt_commands s @ [LiteListenAddresses]) (lt_library s) of
        Inl e \<Rightarrow> Inl e
      | Inr (answers, l) \<Rightarrow> Inr (last answers, s\<lparr>lt_commands := [], lt_library := l\<rparr>))"

section \<open>Polling\<close>

datatype ('mh, 'lid) lite_identify_event =
    LitePeerIdentified 'lid "string option" "string option" "string list"
      "'mh core_multiaddr" "'mh core_multiaddr list"

datatype ('mh, 'lid) lite_kad_event =
    FindNodeSuccess query_id 'lid "('lid \<times> 'mh core_multiaddr list) list"
  | RoutingTableUpdate
  | QueryFailed query_id
  | OtherLiteKadEvent

text \<open>Polling the pending actions completes at most one, which sends its command.\<close>

definition litep2p_poll_actions ::
  "('mh, 'g, 'pid, 'lid) mh_ops \<Rightarrow> nat option \<Rightarrow> ('mh, 'lid, 'l, 'kad) litep2p_backend
     \<Rightarrow> panic + ('mh, 'lid, 'l, 'kad) litep2p_backend" where
  "litep2p_poll_actions M completed s =
     (case completed of
        None \<Rightarrow> Inr s
      | Some n \<Rightarrow>
          if n < length (lt_pending_actions s)
          then (case lt_pending_actions s ! n of (lid, address) \<Rightarrow>
                  map_sum id (\<lambda>peer.
                    s\<lparr>lt_commands := lt_commands s @ [LiteAddKnownAddress peer address],
                      lt_pending_actions :=
                        take n (lt_pending_actions s) @ drop (Suc n) (lt_pending_actions s)\<rparr>)
                    (peer_of_litep2p M lid))
          else Inr s)"

definition litep2p_on_identified ::
  "('mh, 'g, 'pid, 'lid) mh_ops \<Rightarrow> ('mh, 'lid) lite_identify_event \<Rightarrow> ('mh, 'lid, 'l, 'kad) litep2p_backend
     \<Rightarrow> panic + 'mh network_event polled \<times> ('mh, 'lid, 'l, 'kad) litep2p_backend" where
  "litep2p_on_identified M event s =
     (case event of
        LitePeerIdentified peer version agent protocols observed listen \<Rightarrow>
          (let s1 = s\<lparr>lt_pending_actions := lt_pending_actions s @ [(peer, listen)]\<rparr>
           in map_sum id (\<lambda>ev. poll_ready (Some ev) s1)
                (identified_event (peer_of_litep2p M) Inr peer version agent protocols observed listen)))"

text \<open>The events of the Kademlia handle; \<open>waits\<close> are the streams already polled in vain.\<close>

definition litep2p_on_kad ::
  "('mh, 'g, 'pid, 'lid) mh_ops \<Rightarrow> ('mh, 'lid) lite_kad_event \<Rightarrow> poll_source list
     \<Rightarrow> ('mh, 'lid, 'l, 'kad) litep2p_backend
     \<Rightarrow> panic + 'mh network_event polled \<times> ('mh, 'lid, 'l, 'kad) litep2p_backend" where
  "litep2p_on_kad M event waits s =
     (case event of
        FindNodeSuccess q target peers \<Rightarrow>
          (case peer_of_litep2p M target of
             Inl e \<Rightarrow> Inl e
           | Inr t \<Rightarrow>
               map_sum id (\<lambda>found. poll_ready (Some (FindNode q t found)) s)
                 (convert_peers (peer_of_litep2p M) Inr peers))
      | RoutingTableUpdate \<Rightarrow> Inr (\<lparr>poll_result = Pending, poll_woke = False, poll_waits = waits\<rparr>, s)
      | QueryFailed q \<Rightarrow> Inr (\<lparr>poll_result = Pending, poll_woke = False, poll_waits = waits\<rparr>, s)
      | OtherLiteKadEvent \<Rightarrow> Inr (\<lparr>poll_result = Pending, poll_woke = True, poll_waits = waits\<rparr>, s))"

text \<open>
  A poll. The stream of pings is polled and its event dropped; a stream that has ended falls
  through like one that is not ready, but wakes nobody.
\<close>

definition litep2p_poll_next ::
  "('mh, 'g, 'pid, 'lid) mh_ops \<Rightarrow> nat option \<Rightarrow> ('mh, 'lid) lite_identify_event option poll
     \<Rightarrow> ('mh, 'lid) lite_kad_event option poll \<Rightarrow> ('mh, 'lid, 'l, 'kad) litep2p_backend
     \<Rightarrow> panic + 'mh network_event polled \<times> ('mh, 'lid, 'l, 'kad) litep2p_backend" where
  "litep2p_poll_next M completed identify kad s =
     (case (if lt_pending_actions s \<noteq> [] then litep2p_poll_actions M completed s else Inr s) of
        Inl e \<Rightarrow> Inl e
      | Inr s1 \<Rightarrow>
          (case identify of
             Ready (Some event) \<Rightarrow> litep2p_on_identified M event s1
           | _ \<Rightarrow>
               (let waits = (if identify = Pending then [IdentifyStream] else [])
                in case kad of
                     Ready (Some event) \<Rightarrow> litep2p_on_kad M event waits s1
                   | _ \<Rightarrow>
                       Inr (\<lparr>poll_result = Pending, poll_woke = False,
                             poll_waits = waits @ (if kad = Pending then [KademliaStream] else [])\<rparr>, s1))))"

section \<open>Wake-ups\<close>

text \<open>
  A poll that is not ready may rest when it has woken its own task, or when every source of
  events it consumes keeps the waker.
\<close>

definition may_rest :: "poll_source list \<Rightarrow> 'e polled \<Rightarrow> bool" where
  "may_rest sources out \<longleftrightarrow>
     (case poll_result out of
        Ready _ \<Rightarrow> True
      | Pending \<Rightarrow> poll_woke out \<or> set sources \<subseteq> set (poll_waits out))"

lemma libp2p_may_rest:
  assumes "libp2p_poll_next M completed received s = Inr (out, s')"
  shows "may_rest [EventChannel] out"
proof -
  have "may_rest [EventChannel] out" if "libp2p_on_event M event t = Inr (out, s')" for event t
    using that by (cases event) (auto simp: libp2p_on_event_def libp2p_on_closest_def poll_ready_def
        poll_again_def may_rest_def Let_def map_sum_eq_Inr split: option.splits sum.splits prod.splits)
  then show ?thesis
    using assms by (auto simp: libp2p_poll_next_def poll_ready_def may_rest_def Let_def
        split: poll.splits option.splits)
qed

lemma litep2p_kad_rest:
  assumes "litep2p_on_kad M event [IdentifyStream] s = Inr (out, s')"
  shows "may_rest [IdentifyStream, KademliaStream] out \<longleftrightarrow>
           \<not> (event = RoutingTableUpdate \<or> (\<exists>q. event = QueryFailed q))"
  using assms by (cases event) (auto simp: litep2p_on_kad_def poll_ready_def may_rest_def map_sum_eq_Inr
      split: sum.splits)

lemma litep2p_identified_rest:
  "litep2p_on_identified M event s = Inr (out, s') \<Longrightarrow> may_rest sources out"
  by (cases event) (auto simp: litep2p_on_identified_def poll_ready_def may_rest_def map_sum_eq_Inr Let_def)

lemma litep2p_may_rest:
  assumes "litep2p_poll_next M completed identify kad s = Inr (out, s')"
    and "identify \<noteq> Ready None" and "kad \<noteq> Ready None"
  shows "may_rest [IdentifyStream, KademliaStream] out \<longleftrightarrow>
           \<not> (identify = Pending \<and>
               (kad = Ready (Some RoutingTableUpdate) \<or> (\<exists>q. kad = Ready (Some (QueryFailed q)))))"
proof (cases identify)
  case (Ready ev)
  then show ?thesis
    using assms litep2p_identified_rest
    by (auto simp: litep2p_poll_next_def split: sum.splits option.splits)
next
  case Pending
  show ?thesis
  proof (cases kad)
    case (Ready ev)
    then show ?thesis
      using assms Pending
      by (auto simp: litep2p_poll_next_def split: sum.splits option.splits dest!: litep2p_kad_rest)
  next
    case Pending
    then show ?thesis
      using assms \<open>identify = Pending\<close>
      by (auto simp: litep2p_poll_next_def may_rest_def split: sum.splits)
  qed
qed

text \<open>
  C32. A poll of the \<open>libp2p\<close> backend that yields nothing always leaves a wake-up behind. A poll
  of the \<open>litep2p\<close> backend whose streams are open does too, except after a routing-table update
  or a failed query: then it rests without a waker on the Kademlia stream, and events already
  waiting there are not delivered until another stream wakes the task. A failed query is
  never reported to the caller.
\<close>

theorem polls_leave_a_wakeup:
  assumes "libp2p_poll_next M completed received s = Inr (out, s')"
    and "litep2p_poll_next M completed' identify kad t = Inr (out', t')"
    and "identify \<noteq> Ready None" and "kad \<noteq> Ready None"
  shows "may_rest [EventChannel] out \<and>
         (may_rest [IdentifyStream, KademliaStream] out' \<longleftrightarrow>
            \<not> (identify = Pending \<and>
                (kad = Ready (Some RoutingTableUpdate) \<or> (\<exists>q. kad = Ready (Some (QueryFailed q))))))"
  using libp2p_may_rest [OF assms(1)] litep2p_may_rest [OF assms(2-4)] by (rule conjI)

theorem polls_leave_a_wakeup_witness:
  "\<exists>out. litep2p_poll_next sample_ops None Pending (Ready (Some (QueryFailed 7)))
      \<lparr>lt_library = (), lt_kad_handle = (), lt_commands = [], lt_pending_actions = []\<rparr> =
      Inr (out, \<lparr>lt_library = (), lt_kad_handle = (), lt_commands = [], lt_pending_actions = []\<rparr>) \<and>
    \<not> may_rest [IdentifyStream, KademliaStream] out"
proof -
  let ?s = "\<lparr>lb_swarm = 0, lb_commands = [], lb_query_translate = [], lb_peer_addresses = [],
    lb_next_query_id = 0, lb_pending_actions = []\<rparr> :: (sample_mh, sample_pid, nat, nat) libp2p_backend"
  let ?t = "\<lparr>lt_library = (), lt_kad_handle = (), lt_commands = [], lt_pending_actions = []\<rparr>
    :: (sample_mh, sample_pid, unit, unit) litep2p_backend"
  have lib: "libp2p_poll_next sample_ops None (Ready (Some OtherLibEvent)) ?s = Inr (poll_again ?s)"
    by (simp add: libp2p_poll_next_def libp2p_on_event_def)
  have lite: "litep2p_poll_next sample_ops None Pending (Ready (Some (QueryFailed 7))) ?t =
      Inr (\<lparr>poll_result = Pending, poll_woke = False, poll_waits = [IdentifyStream]\<rparr>, ?t)"
    by (simp add: litep2p_poll_next_def litep2p_on_kad_def)
  show ?thesis
    using polls_leave_a_wakeup [OF lib [unfolded poll_again_def] lite] lite by auto
qed

section \<open>The contract\<close>

text \<open>The library's identifiers differ over any run of requests.\<close>

fun kad_issue :: "('mh, 'lid, 'l, 'kad) lite_ops \<Rightarrow> 'lid list \<Rightarrow> 'kad \<Rightarrow> query_id list" where
  "kad_issue L [] kad = []"
| "kad_issue L (p # ps) kad = (case kad_find_node L p kad of (q, kad') \<Rightarrow> q # kad_issue L ps kad')"

definition lite_distinct :: "('mh, 'lid, 'l, 'kad) lite_ops \<Rightarrow> bool" where
  "lite_distinct L \<longleftrightarrow> (\<forall>ps kad. length ps \<le> 2 ^ 64 \<longrightarrow> distinct (kad_issue L ps kad))"

lemma issue_litep2p:
  "issue (litep2p_find_node M L) ps s = Inr (ids, s') \<Longrightarrow>
     \<exists>lids. length lids = length ps \<and> ids = kad_issue L lids (lt_kad_handle s)"
proof (induction ps arbitrary: s ids)
  case (Cons p ps)
  then obtain q s1 ids1 where "litep2p_find_node M L p s = Inr (q, s1)"
    and rest: "issue (litep2p_find_node M L) ps s1 = Inr (ids1, s')" and ids: "ids = q # ids1"
    by (auto simp: issue_Cons simp del: issue.simps(2))
  then obtain lid kad where step: "peer_to_litep2p M p = Inr lid"
    "kad_find_node L lid (lt_kad_handle s) = (q, kad)" "s1 = s\<lparr>lt_kad_handle := kad\<rparr>"
    by (auto simp: litep2p_find_node_def split: sum.splits prod.splits)
  from Cons.IH [OF rest] obtain lids where "length lids = length ps"
    "ids1 = kad_issue L lids (lt_kad_handle s1)"
    by blast
  with step ids show ?case
    by (intro exI [of _ "lid # lids"]) simp
qed simp

interpretation lite_queries: query_issuer "litep2p_find_node M L" "\<lambda>_. lite_distinct L"
proof
  fix b ps ids b'
  assume "lite_distinct L" and "length ps \<le> 2 ^ 64" and "issue (litep2p_find_node M L) ps b = Inr (ids, b')"
  then show "distinct ids"
    using issue_litep2p unfolding lite_distinct_def by metis
qed simp

section \<open>Waiting for the next event\<close>

type_synonym ('mh, 'lid) lite_input =
  "nat option \<times> ('mh, 'lid) lite_identify_event option poll \<times> ('mh, 'lid) lite_kad_event option poll \<times> nat"

fun litep2p_next ::
  "('mh, 'g, 'pid, 'lid) mh_ops \<Rightarrow> ('mh, 'lid) lite_input list \<Rightarrow> ('mh, 'lid, 'l, 'kad) litep2p_backend
     \<Rightarrow> (panic + 'mh network_event option \<times> ('mh, 'lid) lite_input list \<times> nat \<times>
           ('mh, 'lid, 'l, 'kad) litep2p_backend) option" where
  "litep2p_next M [] s = None"
| "litep2p_next M ((completed, identify, kad, time) # ins) s =
     (case litep2p_poll_next M completed identify kad s of
        Inl e \<Rightarrow> Some (Inl e)
      | Inr (out, s') \<Rightarrow>
          (case poll_result out of
             Ready ev \<Rightarrow> Some (Inr (ev, ins, time, s'))
           | Pending \<Rightarrow> litep2p_next M ins s'))"

end
