(* ===== verification/Bench_Discovery.thy ===== *)
theory Bench_Discovery
  imports Litep2p_Backend
begin

text \<open>
  The benchmark program (\<open>bench-cli/src\<close>): the discovery loop over any backend
  (\<open>discovery_backends.rs\<close>), the data set of peers to ask for, and the local network of
  connected backends (\<open>discovery_local.rs\<close>). The operations of a backend are those of the
  \<open>NetworkBackend\<close> trait; time is a natural number of nanoseconds, random peers are a
  sequence.
\<close>

section \<open>Backends as the loop sees them\<close>

text \<open>\<open>None\<close> as the next event is a wait that does not end.\<close>

record ('mh, 'b) backend_ops =
  bk_find_node :: "'mh \<Rightarrow> 'b \<Rightarrow> panic + query_id \<times> 'b"
  bk_add_known_peer :: "'mh \<Rightarrow> 'mh core_multiaddr list \<Rightarrow> 'b \<Rightarrow> panic + 'b"
  bk_next :: "'b \<Rightarrow> (panic + 'mh network_event option \<times> 'b) option"
  bk_now :: "'b \<Rightarrow> nat"

text \<open>The two backends, each with what its polls will find and the time.\<close>

type_synonym ('g, 'pid, 'q, 'sw) libp2p_run =
  "('g, 'pid, 'q) lib_input list \<times> nat \<times> ('g, 'pid, 'q, 'sw) libp2p_backend"

type_synonym ('mh, 'lid, 'l, 'kad) litep2p_run =
  "('mh, 'lid) lite_input list \<times> nat \<times> ('mh, 'lid, 'l, 'kad) litep2p_backend"

definition with_backend ::
  "('s \<Rightarrow> panic + 'a \<times> 's) \<Rightarrow> 'i \<times> nat \<times> 's \<Rightarrow> panic + 'a \<times> ('i \<times> nat \<times> 's)" where
  "with_backend f b =
     (case b of (ins, time, s) \<Rightarrow> map_sum id (\<lambda>(x, s'). (x, (ins, time, s'))) (f s))"

definition libp2p_ops ::
  "('mh, 'g, 'pid, 'lid) mh_ops \<Rightarrow> ('g, 'pid, 'q, 'sw) lib_kad_ops \<Rightarrow> 'pid
     \<Rightarrow> ('mh, ('g, 'pid, 'q, 'sw) libp2p_run) backend_ops" where
  "libp2p_ops M K r =
     \<lparr>bk_find_node = (\<lambda>p. with_backend (libp2p_find_node M K p)),
      bk_add_known_peer = (\<lambda>p as b.
        map_sum id snd (with_backend (\<lambda>s. map_sum id (Pair ()) (libp2p_add_known_peer M r p as s)) b)),
      bk_next = (\<lambda>(ins, time, s). libp2p_next M ins s),
      bk_now = (\<lambda>(ins, time, s). time)\<rparr>"

definition litep2p_ops ::
  "('mh, 'g, 'pid, 'lid) mh_ops \<Rightarrow> ('mh, 'lid, 'l, 'kad) lite_ops
     \<Rightarrow> ('mh, ('mh, 'lid, 'l, 'kad) litep2p_run) backend_ops" where
  "litep2p_ops M L =
     \<lparr>bk_find_node = (\<lambda>p. with_backend (litep2p_find_node M L p)),
      bk_add_known_peer = (\<lambda>p as b.
        map_sum id snd (with_backend (\<lambda>s. map_sum id (Pair ()) (litep2p_add_known_peer M L p as s)) b)),
      bk_next = (\<lambda>(ins, time, s). litep2p_next M ins s),
      bk_now = (\<lambda>(ins, time, s). time)\<rparr>"

section \<open>The discovery loop\<close>

text \<open>
  The counter of queries is an \<open>i32\<close> (the type of an integer literal by default), kept here as
  its 32 bits: \<open>sint\<close> reads it. Adding to it wraps as in a release build; a debug build would
  panic after 2147483647 queries. Only the log prints it.
\<close>

record ('mh, 'b) bench_discovery =
  bd_backend :: 'b
  bd_peer_iter :: "'mh list"
  bd_randoms :: nat
  bd_peers_data :: "('mh, 'mh core_multiaddr hash_set) hash_map"
  bd_queries :: "(query_id, nat) hash_map"
  bd_query_times :: "nat list"
  bd_num_queries :: i32

definition bd_query ::
  "('mh, 'b) backend_ops \<Rightarrow> 'mh \<Rightarrow> ('mh, 'b) bench_discovery \<Rightarrow> panic + ('mh, 'b) bench_discovery" where
  "bd_query B peer s =
     (case bk_find_node B peer (bd_backend s) of
        Inl e \<Rightarrow> Inl e
      | Inr (query_id, b) \<Rightarrow>
          Inr (s\<lparr>bd_backend := b, bd_queries := AList.update query_id (bk_now B b) (bd_queries s),
                 bd_num_queries := bd_num_queries s + 1\<rparr>))"

definition bd_add_known ::
  "('mh, 'b) backend_ops \<Rightarrow> 'mh \<Rightarrow> 'mh core_multiaddr list \<Rightarrow> ('mh, 'b) bench_discovery
     \<Rightarrow> panic + ('mh, 'b) bench_discovery" where
  "bd_add_known B peer addrs s =
     map_sum id (\<lambda>b. s\<lparr>bd_backend := b\<rparr>) (bk_add_known_peer B peer addrs (bd_backend s))"

fun bd_bootnodes ::
  "('mh, 'b) backend_ops \<Rightarrow> ('mh \<times> 'mh core_multiaddr) list \<Rightarrow> ('mh, 'b) bench_discovery
     \<Rightarrow> panic + ('mh, 'b) bench_discovery" where
  "bd_bootnodes B [] s = Inr s"
| "bd_bootnodes B ((peer, address) # rest) s =
     (case bd_add_known B peer [address] s of Inl e \<Rightarrow> Inl e | Inr s' \<Rightarrow> bd_bootnodes B rest s')"

text \<open>The first queries take their peers from the data set, and panic when it runs out.\<close>

fun bd_prime ::
  "('mh, 'b) backend_ops \<Rightarrow> nat \<Rightarrow> ('mh, 'b) bench_discovery \<Rightarrow> panic + ('mh, 'b) bench_discovery" where
  "bd_prime B 0 s = Inr s"
| "bd_prime B (Suc n) s =
     (case bd_peer_iter s of
        [] \<Rightarrow> Inl (UnwrapNone ''peer_iter'')
      | peer # rest \<Rightarrow>
          (case bd_query B peer (s\<lparr>bd_peer_iter := rest\<rparr>) of Inl e \<Rightarrow> Inl e | Inr s' \<Rightarrow> bd_prime B n s'))"

definition bd_note ::
  "'mh \<Rightarrow> 'mh core_multiaddr list \<Rightarrow> ('mh, 'b) bench_discovery \<Rightarrow> ('mh, 'b) bench_discovery" where
  "bd_note peer addrs s =
     s\<lparr>bd_peers_data :=
        map_entry peer (\<lambda>known. set_extend known addrs) (set_extend [] addrs) (bd_peers_data s)\<rparr>"

fun bd_found ::
  "('mh, 'b) backend_ops \<Rightarrow> ('mh \<times> 'mh core_multiaddr list) list \<Rightarrow> ('mh, 'b) bench_discovery
     \<Rightarrow> panic + ('mh, 'b) bench_discovery" where
  "bd_found B [] s = Inr s"
| "bd_found B ((peer, addrs) # rest) s =
     (case bd_add_known B peer addrs s of
        Inl e \<Rightarrow> Inl e
      | Inr s' \<Rightarrow> bd_found B rest (bd_note peer addrs s'))"

definition bd_handle ::
  "('mh, 'b) backend_ops \<Rightarrow> 'mh network_event \<Rightarrow> ('mh, 'b) bench_discovery
     \<Rightarrow> panic + ('mh, 'b) bench_discovery" where
  "bd_handle B event s =
     (case event of
        PeerIdentified peer version agent protocols observed listen \<Rightarrow>
          bd_add_known B peer listen (bd_note peer listen s)
      | FindNode query_id target peers \<Rightarrow>
          (let s1 = (case map_of (bd_queries s) query_id of
                       Some started \<Rightarrow>
                         s\<lparr>bd_queries := map_remove query_id (bd_queries s),
                           bd_query_times := bd_query_times s @ [bk_now B (bd_backend s) - started]\<rparr>
                     | None \<Rightarrow> s)
           in bd_found B peers s1))"

text \<open>\<open>peer_iter.next().unwrap_or_else(PeerId::random)\<close>.\<close>

definition bd_next_target ::
  "(nat \<Rightarrow> 'mh) \<Rightarrow> ('mh, 'b) bench_discovery \<Rightarrow> 'mh \<times> ('mh, 'b) bench_discovery" where
  "bd_next_target random s =
     (case bd_peer_iter s of
        peer # rest \<Rightarrow> (peer, s\<lparr>bd_peer_iter := rest\<rparr>)
      | [] \<Rightarrow> (random (bd_randoms s), s\<lparr>bd_randoms := Suc (bd_randoms s)\<rparr>))"

definition MAX_BENCH_QUERIES :: nat where
  "MAX_BENCH_QUERIES = 50"

partial_function (option) bd_fill ::
  "('mh, 'b) backend_ops \<Rightarrow> (nat \<Rightarrow> 'mh) \<Rightarrow> ('mh, 'b) bench_discovery
     \<Rightarrow> (panic + ('mh, 'b) bench_discovery) option" where
  "bd_fill B random s =
     (if length (bd_queries s) < MAX_BENCH_QUERIES
      then (case bd_next_target random s of (peer, s1) \<Rightarrow>
             (case bd_query B peer s1 of
                Inl e \<Rightarrow> Some (Inl e)
              | Inr s2 \<Rightarrow> bd_fill B random s2))
      else Some (Inr s))"

partial_function (option) bd_loop ::
  "('mh, 'b) backend_ops \<Rightarrow> (nat \<Rightarrow> 'mh) \<Rightarrow> nat \<Rightarrow> ('mh, 'b) bench_discovery
     \<Rightarrow> (panic + ('mh, 'b) bench_discovery) option" where
  "bd_loop B random num_peers s =
     (case bk_next B (bd_backend s) of
        None \<Rightarrow> None
      | Some (Inl e) \<Rightarrow> Some (Inl e)
      | Some (Inr (None, b)) \<Rightarrow> Some (Inr (s\<lparr>bd_backend := b\<rparr>))
      | Some (Inr (Some event, b)) \<Rightarrow>
          (case bd_handle B event (s\<lparr>bd_backend := b\<rparr>) of
             Inl e \<Rightarrow> Some (Inl e)
           | Inr s1 \<Rightarrow>
               if num_peers \<le> length (bd_peers_data s1) then Some (Inr s1)
               else (case bd_fill B random s1 of
                       None \<Rightarrow> None
                     | Some (Inl e) \<Rightarrow> Some (Inl e)
                     | Some (Inr s2) \<Rightarrow> bd_loop B random num_peers s2)))"

text \<open>
  The average divides by the number of completed queries as a 32-bit integer; \<open>None\<close> when
  none was completed.
\<close>

definition average_time :: "nat list \<Rightarrow> panic + nat option" where
  "average_time ts =
     (if ts = [] then Inr None
      else if (of_nat (length ts) :: u32) = 0 then Inl (AssertFailed ''divide by zero error when dividing duration by scalar'')
      else Inr (Some (sum_list ts div unat (of_nat (length ts) :: u32))))"

definition bench_new :: "'b \<Rightarrow> 'mh list \<Rightarrow> ('mh, 'b) bench_discovery" where
  "bench_new b peer_ids =
     \<lparr>bd_backend = b, bd_peer_iter = peer_ids, bd_randoms = 0, bd_peers_data = [], bd_queries = [],
      bd_query_times = [], bd_num_queries = 0\<rparr>"

definition bench_discovery ::
  "('mh, 'b) backend_ops \<Rightarrow> (nat \<Rightarrow> 'mh) \<Rightarrow> ('mh \<times> 'mh core_multiaddr) list \<Rightarrow> nat \<Rightarrow> 'mh list \<Rightarrow> 'b
     \<Rightarrow> (panic + nat option \<times> ('mh, 'b) bench_discovery) option" where
  "bench_discovery B random bootnodes num_peers peer_ids b =
     (case bd_bootnodes B bootnodes (bench_new b peer_ids) of
        Inl e \<Rightarrow> Some (Inl e)
      | Inr s1 \<Rightarrow>
          (case bd_prime B 10 s1 of
             Inl e \<Rightarrow> Some (Inl e)
           | Inr s2 \<Rightarrow>
               (case bd_loop B random num_peers s2 of
                  None \<Rightarrow> None
                | Some (Inl e) \<Rightarrow> Some (Inl e)
                | Some (Inr s3) \<Rightarrow>
                    Some (map_sum id (\<lambda>avg. (avg, s3)) (average_time (bd_query_times s3))))))"

section \<open>The data set and the command\<close>

datatype backend_type = Litep2pType | Libp2pType

record bench_opts =
  bo_genesis :: string
  bo_bootnodes :: "string list"
  bo_num_peers :: nat
  bo_backend_type :: backend_type
  bo_data_set :: "string option"

text \<open>
  Without a data set the peers are random and written to a file; the result is the peers with
  the text written, if any. \<open>show\<close> and \<open>parse\<close> are the text form of a peer.
\<close>

definition dataset_text :: "('mh \<Rightarrow> string) \<Rightarrow> 'mh list \<Rightarrow> string" where
  "dataset_text show_peer peer_ids = join_with '','' (map show_peer peer_ids)"

definition parse_dataset :: "(string \<Rightarrow> 'e + 'mh) \<Rightarrow> string \<Rightarrow> panic + 'mh list" where
  "parse_dataset parse file =
     collect_panics (map (\<lambda>line. expect_ok ''Valid peer ID'' (parse (str_trim line))) (split_char CHR '','' file))"

definition get_peer_ids ::
  "(string \<Rightarrow> string option) \<Rightarrow> (string \<Rightarrow> string \<Rightarrow> bool) \<Rightarrow> ('mh \<Rightarrow> string) \<Rightarrow> (string \<Rightarrow> 'e + 'mh)
     \<Rightarrow> (nat \<Rightarrow> panic + 'mh) \<Rightarrow> bench_opts \<Rightarrow> panic + 'mh list \<times> string option" where
  "get_peer_ids read_file write_file show_peer parse random opts =
     (case bo_data_set opts of
        None \<Rightarrow>
          (case collect_panics (map random [0..<1024 * 12]) of
             Inl e \<Rightarrow> Inl e
           | Inr peer_ids \<Rightarrow>
               (let collected = dataset_text show_peer peer_ids
                in if write_file ''dataset-latest.txt'' collected then Inr (peer_ids, Some collected)
                   else Inl (UnwrapNone ''Cannot write file'')))
      | Some data_set \<Rightarrow>
          (case read_file data_set of
             None \<Rightarrow> Inl (UnwrapNone ''Cannot open file'')
           | Some file \<Rightarrow> map_sum id (\<lambda>ids. (ids, None)) (parse_dataset parse file)))"

text \<open>A bootnode is an address whose last component names the peer.\<close>

definition parse_bench_bootnode ::
  "(string \<Rightarrow> 'e + 'mh) \<Rightarrow> (string \<Rightarrow> 'f + 'mh core_multiaddr) \<Rightarrow> string
     \<Rightarrow> panic + 'mh \<times> 'mh core_multiaddr" where
  "parse_bench_bootnode parse parse_addr bootnode =
     (let peer = last (split_char CHR ''/'' bootnode)
      in case expect_ok ''Valid multiaddress'' (parse_addr bootnode) of
           Inl e \<Rightarrow> Inl e
         | Inr multiaddress \<Rightarrow>
             map_sum id (\<lambda>p. (p, multiaddress)) (expect_ok ''Valid peer ID'' (parse peer)))"

text \<open>The two branches of the command, from a new backend.\<close>

definition run_litep2p ::
  "('mh, 'g, 'pid, 'lid) mh_ops \<Rightarrow> ('mh, 'lid, 'l, 'kad) lite_ops \<Rightarrow> (string \<Rightarrow> 'mh core_multiaddr option)
     \<Rightarrow> ('mh lite_settings \<Rightarrow> ('l \<times> 'kad) option) \<Rightarrow> (nat \<Rightarrow> 'mh) \<Rightarrow> ('mh, 'lid) lite_input list \<Rightarrow> nat \<Rightarrow> string
     \<Rightarrow> ('mh \<times> 'mh core_multiaddr) list \<Rightarrow> nat \<Rightarrow> 'mh list \<Rightarrow> (panic + nat option) option" where
  "run_litep2p M L parse build random ins time genesis bootnodes num_peers peer_ids =
     (case litep2p_backend_new parse build genesis of
        Inl e \<Rightarrow> Some (Inl e)
      | Inr b \<Rightarrow>
          map_option (map_sum id fst)
            (bench_discovery (litep2p_ops M L) random bootnodes num_peers peer_ids (ins, time, b)))"

definition run_libp2p ::
  "('mh, 'g, 'pid, 'lid) mh_ops \<Rightarrow> ('g, 'pid, 'q, 'sw) lib_kad_ops \<Rightarrow> 'pid \<Rightarrow> (swarm_settings \<Rightarrow> build_step + 'sw)
     \<Rightarrow> (nat \<Rightarrow> 'mh) \<Rightarrow> ('g, 'pid, 'q) lib_input list \<Rightarrow> nat \<Rightarrow> string
     \<Rightarrow> ('mh \<times> 'mh core_multiaddr) list \<Rightarrow> nat \<Rightarrow> 'mh list \<Rightarrow> (panic + nat option) option" where
  "run_libp2p M K r build random ins time genesis bootnodes num_peers peer_ids =
     (case libp2p_backend_new build genesis of
        Inl e \<Rightarrow> Some (Inl e)
      | Inr b \<Rightarrow>
          map_option (map_sum id fst)
            (bench_discovery (libp2p_ops M K r) random bootnodes num_peers peer_ids (ins, time, b)))"

text \<open>What the command needs of the libraries, the files and the clock.\<close>

record ('mh, 'g, 'pid, 'lid, 'q, 'sw, 'l, 'kad, 'e, 'f) bench_world =
  bw_mh :: "('mh, 'g, 'pid, 'lid) mh_ops"
  bw_lite :: "('mh, 'lid, 'l, 'kad) lite_ops"
  bw_lib :: "('g, 'pid, 'q, 'sw) lib_kad_ops"
  bw_random_pid :: 'pid
  bw_lite_address :: "string \<Rightarrow> 'mh core_multiaddr option"
  bw_build_lite :: "'mh lite_settings \<Rightarrow> ('l \<times> 'kad) option"
  bw_build_lib :: "swarm_settings \<Rightarrow> build_step + 'sw"
  bw_lite_inputs :: "('mh, 'lid) lite_input list"
  bw_lib_inputs :: "('g, 'pid, 'q) lib_input list"
  bw_time :: nat
  bw_random :: "nat \<Rightarrow> 'mh"
  bw_random_peers :: "nat \<Rightarrow> panic + 'mh"
  bw_read_file :: "string \<Rightarrow> string option"
  bw_write_file :: "string \<Rightarrow> string \<Rightarrow> bool"
  bw_show_peer :: "'mh \<Rightarrow> string"
  bw_parse_peer :: "string \<Rightarrow> 'e + 'mh"
  bw_parse_addr :: "string \<Rightarrow> 'f + 'mh core_multiaddr"

definition discovery_backends ::
  "('mh, 'g, 'pid, 'lid, 'q, 'sw, 'l, 'kad, 'e, 'f) bench_world \<Rightarrow> bench_opts
     \<Rightarrow> (panic + nat option) option" where
  "discovery_backends W opts =
     (case get_peer_ids (bw_read_file W) (bw_write_file W) (bw_show_peer W) (bw_parse_peer W)
             (bw_random_peers W) opts of
        Inl e \<Rightarrow> Some (Inl e)
      | Inr (peer_ids, _) \<Rightarrow>
          (case collect_panics (map (parse_bench_bootnode (bw_parse_peer W) (bw_parse_addr W))
                  (bo_bootnodes opts)) of
             Inl e \<Rightarrow> Some (Inl e)
           | Inr bootnodes \<Rightarrow>
               (case bo_backend_type opts of
                  Litep2pType \<Rightarrow>
                    run_litep2p (bw_mh W) (bw_lite W) (bw_lite_address W) (bw_build_lite W) (bw_random W)
                      (bw_lite_inputs W) (bw_time W) (bo_genesis opts) bootnodes (bo_num_peers opts) peer_ids
                | Libp2pType \<Rightarrow>
                    run_libp2p (bw_mh W) (bw_lib W) (bw_random_pid W) (bw_build_lib W) (bw_random W)
                      (bw_lib_inputs W) (bw_time W) (bo_genesis opts) bootnodes (bo_num_peers opts) peer_ids)))"

section \<open>The local network\<close>

text \<open>The addresses a backend listens on, and the peer that the first of them names.\<close>

definition listening_peer ::
  "('mh, 'g, 'pid, 'lid) mh_ops \<Rightarrow> ('mh, 'lid, 'l, 'kad) lite_ops \<Rightarrow> ('mh, 'lid, 'l, 'kad) litep2p_backend
     \<Rightarrow> panic + 'mh \<times> 'mh core_multiaddr list \<times> ('mh, 'lid, 'l, 'kad) litep2p_backend" where
  "listening_peer M L b =
     (case litep2p_listen_addresses M L b of
        Inl e \<Rightarrow> Inl e
      | Inr (addrs, b') \<Rightarrow>
          (case addrs of
             [] \<Rightarrow> Inl (IndexOutOfBounds 0 0)
           | a # _ \<Rightarrow>
               (case try_from_multiaddr a of
                  None \<Rightarrow> Inl (UnwrapNone ''Valid peer ID'')
                | Some peer \<Rightarrow> Inr (peer, addrs, b'))))"

text \<open>Each backend and the next one learn each other's addresses.\<close>

fun connect_backends ::
  "('mh, 'g, 'pid, 'lid) mh_ops \<Rightarrow> ('mh, 'lid, 'l, 'kad) lite_ops
     \<Rightarrow> ('mh, 'mh core_multiaddr list) hash_map \<Rightarrow> ('mh, 'lid, 'l, 'kad) litep2p_backend
     \<Rightarrow> ('mh, 'lid, 'l, 'kad) litep2p_backend list
     \<Rightarrow> panic + ('mh, 'mh core_multiaddr list) hash_map \<times> ('mh, 'lid, 'l, 'kad) litep2p_backend list" where
  "connect_backends M L peers current [] = Inr (peers, [current])"
| "connect_backends M L peers current (next_b # rest) =
     (case listening_peer M L current of
        Inl e \<Rightarrow> Inl e
      | Inr (current_peer, current_addr, current1) \<Rightarrow>
          (case listening_peer M L next_b of
             Inl e \<Rightarrow> Inl e
           | Inr (next_peer, next_addr, next1) \<Rightarrow>
               (case litep2p_add_known_peer M L next_peer next_addr current1 of
                  Inl e \<Rightarrow> Inl e
                | Inr current2 \<Rightarrow>
                    (case litep2p_add_known_peer M L current_peer current_addr next1 of
                       Inl e \<Rightarrow> Inl e
                     | Inr next2 \<Rightarrow>
                         map_sum id (map_prod id ((#) current2))
                           (connect_backends M L
                              (AList.update next_peer next_addr (AList.update current_peer current_addr peers))
                              next2 rest)))))"

record local_opts =
  lo_network_size :: nat
  lo_num_peers :: nat
  lo_backend_type :: backend_type
  lo_data_set :: "string option"

text \<open>
  The options of the discovery run after the network is up: up to five of the known peers, in
  the order in which the map iterates, are its bootnodes. \<open>build n\<close> is the construction of the
  n-th backend's library; the backends are then polled by a task of their own.
\<close>

definition spawn_network ::
  "('mh, 'g, 'pid, 'lid, 'q, 'sw, 'l, 'kad, 'e, 'f) bench_world
     \<Rightarrow> (nat \<Rightarrow> 'mh lite_settings \<Rightarrow> ('l \<times> 'kad) option) \<Rightarrow> ('mh core_multiaddr \<Rightarrow> string)
     \<Rightarrow> (('mh \<times> 'mh core_multiaddr list) list \<Rightarrow> ('mh \<times> 'mh core_multiaddr list) list)
     \<Rightarrow> local_opts \<Rightarrow> string \<Rightarrow> (panic + nat option) option" where
  "spawn_network W build show_addr order opts genesis =
     (case collect_panics (map (\<lambda>n. litep2p_backend_new (bw_lite_address W) (build n) genesis)
             [0..<lo_network_size opts]) of
        Inl e \<Rightarrow> Some (Inl e)
      | Inr [] \<Rightarrow> Some (Inl (UnwrapNone ''At least one backend''))
      | Inr (b # bs) \<Rightarrow>
          (case connect_backends (bw_mh W) (bw_lite W) [] b bs of
             Inl e \<Rightarrow> Some (Inl e)
           | Inr (peers, _) \<Rightarrow>
               discovery_backends W
                 \<lparr>bo_genesis = genesis,
                  bo_bootnodes = map (\<lambda>(_, addrs). show_addr (hd addrs)) (take 5 (order peers)),
                  bo_num_peers = lo_num_peers opts, bo_backend_type = lo_backend_type opts,
                  bo_data_set = lo_data_set opts\<rparr>))"

section \<open>The program\<close>

datatype bench_command =
    Discovery bench_opts
  | DiscoveryLocal local_opts

definition bench_main ::
  "('mh, 'g, 'pid, 'lid, 'q, 'sw, 'l, 'kad, 'e, 'f) bench_world
     \<Rightarrow> (nat \<Rightarrow> 'mh lite_settings \<Rightarrow> ('l \<times> 'kad) option) \<Rightarrow> ('mh core_multiaddr \<Rightarrow> string)
     \<Rightarrow> (('mh \<times> 'mh core_multiaddr list) list \<Rightarrow> ('mh \<times> 'mh core_multiaddr list) list)
     \<Rightarrow> bench_command \<Rightarrow> (panic + nat option) option" where
  "bench_main W build show_addr order args =
     (case args of
        Discovery opts \<Rightarrow> discovery_backends W opts
      | DiscoveryLocal opts \<Rightarrow>
          spawn_network W build show_addr order opts
            ''781e4046b4e8b5e83d33dde04b32e7cb5d43344b1f19b574f6d31cbbd99fe738'')"

section \<open>The pool of queries\<close>

lemma issue_length: "issue ask ps b = Inr (ids, b') \<Longrightarrow> length ids = length ps"
  by (induction ps arbitrary: b ids) (auto simp: issue_Cons simp del: issue.simps(2))

lemma length_distinct_le:
  assumes "distinct xs" and "set xs \<subseteq> set ys"
  shows "length xs \<le> length ys"
  using assms by (metis List.finite_set card_length card_mono distinct_card le_trans)

definition pool_ok :: "('mh, 'b) bench_discovery \<Rightarrow> bool" where
  "pool_ok s \<longleftrightarrow> wf_map (bd_queries s) \<and> length (bd_queries s) \<le> MAX_BENCH_QUERIES"

lemma next_target_rest:
  "bd_next_target random s = (p, s1) \<Longrightarrow>
     bd_backend s1 = bd_backend s \<and> bd_queries s1 = bd_queries s \<and> bd_peers_data s1 = bd_peers_data s"
  by (auto simp: bd_next_target_def split: list.splits)

context query_issuer begin

text \<open>
  Every turn of the loop that tops up the pool adds an identifier of the same run of requests,
  so it ends after at most as many turns as the pool has places.
\<close>

lemma fill_run:
  assumes "bk_find_node B = ask" and "good b0" and "issue ask ps b0 = Inr (ids, bd_backend s)"
    and "set ids \<subseteq> set (keys (bd_queries s))" and "pool_ok s"
    and "length ids \<le> MAX_BENCH_QUERIES"
  shows "\<exists>r. bd_fill B random s = Some r \<and>
           (\<forall>s'. r = Inr s' \<longrightarrow> pool_ok s' \<and> length (bd_queries s') = MAX_BENCH_QUERIES \<and>
              bd_peers_data s' = bd_peers_data s)"
  using assms
proof (induction "MAX_BENCH_QUERIES - length ids" arbitrary: ps ids s rule: less_induct)
  case less
  show ?case
  proof (cases "length (bd_queries s) < MAX_BENCH_QUERIES")
    case False
    with less.prems show ?thesis
      by (subst bd_fill.simps) (auto simp: pool_ok_def)
  next
    case True
    obtain p s1 where t: "bd_next_target random s = (p, s1)" by fastforce
    note same = next_target_rest [OF t]
    show ?thesis
    proof (cases "bd_query B p s1")
      case (Inl e)
      with True t show ?thesis by (subst bd_fill.simps) simp
    next
      case (Inr s2)
      then obtain i b where ask: "ask p (bd_backend s) = Inr (i, b)" and
        s2: "bd_backend s2 = b" "bd_peers_data s2 = bd_peers_data s"
          "bd_queries s2 = AList.update i (bk_now B b) (bd_queries s)"
        using same less.prems(1) by (auto simp: bd_query_def split: sum.splits prod.splits)
      have run: "issue ask (ps @ [p]) b0 = Inr (ids @ [i], bd_backend s2)"
        using issue_snoc [OF less.prems(3) ask] s2 by simp
      have "distinct ids"
        using less.prems(2,3,6) issue_length [OF less.prems(3)]
        by (intro issue_distinct) (auto simp: MAX_BENCH_QUERIES_def)
      then have len: "length ids < MAX_BENCH_QUERIES"
        using length_distinct_le [of ids "keys (bd_queries s)"] less.prems(4) True by simp
      have ok: "pool_ok s2"
        using less.prems(5) True s2 length_update_le [of i "bk_now B b" "bd_queries s"]
        by (auto simp: pool_ok_def)
      have "\<exists>r. bd_fill B random s2 = Some r \<and>
           (\<forall>s'. r = Inr s' \<longrightarrow> pool_ok s' \<and> length (bd_queries s') = MAX_BENCH_QUERIES \<and>
              bd_peers_data s' = bd_peers_data s2)"
      proof (rule less.hyps [OF _ less.prems(1,2) run _ ok])
        show "MAX_BENCH_QUERIES - length (ids @ [i]) < MAX_BENCH_QUERIES - length ids"
          using len by simp
        show "set (ids @ [i]) \<subseteq> set (keys (bd_queries s2))"
          using less.prems(4) by (auto simp: s2 keys_update)
        show "length (ids @ [i]) \<le> MAX_BENCH_QUERIES"
          using len by simp
      qed
      with Inr True t s2 show ?thesis by (subst bd_fill.simps) simp
    qed
  qed
qed

lemma fill_ends:
  assumes "bk_find_node B = ask" and "good (bd_backend s)" and "pool_ok s"
  shows "\<exists>r. bd_fill B random s = Some r \<and>
           (\<forall>s'. r = Inr s' \<longrightarrow> pool_ok s' \<and> length (bd_queries s') = MAX_BENCH_QUERIES \<and>
              bd_peers_data s' = bd_peers_data s)"
  using assms by (intro fill_run [where ps = "[]" and ids = "[]"]) simp_all

text \<open>The contract carries over to a backend with its inputs and its clock.\<close>

lemma with_backend_step:
  "with_backend (ask p) (ins, time, s) = Inr (i, b') \<longleftrightarrow> (\<exists>s'. ask p s = Inr (i, s') \<and> b' = (ins, time, s'))"
  by (cases "ask p s") (auto simp: with_backend_def)

lemma with_backend_issue:
  "issue (\<lambda>p. with_backend (ask p)) ps (ins, time, s) = Inr (ids, b') \<Longrightarrow> \<exists>s'. issue ask ps s = Inr (ids, s')"
  by (induction ps arbitrary: s ids) (auto simp: issue_Cons with_backend_step simp del: issue.simps(2))

lemma with_backend_issuer:
  "query_issuer (\<lambda>p. with_backend (ask p)) (\<lambda>(ins, time, s). good s)"
proof
  fix b :: "'c \<times> nat \<times> 'b" and p i b'
  assume "case b of (ins, time, s) \<Rightarrow> good s" and "with_backend (ask p) b = Inr (i, b')"
  then show "case b' of (ins, time, s) \<Rightarrow> good s"
    using good_ask by (cases b) (auto simp: with_backend_step)
next
  fix b :: "'c \<times> nat \<times> 'b" and ps ids b'
  assume good: "case b of (ins, time, s) \<Rightarrow> good s" and len: "length ps \<le> 2 ^ 64"
    and run: "issue (\<lambda>p. with_backend (ask p)) ps b = Inr (ids, b')"
  obtain ins time s where b: "b = (ins, time, s)" by (cases b)
  with run obtain s' where "issue ask ps s = Inr (ids, s')" by (auto dest: with_backend_issue)
  then show "distinct ids"
    using good len b by (intro issue_distinct [of s ps]) simp_all
qed

end

interpretation lib_run: query_issuer "bk_find_node (libp2p_ops M K r)" "\<lambda>_. True"
  using lib_queries.with_backend_issuer by (simp add: libp2p_ops_def case_prod_unfold)

interpretation lite_run: query_issuer "bk_find_node (litep2p_ops M L)" "\<lambda>_. lite_distinct L"
  using lite_queries.with_backend_issuer by (simp add: litep2p_ops_def case_prod_unfold)

text \<open>
  Topping up the pool of queries ends, on either backend: with a panic of \<open>find_node\<close>, or
  with exactly fifty queries in the pool and the peers found so far untouched. On
  \<open>litep2p\<close> the identifiers are the library's, which have to differ.
\<close>

theorem bench_fill_ends:
  assumes "pool_ok s" and "pool_ok t" and "lite_distinct L"
  shows "(\<exists>r. bd_fill (libp2p_ops M K random_pid) random s = Some r \<and>
            (\<forall>s'. r = Inr s' \<longrightarrow> length (bd_queries s') = 50 \<and> bd_peers_data s' = bd_peers_data s)) \<and>
         (\<exists>r. bd_fill (litep2p_ops M L) random t = Some r \<and>
            (\<forall>t'. r = Inr t' \<longrightarrow> length (bd_queries t') = 50 \<and> bd_peers_data t' = bd_peers_data t))"
  using lib_run.fill_ends [OF refl TrueI assms(1), where ?random = random]
    lite_run.fill_ends [OF refl assms(3,2), where ?random = random]
  unfolding MAX_BENCH_QUERIES_def by metis

text \<open>A library whose identifiers count up.\<close>

definition counting_lite :: "('mh, 'lid, unit, u64) lite_ops" where
  "counting_lite =
     \<lparr>lite_add_known_address = (\<lambda>p as l. l), lite_listen_addresses = (\<lambda>l. []),
      kad_find_node = (\<lambda>p n. (n, n + 1)), kad_add_known_peer = (\<lambda>p as n. n)\<rparr>"

lemma counting_lite_issue:
  "kad_issue counting_lite ps n = map (\<lambda>k. n + of_nat k) [0..<length ps]"
  by (induction ps arbitrary: n) (auto simp: counting_lite_def map_upt_Suc add.assoc simp del: upt_Suc)

lemma counting_lite_distinct: "lite_distinct counting_lite"
  unfolding lite_distinct_def counting_lite_issue by (blast intro: consecutive_distinct)

lemma pool_ok_new: "pool_ok (bench_new b ids)"
  by (simp add: pool_ok_def bench_new_def)

theorem bench_fill_ends_witness:
  "\<exists>r. bd_fill (litep2p_ops sample_ops counting_lite) (\<lambda>_. sample_peer)
       (bench_new ([], 0, \<lparr>lt_library = (), lt_kad_handle = 0, lt_commands = [], lt_pending_actions = []\<rparr>) []) =
         Some r \<and> (case r of Inl _ \<Rightarrow> True | Inr s \<Rightarrow> length (bd_queries s) = 50)"
  using bench_fill_ends [OF pool_ok_new pool_ok_new counting_lite_distinct, THEN conjunct2,
      where M1 = sample_ops and random1 = "\<lambda>_. sample_peer" and ids3 = "[]" and
      b3 = "([], 0, \<lparr>lt_library = (), lt_kad_handle = 0, lt_commands = [], lt_pending_actions = []\<rparr>)"]
  by (elim exE conjE) (rule exI, rule conjI, assumption, simp split: sum.splits)

section \<open>The result of a run\<close>

lemma bd_query_pool:
  assumes "bd_query B p s = Inr s'" and "pool_ok s" and "length (bd_queries s) < MAX_BENCH_QUERIES"
  shows "pool_ok s'"
  using assms length_update_le [of _ _ "bd_queries s"]
  by (auto simp: bd_query_def pool_ok_def split: sum.splits prod.splits) (meson Suc_leI le_trans)

lemma bd_add_known_rest:
  "bd_add_known B p as s = Inr s' \<Longrightarrow>
     bd_queries s' = bd_queries s \<and> bd_peers_data s' = bd_peers_data s \<and> bd_peer_iter s' = bd_peer_iter s"
  by (auto simp: bd_add_known_def map_sum_eq_Inr)

lemma bd_found_queries: "bd_found B peers s = Inr s' \<Longrightarrow> bd_queries s' = bd_queries s"
  by (induction peers arbitrary: s) (fastforce simp: bd_note_def split: sum.splits dest: bd_add_known_rest)+

lemma bd_handle_pool:
  assumes "bd_handle B event s = Inr s'" and "pool_ok s"
  shows "pool_ok s'"
  using assms length_map_remove_le [of _ "bd_queries s"]
  by (auto simp: bd_handle_def pool_ok_def bd_note_def Let_def
      dest!: bd_add_known_rest bd_found_queries split: network_event.splits option.splits) (meson le_trans)

lemma bd_fill_pool:
  assumes "bd_fill B random s = Some (Inr s')" and "pool_ok s"
  shows "pool_ok s'"
proof -
  have "\<forall>s'. r = Inr s' \<longrightarrow> pool_ok s \<longrightarrow> pool_ok s'" if "bd_fill B random s = Some r" for r
    using that
  proof (induction rule: bd_fill.raw_induct [rotated, consumes 1, case_names step])
    case (step loop B random s r)
    show ?case
    proof (cases "length (bd_queries s) < MAX_BENCH_QUERIES")
      case True
      obtain p s1 where t: "bd_next_target random s = (p, s1)" by fastforce
      show ?thesis
      proof (cases "bd_query B p s1")
        case (Inr s2)
        have "pool_ok s2" if "pool_ok s"
          using bd_query_pool [OF Inr] next_target_rest [OF t] that True by (simp add: pool_ok_def)
        with step(1) [of B random s2 r] step(2) Inr True t show ?thesis by simp
      qed (use step(2) True t in auto)
    qed (use step(2) in auto)
  qed
  with assms show ?thesis by blast
qed

text \<open>How a run ends: enough peers, or the end of the stream.\<close>

definition run_ended :: "('mh, 'b) backend_ops \<Rightarrow> nat \<Rightarrow> ('mh, 'b) bench_discovery \<Rightarrow> bool" where
  "run_ended B num_peers s \<longleftrightarrow>
     num_peers \<le> length (bd_peers_data s) \<or> (\<exists>b. bk_next B b = Some (Inr (None, bd_backend s)))"

lemma bd_loop_ends:
  assumes "bd_loop B random num_peers s = Some r" and "pool_ok s"
  shows "\<forall>s'. r = Inr s' \<longrightarrow> pool_ok s' \<and> run_ended B num_peers s'"
  using assms
proof (induction rule: bd_loop.raw_induct [rotated, consumes 1, case_names step])
  case (step loop B random num_peers s r)
  show ?case
  proof (cases "bk_next B (bd_backend s)")
    case (Some nxt)
    show ?thesis
    proof (cases nxt)
      case (Inr eb)
      obtain ev b where eb: "eb = (ev, b)" by (cases eb)
      show ?thesis
      proof (cases ev)
        case None
        with step(2,3) Some Inr eb show ?thesis
          by (auto simp: pool_ok_def run_ended_def)
      next
        case (Some event)
        note next_ev = \<open>bk_next B (bd_backend s) = Some nxt\<close> Inr eb Some
        show ?thesis
        proof (cases "bd_handle B event (s\<lparr>bd_backend := b\<rparr>)")
          case (Inr s1)
          with step(2,3) have ok1: "pool_ok s1"
            using bd_handle_pool [OF Inr] by (simp add: pool_ok_def)
          show ?thesis
          proof (cases "num_peers \<le> length (bd_peers_data s1)")
            case True
            with step(2,3) next_ev Inr ok1 show ?thesis
              by (auto simp: run_ended_def)
          next
            case False
            with step(2) next_ev Inr obtain f where
              f: "bd_fill B random s1 = Some f" and r: "(case f of Inl e \<Rightarrow> Some (Inl e)
                | Inr s2 \<Rightarrow> loop B random num_peers s2) = Some r"
              by (auto split: option.splits)
            show ?thesis
            proof (cases f)
              case (Inr s2)
              with f ok1 have "pool_ok s2" using bd_fill_pool by blast
              with step(1) [of B random num_peers s2 r] r Inr show ?thesis by simp
            qed (use r in auto)
          qed
        qed (use step(2,3) next_ev in auto)
      qed
    qed (use step(2,3) Some in auto)
  qed (use step(2,3) in auto)
qed

lemma bd_bootnodes_rest:
  "bd_bootnodes B boots s = Inr s' \<Longrightarrow>
     bd_queries s' = bd_queries s \<and> bd_peer_iter s' = bd_peer_iter s"
  by (induction B boots s rule: bd_bootnodes.induct) (auto split: sum.splits dest!: bd_add_known_rest)

lemma bd_prime_pool:
  assumes "bd_prime B n s = Inr s'" and "pool_ok s" and "length (bd_queries s) + n \<le> MAX_BENCH_QUERIES"
  shows "pool_ok s' \<and> n \<le> length (bd_peer_iter s)"
  using assms
proof (induction B n s rule: bd_prime.induct)
  case (2 B n s)
  then obtain p rest s1 where iter: "bd_peer_iter s = p # rest"
    and q: "bd_query B p (s\<lparr>bd_peer_iter := rest\<rparr>) = Inr s1" and "bd_prime B n s1 = Inr s'"
    by (auto split: list.splits sum.splits)
  moreover have "pool_ok s1"
    using bd_query_pool [OF q] 2(3,4) by (simp add: pool_ok_def)
  moreover have "length (bd_queries s1) \<le> Suc (length (bd_queries s))" "bd_peer_iter s1 = rest"
    using q length_update_le by (auto simp: bd_query_def split: sum.splits)
  ultimately show ?case
    using 2(1) [OF iter q] 2(4) by simp
qed simp

text \<open>
  C34. What a run of the benchmark returns. It returns only when enough peers were discovered
  or the backend's stream ended, with at most fifty queries running, and it reports an average
  exactly when a query was completed. With fewer than ten peers in the data set it always
  panics.
\<close>

theorem bench_discovery_result:
  "(bench_discovery B random bootnodes num_peers peer_ids b = Some (Inr (avg, s)) \<longrightarrow>
      run_ended B num_peers s \<and> length (bd_queries s) \<le> 50 \<and> (avg = None \<longleftrightarrow> bd_query_times s = [])) \<and>
   (length peer_ids < 10 \<longrightarrow>
      (\<exists>e. bench_discovery B random bootnodes num_peers peer_ids b = Some (Inl e)))"
proof (cases "bd_bootnodes B bootnodes (bench_new b peer_ids)")
  case (Inl e)
  then show ?thesis by (simp add: bench_discovery_def)
next
  case boot: (Inr s1)
  have start: "pool_ok s1" "bd_queries s1 = []" "bd_peer_iter s1 = peer_ids"
    using bd_bootnodes_rest [OF boot] by (simp_all add: pool_ok_def bench_new_def)
  show ?thesis
  proof (cases "bd_prime B 10 s1")
    case (Inl e)
    with boot show ?thesis by (simp add: bench_discovery_def)
  next
    case (Inr s2)
    then have "pool_ok s2" and "10 \<le> length peer_ids"
      using bd_prime_pool [OF Inr start(1)] start by (simp_all add: MAX_BENCH_QUERIES_def)
    with boot Inr show ?thesis
      using bd_loop_ends [of B random num_peers s2]
      by (auto simp: bench_discovery_def pool_ok_def MAX_BENCH_QUERIES_def average_time_def
          split: option.splits sum.splits if_splits)
  qed
qed

text \<open>A backend whose stream has ended.\<close>

definition ended_backend :: "(nat, query_id) backend_ops" where
  "ended_backend =
     \<lparr>bk_find_node = (\<lambda>p n. Inr (n, n + 1)), bk_add_known_peer = (\<lambda>p as n. Inr n),
      bk_next = (\<lambda>n. Some (Inr (None, n))), bk_now = (\<lambda>n. 0)\<rparr>"

lemma ended_prime:
  "n \<le> length (bd_peer_iter s) \<Longrightarrow>
     \<exists>s'. bd_prime ended_backend n s = Inr s' \<and> bd_query_times s' = bd_query_times s"
proof (induction n arbitrary: s)
  case (Suc n)
  then obtain p rest where iter: "bd_peer_iter s = p # rest" by (cases "bd_peer_iter s") auto
  obtain s1 where "bd_query ended_backend p (s\<lparr>bd_peer_iter := rest\<rparr>) = Inr s1"
    and "bd_peer_iter s1 = rest" "bd_query_times s1 = bd_query_times s"
    by (simp add: bd_query_def ended_backend_def)
  with Suc.IH [of s1] Suc.prems iter show ?case by simp
qed simp

lemma ended_run: "\<exists>s. bench_discovery ended_backend id [] 5 [0..<10] 0 = Some (Inr (None, s))"
proof -
  obtain s where "bd_prime ended_backend 10 (bench_new 0 [0..<10]) = Inr s" "bd_query_times s = []"
    using ended_prime [of 10 "bench_new 0 [0..<10]"] by (auto simp: bench_new_def)
  moreover have "bd_loop ended_backend id 5 s = Some (Inr (s\<lparr>bd_backend := bd_backend s\<rparr>))"
    by (subst bd_loop.simps) (simp add: ended_backend_def)
  ultimately show ?thesis
    by (simp add: bench_discovery_def average_time_def)
qed

theorem bench_discovery_result_witness:
  "(\<exists>s. bench_discovery ended_backend id [] 5 [0..<10] 0 = Some (Inr (None, s)) \<and>
      run_ended ended_backend 5 s \<and> length (bd_queries s) \<le> 50 \<and> bd_query_times s = []) \<and>
   (\<exists>e. bench_discovery ended_backend id [] 5 [0..<9] 0 = Some (Inl e))"
proof -
  obtain s where s: "bench_discovery ended_backend id [] 5 [0..<10] 0 = Some (Inr (None, s))"
    using ended_run by blast
  show ?thesis
    using bench_discovery_result [of ended_backend id "[]" 5 "[0..<10]" 0 None s] s
      bench_discovery_result [of ended_backend id "[]" 5 "[0..<9]" 0 None s] by auto
qed

section \<open>The data set reads back\<close>

text \<open>What base-58 promises: decoding inverts encoding, and the text is in its alphabet.\<close>

definition base58_alphabet :: string where
  "base58_alphabet = ''123456789ABCDEFGHJKLMNPQRSTUVWXYZabcdefghijkmnopqrstuvwxyz''"

definition base58_laws :: "(bytes \<Rightarrow> string) \<Rightarrow> (string \<Rightarrow> 'e + bytes) \<Rightarrow> bool" where
  "base58_laws enc dec \<longleftrightarrow> (\<forall>bs. dec (enc bs) = Inr bs \<and> set (enc bs) \<subseteq> set base58_alphabet)"

lemma base58_char: "c \<in> set base58_alphabet \<Longrightarrow> of_char c \<in> {33 ..< 128 :: nat} \<and> c \<noteq> CHR '',''"
  by (auto simp: base58_alphabet_def)

lemma peer_text_roundtrip:
  assumes "mh_laws M" and "base58_laws enc dec" and "valid_peer M m"
  shows "peer_from_str M dec (str_trim (peer_to_base58 M enc m)) = Inr m"
proof -
  have "str_trim (peer_to_base58 M enc m) = peer_to_base58 M enc m"
    using assms(2) base58_char by (intro str_trim_id) (auto simp: base58_laws_def peer_to_base58_def)
  then show ?thesis
    using assms by (simp add: peer_from_str_def peer_to_base58_def base58_laws_def peer_from_bytes_def
        peer_to_bytes_def multihash_from_bytes_def mh_laws_wrap peer_from_multihash_eq)
qed

lemma dataset_roundtrip:
  assumes "mh_laws M" and "base58_laws enc dec" and "ids \<noteq> []" and "\<And>m. m \<in> set ids \<Longrightarrow> valid_peer M m"
  shows "parse_dataset (peer_from_str M dec) (dataset_text (peer_to_base58 M enc) ids) = Inr ids"
proof -
  have "CHR '','' \<notin> set (peer_to_base58 M enc m)" for m
    using assms(2) base58_char by (auto simp: base58_laws_def peer_to_base58_def)
  then have "split_char CHR '','' (dataset_text (peer_to_base58 M enc) ids) = map (peer_to_base58 M enc) ids"
    using assms(3) unfolding dataset_text_def by (intro split_char_join) auto
  moreover have "map ((\<lambda>line. expect_ok ''Valid peer ID'' (peer_from_str M dec (str_trim line))) \<circ>
      peer_to_base58 M enc) ids = map (\<lambda>m. Inr (id m)) ids"
    using peer_text_roundtrip [OF assms(1,2)] assms(4) by (simp add: expect_ok_def)
  ultimately show ?thesis
    unfolding parse_dataset_def by (simp only: map_map collect_panics_Inr list.map_id)
qed

lemma peer_random_valid:
  assumes laws: "mh_laws M" and "length bs = 32"
  shows "\<exists>m. peer_random M bs = Inr m \<and> valid_peer M m"
proof -
  have "length bs \<le> 64" using assms(2) by simp
  then obtain m where "mh_wrap M 0 bs = Inr m" "mh_code M m = 0" "mh_digest M m = bs"
    using laws unfolding mh_laws_def by blast
  with assms(2) show ?thesis
    by (simp add: peer_random_def multihash_wrap_def expect_ok_def peer_shape_def)
qed

text \<open>
  C35. The data set that a run without one generates and writes can be given to later runs:
  it always gets generated, and reading the written text back yields the same peers in the same
  order.
\<close>

theorem dataset_reused:
  assumes laws: "mh_laws M" and enc: "base58_laws enc dec" and bytes: "\<And>n. length (random_bytes n) = 32"
    and writes: "\<And>text. write_file ''dataset-latest.txt'' text"
    and fresh: "bo_data_set opts = None"
  shows "\<exists>ids text.
     get_peer_ids read_file write_file (peer_to_base58 M enc) (peer_from_str M dec)
       (\<lambda>n. peer_random M (random_bytes n)) opts = Inr (ids, Some text) \<and> length ids = 12288 \<and>
     get_peer_ids (read_file(path := Some text)) write_file (peer_to_base58 M enc) (peer_from_str M dec)
       random' (opts\<lparr>bo_data_set := Some path\<rparr>) = Inr (ids, None)"
proof -
  have total: "\<exists>m. peer_random M (random_bytes n) = Inr m" for n
    using peer_random_valid [OF laws bytes] by metis
  obtain ids where ids: "collect_panics (map (\<lambda>n. peer_random M (random_bytes n)) [0..<1024 * 12]) = Inr ids"
    "length ids = 12288" "\<forall>n < 12288. peer_random M (random_bytes n) = Inr (ids ! n)"
    using collect_panics_total [of "[0..<1024 * 12]" "\<lambda>n. peer_random M (random_bytes n)"] total by auto
  have "valid_peer M m" if m: "m \<in> set ids" for m
  proof -
    obtain n where "n < 12288" "ids ! n = m" using m ids(2) by (metis in_set_conv_nth)
    with ids(3) peer_random_valid [OF laws bytes, of n] show ?thesis by auto
  qed
  then have "parse_dataset (peer_from_str M dec) (dataset_text (peer_to_base58 M enc) ids) = Inr ids"
    using ids(2) by (intro dataset_roundtrip [OF laws enc]) auto
  with ids fresh writes show ?thesis
    by (simp add: get_peer_ids_def Let_def)
qed

text \<open>A text form with the promised laws, over two characters of the alphabet.\<close>

definition unary_encode :: "bytes \<Rightarrow> string" where
  "unary_encode bs = concat (map (\<lambda>b. replicate (unat b) CHR ''1'' @ ''2'') bs)"

fun unary_decode :: "nat \<Rightarrow> string \<Rightarrow> unit + bytes" where
  "unary_decode n [] = Inr []"
| "unary_decode n (c # cs) =
     (if c = CHR ''2'' then map_sum id ((#) (of_nat n)) (unary_decode 0 cs) else unary_decode (Suc n) cs)"

lemma unary_decode_run:
  "unary_decode n (replicate k CHR ''1'' @ CHR ''2'' # cs) = map_sum id ((#) (of_nat (n + k))) (unary_decode 0 cs)"
  by (induction k arbitrary: n) (simp_all add: add.assoc add.left_commute flip: add_Suc_right)

lemma unary_laws: "base58_laws unary_encode (unary_decode 0)"
proof -
  have "unary_decode 0 (unary_encode bs) = Inr bs" for bs
    by (induction bs) (simp_all add: unary_encode_def unary_decode_run)
  moreover have "set (unary_encode bs) \<subseteq> set base58_alphabet" for bs
    by (auto simp: unary_encode_def base58_alphabet_def)
  ultimately show ?thesis
    by (simp add: base58_laws_def)
qed

theorem dataset_reused_witness:
  "\<exists>ids text.
     get_peer_ids Map.empty (\<lambda>_ _. True) (peer_to_base58 sample_ops unary_encode)
       (peer_from_str sample_ops (unary_decode 0)) (\<lambda>n. peer_random sample_ops (replicate 32 (of_nat n)))
       \<lparr>bo_genesis = [], bo_bootnodes = [], bo_num_peers = 1, bo_backend_type = Litep2pType, bo_data_set = None\<rparr> =
       Inr (ids, Some text) \<and> length ids = 12288 \<and>
     get_peer_ids (Map.empty(''set'' := Some text)) (\<lambda>_ _. True) (peer_to_base58 sample_ops unary_encode)
       (peer_from_str sample_ops (unary_decode 0)) (\<lambda>n. peer_random sample_ops [])
       \<lparr>bo_genesis = [], bo_bootnodes = [], bo_num_peers = 1, bo_backend_type = Litep2pType,
        bo_data_set = Some ''set''\<rparr> = Inr (ids, None)"
  using dataset_reused [OF sample_laws unary_laws, where random_bytes = "\<lambda>n. replicate 32 (of_nat n)"
      and write_file = "\<lambda>_ _. True" and read_file = Map.empty and path = "''set''"
      and random' = "\<lambda>n. peer_random sample_ops []"
      and opts = "\<lparr>bo_genesis = [], bo_bootnodes = [], bo_num_peers = 1, bo_backend_type = Litep2pType,
        bo_data_set = None\<rparr>"]
  by (simp del: upt_Suc)

end
