(* ===== verification/Peer_Behaviour.thy ===== *)
theory Peer_Behaviour
  imports Swarm
begin

text \<open>
  The peer behaviour (\<open>subp2p-explorer/src/peer_behavior.rs\<close>): it wraps the ping and identify
  behaviours of libp2p, hands every event on to both, forwards their requests to the swarm,
  and keeps details of the peers. The two wrapped behaviours are states \<open>'pg\<close> and \<open>'id\<close>
  with operations of their own; endpoints \<open>'ep\<close> are only compared.
\<close>

section \<open>The wrapped behaviours\<close>

text \<open>\<open>ToSwarm\<close>: an event generated, a request to the swarm, or a variant the code does not name.\<close>

datatype ('out, 'opts, 'peer, 'hid, 'msg, 'conn, 'lopts, 'lid, 'addr) behaviour_action =
    ActEvent 'out
  | ActDial 'opts
  | ActNotifyHandler 'peer 'hid 'msg
  | ActCloseConnection 'peer 'conn
  | ActListenOn 'lopts
  | ActRemoveListener 'lid
  | ActExternalAddrExpired 'addr
  | ActExternalAddrConfirmed 'addr
  | ActNewExternalAddrCandidate 'addr
  | ActUnknown

datatype ('peer, 'ep, 'addr) behaviour_input =
    EndpointUp 'peer 'ep
  | EndpointDown 'peer 'ep
  | AddrConfirmed 'addr
  | AddrExpired 'addr
  | OtherInput

record ('b, 'peer, 'ep, 'addr, 'c, 'denied, 'h, 'hev, 'act) wrapped =
  w_pending_inbound :: "'c \<Rightarrow> 'addr \<Rightarrow> 'addr \<Rightarrow> 'b \<Rightarrow> ('denied + unit) \<times> 'b"
  w_established_inbound :: "'c \<Rightarrow> 'peer \<Rightarrow> 'addr \<Rightarrow> 'addr \<Rightarrow> 'b \<Rightarrow> ('denied + 'h) \<times> 'b"
  w_established_outbound :: "'c \<Rightarrow> 'peer \<Rightarrow> 'addr \<Rightarrow> bool \<Rightarrow> bool \<Rightarrow> 'b \<Rightarrow> ('denied + 'h) \<times> 'b"
  w_on_swarm_event :: "('peer, 'ep, 'addr) behaviour_input \<Rightarrow> 'b \<Rightarrow> 'b"
  w_on_handler_event :: "'peer \<Rightarrow> 'c \<Rightarrow> 'hev \<Rightarrow> 'b \<Rightarrow> 'b"
  w_poll :: "'b \<Rightarrow> 'act poll \<times> 'b"

section \<open>State\<close>

definition AGENT :: string where
  "AGENT = ''subp2p-agent''"

record 'ep node_details =
  connections :: "'ep list"
  protocol_version :: "string option"
  agent_version :: "string option"
  protocols :: "string hash_set"

definition node_details_new :: "'ep \<Rightarrow> 'ep node_details" where
  "node_details_new connection =
     \<lparr>connections = [connection], protocol_version = None, agent_version = None, protocols = []\<rparr>"

record ('pg, 'id, 'peer, 'ep, 'addr) peer_behaviour =
  pb_ping :: 'pg
  pb_identify :: 'id
  pb_details :: "('peer, 'ep node_details) hash_map"
  pb_external_addresses :: "'addr hash_set"

text \<open>The identify behaviour is built from its protocol, the agent and the cache size.\<close>

definition peer_behaviour_new ::
  "'pg \<Rightarrow> (string \<Rightarrow> 'key \<Rightarrow> string \<Rightarrow> nat \<Rightarrow> 'id) \<Rightarrow> 'key \<Rightarrow> ('pg, 'id, 'peer, 'ep, 'addr) peer_behaviour" where
  "peer_behaviour_new ping_new identify_new local_public_key =
     \<lparr>pb_ping = ping_new, pb_identify = identify_new ''/substrate/1.0'' local_public_key AGENT 0,
      pb_details = [], pb_external_addresses = []\<rparr>"

datatype 'peer peer_info_event = PeerInfoIdentified 'peer "'peer identify_info"

datatype 'peer identify_event =
    IdReceived 'peer "'peer identify_info"
  | IdError 'peer string string  \<comment> \<open>the error as \<open>Display\<close> and as \<open>Debug\<close> give it\<close>
  | IdPushed 'peer
  | IdSent 'peer

section \<open>Connections\<close>

definition pb_handle_pending_inbound where
  "pb_handle_pending_inbound P I c local_addr remote_addr s =
     (case w_pending_inbound P c local_addr remote_addr (pb_ping s) of
        (Inl denied, pg) \<Rightarrow> (Inl denied, s\<lparr>pb_ping := pg\<rparr>)
      | (Inr (), pg) \<Rightarrow>
          (case w_pending_inbound I c local_addr remote_addr (pb_identify s) of
             (r, i) \<Rightarrow> (r, s\<lparr>pb_ping := pg, pb_identify := i\<rparr>)))"

definition pb_handle_pending_outbound :: "'c \<Rightarrow> 'peer option \<Rightarrow> 'addr list \<Rightarrow> 'role \<Rightarrow> 'denied + 'addr list" where
  "pb_handle_pending_outbound c maybe_peer addresses role = Inr []"

text \<open>The handler of a connection is the pair of the two handlers.\<close>

definition pb_handle_established_inbound where
  "pb_handle_established_inbound P I c peer local_addr remote_addr s =
     (case w_established_inbound P c peer local_addr remote_addr (pb_ping s) of
        (Inl denied, pg) \<Rightarrow> (Inl denied, s\<lparr>pb_ping := pg\<rparr>)
      | (Inr ph, pg) \<Rightarrow>
          (case w_established_inbound I c peer local_addr remote_addr (pb_identify s) of
             (r, i) \<Rightarrow> (map_sum id (Pair ph) r, s\<lparr>pb_ping := pg, pb_identify := i\<rparr>)))"

definition pb_handle_established_outbound where
  "pb_handle_established_outbound P I c peer addr role port_use s =
     (case w_established_outbound P c peer addr role port_use (pb_ping s) of
        (Inl denied, pg) \<Rightarrow> (Inl denied, s\<lparr>pb_ping := pg\<rparr>)
      | (Inr ph, pg) \<Rightarrow>
          (case w_established_outbound I c peer addr role port_use (pb_identify s) of
             (r, i) \<Rightarrow> (map_sum id (Pair ph) r, s\<lparr>pb_ping := pg, pb_identify := i\<rparr>)))"

section \<open>Events\<close>

text \<open>What the behaviour itself keeps of an event.\<close>

definition pb_note ::
  "('peer, 'ep, 'addr) behaviour_input \<Rightarrow> ('pg, 'id, 'peer, 'ep, 'addr) peer_behaviour
     \<Rightarrow> ('pg, 'id, 'peer, 'ep, 'addr) peer_behaviour" where
  "pb_note event s =
     (case event of
        EndpointUp peer ep \<Rightarrow>
          s\<lparr>pb_details := map_entry peer (\<lambda>d. d\<lparr>connections := connections d @ [ep]\<rparr>)
              (node_details_new ep) (pb_details s)\<rparr>
      | EndpointDown peer ep \<Rightarrow>
          (case map_of (pb_details s) peer of
             Some d \<Rightarrow>
               s\<lparr>pb_details := AList.update peer
                   (d\<lparr>connections := filter (\<lambda>e. e \<noteq> ep) (connections d)\<rparr>) (pb_details s)\<rparr>
           | None \<Rightarrow> s)
      | AddrConfirmed a \<Rightarrow> s\<lparr>pb_external_addresses := List.insert a (pb_external_addresses s)\<rparr>
      | AddrExpired a \<Rightarrow> s\<lparr>pb_external_addresses := set_remove a (pb_external_addresses s)\<rparr>
      | OtherInput \<Rightarrow> s)"

definition pb_on_swarm_event where
  "pb_on_swarm_event P I event s =
     (let s1 = pb_note event s
      in s1\<lparr>pb_ping := w_on_swarm_event P event (pb_ping s1),
            pb_identify := w_on_swarm_event I event (pb_identify s1)\<rparr>)"

definition pb_on_handler_event where
  "pb_on_handler_event P I peer c event s =
     (case event of
        Inl ev \<Rightarrow> s\<lparr>pb_ping := w_on_handler_event P peer c ev (pb_ping s)\<rparr>
      | Inr ev \<Rightarrow> s\<lparr>pb_identify := w_on_handler_event I peer c ev (pb_identify s)\<rparr>)"

section \<open>Polling\<close>

text \<open>
  A request of a wrapped behaviour as the wrapper hands it on, its message tagged with the
  handler it is for; \<open>None\<close> for an event or an unknown variant, which are not handed on.
\<close>

fun forwarded ::
  "('msg \<Rightarrow> 'msg2) \<Rightarrow> ('out, 'opts, 'peer, 'hid, 'msg, 'conn, 'lopts, 'lid, 'addr) behaviour_action
     \<Rightarrow> ('out2, 'opts, 'peer, 'hid, 'msg2, 'conn, 'lopts, 'lid, 'addr) behaviour_action option" where
  "forwarded tag (ActEvent ev) = None"
| "forwarded tag (ActDial opts) = Some (ActDial opts)"
| "forwarded tag (ActNotifyHandler peer hid msg) = Some (ActNotifyHandler peer hid (tag msg))"
| "forwarded tag (ActCloseConnection peer conn) = Some (ActCloseConnection peer conn)"
| "forwarded tag (ActListenOn opts) = Some (ActListenOn opts)"
| "forwarded tag (ActRemoveListener i) = Some (ActRemoveListener i)"
| "forwarded tag (ActExternalAddrExpired a) = Some (ActExternalAddrExpired a)"
| "forwarded tag (ActExternalAddrConfirmed a) = Some (ActExternalAddrConfirmed a)"
| "forwarded tag (ActNewExternalAddrCandidate a) = Some (ActNewExternalAddrCandidate a)"
| "forwarded tag ActUnknown = None"

text \<open>The first loop: ping is polled until it is pending or has a request. \<open>None\<close> never ends.\<close>

partial_function (option) poll_ping where
  "poll_ping P pg =
     (case w_poll P pg of
        (Pending, pg') \<Rightarrow> Some (Pending, pg')
      | (Ready act, pg') \<Rightarrow>
          (case forwarded Inl act of
             Some request \<Rightarrow> Some (Ready request, pg')
           | None \<Rightarrow> poll_ping P pg'))"

text \<open>Identify information is kept for peers with details and always reported.\<close>

definition pb_identified ::
  "'peer \<Rightarrow> 'peer identify_info \<Rightarrow> ('peer, 'ep node_details) hash_map \<Rightarrow> ('peer, 'ep node_details) hash_map" where
  "pb_identified peer info m =
     (case map_of m peer of
        None \<Rightarrow> m
      | Some d \<Rightarrow>
          AList.update peer
            (d\<lparr>agent_version := Some (info_agent_version info),
               protocol_version := Some (info_protocol_version info),
               protocols := set_extend [] (info_protocols info)\<rparr>) m)"

partial_function (option) poll_identify where
  "poll_identify I i details =
     (case w_poll I i of
        (Pending, i') \<Rightarrow> Some (Pending, i', details)
      | (Ready act, i') \<Rightarrow>
          (case act of
             ActEvent (IdReceived peer info) \<Rightarrow>
               Some (Ready (ActEvent (PeerInfoIdentified peer info)), i', pb_identified peer info details)
           | _ \<Rightarrow>
               (case forwarded Inr act of
                  Some request \<Rightarrow> Some (Ready request, i', details)
                | None \<Rightarrow> poll_identify I i' details)))"

definition pb_poll where
  "pb_poll P I s =
     (case poll_ping P (pb_ping s) of
        None \<Rightarrow> None
      | Some (Ready request, pg) \<Rightarrow> Some (Ready request, s\<lparr>pb_ping := pg\<rparr>)
      | Some (Pending, pg) \<Rightarrow>
          (case poll_identify I (pb_identify s) (pb_details s) of
             None \<Rightarrow> None
           | Some (r, i, details) \<Rightarrow>
               Some (r, s\<lparr>pb_ping := pg, pb_identify := i, pb_details := details\<rparr>)))"

section \<open>What a poll hands on\<close>

text \<open>The state after a number of polls that all yielded something not handed on.\<close>

fun quiet_polls :: "('b \<Rightarrow> 'act poll \<times> 'b) \<Rightarrow> ('act \<Rightarrow> bool) \<Rightarrow> nat \<Rightarrow> 'b \<Rightarrow> 'b option" where
  "quiet_polls poll_b quiet 0 b = Some b"
| "quiet_polls poll_b quiet (Suc n) b =
     (case poll_b b of
        (Ready act, b') \<Rightarrow> if quiet act then quiet_polls poll_b quiet n b' else None
      | (Pending, _) \<Rightarrow> None)"

definition ping_quiet ::
  "('out, 'opts, 'peer, 'hid, 'msg, 'conn, 'lopts, 'lid, 'addr) behaviour_action \<Rightarrow> bool" where
  "ping_quiet act \<longleftrightarrow> (case act of ActEvent _ \<Rightarrow> True | ActUnknown \<Rightarrow> True | _ \<Rightarrow> False)"

definition identify_quiet ::
  "('peer identify_event, 'opts, 'peer, 'hid, 'msg, 'conn, 'lopts, 'lid, 'addr) behaviour_action \<Rightarrow> bool" where
  "identify_quiet act \<longleftrightarrow>
     (case act of
        ActEvent ev \<Rightarrow> (case ev of IdReceived _ _ \<Rightarrow> False | _ \<Rightarrow> True)
      | ActUnknown \<Rightarrow> True
      | _ \<Rightarrow> False)"

lemma forwarded_None: "forwarded tag act = None \<longleftrightarrow> ping_quiet act"
  by (cases act) (simp_all add: ping_quiet_def)

lemma poll_ping_skips:
  "quiet_polls (w_poll P) ping_quiet n pg = Some pg1 \<Longrightarrow> poll_ping P pg = poll_ping P pg1"
proof (induction n arbitrary: pg)
  case (Suc n)
  then obtain act pg' where "w_poll P pg = (Ready act, pg')" "ping_quiet act"
    "quiet_polls (w_poll P) ping_quiet n pg' = Some pg1"
    by (auto split: prod.splits poll.splits if_splits)
  with Suc.IH show ?case
    by (subst poll_ping.simps) (simp add: forwarded_None [THEN iffD2])
qed simp

lemma poll_identify_quiet:
  "w_poll I i = (Ready act, i') \<Longrightarrow> identify_quiet act \<Longrightarrow> poll_identify I i d = poll_identify I i' d"
  by (subst poll_identify.simps) (cases act; auto simp: identify_quiet_def split: identify_event.splits)

lemma poll_identify_skips:
  "quiet_polls (w_poll I) identify_quiet n i = Some i1 \<Longrightarrow> poll_identify I i d = poll_identify I i1 d"
proof (induction n arbitrary: i)
  case (Suc n)
  then obtain act i' where a: "w_poll I i = (Ready act, i')" "identify_quiet act"
    and rest: "quiet_polls (w_poll I) identify_quiet n i' = Some i1"
    by (auto split: prod.splits poll.splits if_splits)
  show ?case
    unfolding poll_identify_quiet [OF a] by (rule Suc.IH [OF rest])
qed simp

lemma poll_identify_loud:
  assumes "w_poll I i = (q, i')" and "case q of Ready act \<Rightarrow> \<not> identify_quiet act | Pending \<Rightarrow> True"
  shows "poll_identify I i d =
     (case q of
        Pending \<Rightarrow> Some (Pending, i', d)
      | Ready (ActEvent (IdReceived peer info)) \<Rightarrow>
          Some (Ready (ActEvent (PeerInfoIdentified peer info)), i', pb_identified peer info d)
      | Ready act \<Rightarrow> map_option (\<lambda>request. (Ready request, i', d)) (forwarded Inr act))"
proof (cases q)
  case (Ready act)
  with assms show ?thesis
    by (subst poll_identify.simps) (cases act; auto simp: identify_quiet_def split: identify_event.splits)
next
  case Pending
  with assms show ?thesis by (subst poll_identify.simps) simp
qed

lemma poll_ping_loud:
  assumes "w_poll P pg = (r, pg')" and "case r of Ready act \<Rightarrow> \<not> ping_quiet act | Pending \<Rightarrow> True"
  shows "poll_ping P pg =
     (case r of
        Pending \<Rightarrow> Some (Pending, pg')
      | Ready act \<Rightarrow> map_option (\<lambda>request. (Ready request, pg')) (forwarded Inl act))"
proof (cases r)
  case (Ready act)
  with assms show ?thesis
    by (subst poll_ping.simps) (cases act; auto simp: ping_quiet_def)
next
  case Pending
  with assms show ?thesis by (subst poll_ping.simps) simp
qed

text \<open>
  C36. A poll returns once ping and identify stop producing events that are not handed on, and
  what it returns is determined: the first request of ping, with its message for the ping
  handler; when ping has none, the first request of identify, for the identify handler, or the
  first peer it identified, whose details are then kept; when neither has any, pending.
\<close>

theorem peer_poll_exact:
  assumes ping: "quiet_polls (w_poll P) ping_quiet n (pb_ping s) = Some pg"
    and identify: "quiet_polls (w_poll I) identify_quiet m (pb_identify s) = Some i"
    and ping_now: "w_poll P pg = (r, pg')" "case r of Ready act \<Rightarrow> \<not> ping_quiet act | Pending \<Rightarrow> True"
    and identify_now: "w_poll I i = (q, i')" "case q of Ready act \<Rightarrow> \<not> identify_quiet act | Pending \<Rightarrow> True"
  shows "pb_poll P I s =
     (case r of
        Ready act \<Rightarrow> map_option (\<lambda>request. (Ready request, s\<lparr>pb_ping := pg'\<rparr>)) (forwarded Inl act)
      | Pending \<Rightarrow>
          (case q of
             Pending \<Rightarrow> Some (Pending, s\<lparr>pb_ping := pg', pb_identify := i'\<rparr>)
           | Ready (ActEvent (IdReceived peer info)) \<Rightarrow>
               Some (Ready (ActEvent (PeerInfoIdentified peer info)),
                 s\<lparr>pb_ping := pg', pb_identify := i', pb_details := pb_identified peer info (pb_details s)\<rparr>)
           | Ready act \<Rightarrow>
               map_option (\<lambda>request. (Ready request, s\<lparr>pb_ping := pg', pb_identify := i'\<rparr>))
                 (forwarded Inr act)))
    \<and> pb_poll P I s \<noteq> None"
proof -
  note steps = poll_ping_skips [OF ping] poll_ping_loud [OF ping_now]
    poll_identify_skips [OF identify, of "pb_details s"] poll_identify_loud [OF identify_now, of "pb_details s"]
  show ?thesis
  proof (cases r)
    case (Ready act)
    then show ?thesis
      using ping_now(2) by (cases act) (simp_all add: pb_poll_def steps ping_quiet_def)
  next
    case r: Pending
    show ?thesis
    proof (cases q)
      case (Ready act)
      then show ?thesis
        using r identify_now(2)
        by (cases act) (auto simp: pb_poll_def steps identify_quiet_def split: identify_event.splits)
    qed (use r in \<open>simp add: pb_poll_def steps\<close>)
  qed
qed

text \<open>A wrapped behaviour that hands out the actions of a list.\<close>

type_synonym 'out sample_action = "('out, nat, nat, nat, nat, nat, nat, nat, nat) behaviour_action"

definition listed_actions :: "('act list, nat, nat, nat, nat, nat, unit, nat, 'act) wrapped" where
  "listed_actions =
     \<lparr>w_pending_inbound = (\<lambda>c l r b. (Inr (), b)), w_established_inbound = (\<lambda>c p l r b. (Inr (), b)),
      w_established_outbound = (\<lambda>c p a role port b. (Inr (), b)), w_on_swarm_event = (\<lambda>e b. b),
      w_on_handler_event = (\<lambda>p c e b. b),
      w_poll = (\<lambda>b. case b of [] \<Rightarrow> (Pending, []) | a # rest \<Rightarrow> (Ready a, rest))\<rparr>"

definition sample_pb ::
  "(unit sample_action list, nat identify_event sample_action list, nat, nat, nat) peer_behaviour" where
  "sample_pb =
     \<lparr>pb_ping = [ActEvent (), ActUnknown], pb_identify = [ActEvent (IdSent 7), ActDial 7],
      pb_details = [], pb_external_addresses = []\<rparr>"

theorem peer_poll_exact_witness:
  "pb_poll listed_actions listed_actions sample_pb =
     Some (Ready (ActDial 7), sample_pb\<lparr>pb_ping := [], pb_identify := []\<rparr>)"
  using peer_poll_exact [of listed_actions 2 sample_pb "[]" listed_actions 1 "[ActDial 7]" Pending "[]"
      "Ready (ActDial 7)" "[]", THEN conjunct1]
  by (simp add: listed_actions_def sample_pb_def ping_quiet_def identify_quiet_def numeral_2_eq_2)

section \<open>What is kept of the peers\<close>

text \<open>A run: events of the swarm, and polls in between.\<close>

fun pb_run where
  "pb_run P I [] s = Some s"
| "pb_run P I (Some event # steps) s = pb_run P I steps (pb_on_swarm_event P I event s)"
| "pb_run P I (None # steps) s =
     (case pb_poll P I s of None \<Rightarrow> None | Some (_, s') \<Rightarrow> pb_run P I steps s')"

definition swarm_events_of :: "'e option list \<Rightarrow> 'e list" where
  "swarm_events_of steps = map the (filter (\<lambda>x. x \<noteq> None) steps)"

text \<open>Whether the last of two opposite events is the first one.\<close>

fun last_is :: "'e \<Rightarrow> 'e \<Rightarrow> 'e list \<Rightarrow> bool \<Rightarrow> bool" where
  "last_is on off [] was = was"
| "last_is on off (e # es) was = last_is on off es (if e = on then True else if e = off then False else was)"

text \<open>The endpoints recorded for a peer.\<close>

definition endpoints_of :: "('peer, 'ep node_details) hash_map \<Rightarrow> 'peer \<Rightarrow> 'ep set" where
  "endpoints_of m p = (case map_of m p of None \<Rightarrow> {} | Some d \<Rightarrow> set (connections d))"

definition details_view :: "('peer, 'ep node_details) hash_map \<Rightarrow> ('peer \<Rightarrow> 'ep set) \<times> 'peer set" where
  "details_view m = (endpoints_of m, fst ` set m)"

lemma pb_identified_view: "details_view (pb_identified p info m) = details_view m"
  by (auto simp: details_view_def pb_identified_def endpoints_of_def update_conv' fun_eq_iff keys_update
      dest: map_of_eq_Some_keys split: option.splits)

lemma poll_identify_view:
  assumes "poll_identify I i d = Some r"
  shows "details_view (snd (snd r)) = details_view d"
  using assms
proof (induction rule: poll_identify.raw_induct [rotated, consumes 1, case_names step])
  case (step loop I i d r)
  then show ?case
    by (auto simp: pb_identified_view split: prod.splits poll.splits behaviour_action.splits
        identify_event.splits option.splits)
qed

lemma pb_poll_view:
  assumes "pb_poll P I s = Some (r, s')"
  shows "details_view (pb_details s') = details_view (pb_details s) \<and>
         pb_external_addresses s' = pb_external_addresses s"
  using assms
  by (auto simp: pb_poll_def split: option.splits prod.splits poll.splits dest!: poll_identify_view)

lemma pb_note_view:
  "e \<in> endpoints_of (pb_details (pb_note ev s)) p \<longleftrightarrow>
     (if ev = EndpointUp p e then True else if ev = EndpointDown p e then False
      else e \<in> endpoints_of (pb_details s) p)"
  "fst ` set (pb_details (pb_note ev s)) =
     fst ` set (pb_details s) \<union> (case ev of EndpointUp q _ \<Rightarrow> {q} | _ \<Rightarrow> {})"
  "a \<in> set (pb_external_addresses (pb_note ev s)) \<longleftrightarrow>
     (if ev = AddrConfirmed a then True else if ev = AddrExpired a then False
      else a \<in> set (pb_external_addresses s))"
  by (auto simp: pb_note_def endpoints_of_def node_details_new_def map_of_map_entry update_conv'
      keys_map_entry keys_update dest: map_of_eq_Some_keys split: behaviour_input.splits option.splits)

text \<open>
  What the behaviour keeps, over any sequence of swarm events and polls. A peer has details
  from its first connection on and for ever. An endpoint is recorded exactly when the last event
  about it was its opening, so closing one of two equal endpoints forgets both. An external address
  is recorded exactly when the last event about it was its confirmation.
\<close>

theorem peer_details_track:
  assumes "pb_run P I steps s = Some s'"
  shows "fst ` set (pb_details s') =
           fst ` set (pb_details s) \<union> {p. \<exists>e. EndpointUp p e \<in> set (swarm_events_of steps)} \<and>
         (\<forall>p e. e \<in> endpoints_of (pb_details s') p \<longleftrightarrow>
            last_is (EndpointUp p e) (EndpointDown p e) (swarm_events_of steps)
              (e \<in> endpoints_of (pb_details s) p)) \<and>
         (\<forall>a. a \<in> set (pb_external_addresses s') \<longleftrightarrow>
            last_is (AddrConfirmed a) (AddrExpired a) (swarm_events_of steps)
              (a \<in> set (pb_external_addresses s)))"
  using assms
proof (induction P I steps s rule: pb_run.induct)
  case (2 P I event steps s)
  let ?s1 = "pb_on_swarm_event P I event s"
  have "pb_details ?s1 = pb_details (pb_note event s)"
    "pb_external_addresses ?s1 = pb_external_addresses (pb_note event s)"
    by (simp_all add: pb_on_swarm_event_def Let_def)
  moreover have "swarm_events_of (Some event # steps) = event # swarm_events_of steps"
    by (simp add: swarm_events_of_def)
  moreover have "{p. \<exists>e. EndpointUp p e \<in> set (event # swarm_events_of steps)} =
      (case event of EndpointUp q _ \<Rightarrow> {q} | _ \<Rightarrow> {}) \<union> {p. \<exists>e. EndpointUp p e \<in> set (swarm_events_of steps)}"
    by (cases event) auto
  ultimately show ?case
    using "2.IH" "2.prems" by (simp add: pb_note_view Un_assoc)
next
  case (3 P I steps s)
  then obtain r s1 where poll: "pb_poll P I s = Some (r, s1)" and rest: "pb_run P I steps s1 = Some s'"
    by (auto split: option.splits)
  have "swarm_events_of (None # steps) = swarm_events_of steps"
    by (simp add: swarm_events_of_def)
  moreover have "endpoints_of (pb_details s1) = endpoints_of (pb_details s)"
    "fst ` set (pb_details s1) = fst ` set (pb_details s)"
    "pb_external_addresses s1 = pb_external_addresses s"
    using pb_poll_view [OF poll] by (simp_all add: details_view_def)
  moreover note "3.IH" [OF poll refl rest]
  ultimately show ?case by simp
qed (simp add: swarm_events_of_def)

theorem peer_details_track_witness:
  "\<exists>s'. pb_run listed_actions listed_actions
       [Some (EndpointUp 1 5), Some (EndpointUp 1 5), None, Some (EndpointDown 1 5)]
       (sample_pb\<lparr>pb_ping := [], pb_identify := []\<rparr>) = Some s' \<and>
     fst ` set (pb_details s') = {1} \<and> endpoints_of (pb_details s') 1 = {}"
proof -
  let ?steps = "[Some (EndpointUp 1 5), Some (EndpointUp 1 5), None, Some (EndpointDown 1 5)]
    :: (nat, nat, nat) behaviour_input option list"
  let ?s = "sample_pb\<lparr>pb_ping := [], pb_identify := []\<rparr>"
  have run: "\<exists>s'. pb_run listed_actions listed_actions ?steps ?s = Some s'"
    by (simp add: pb_poll_def pb_on_swarm_event_def Let_def pb_note_def sample_pb_def listed_actions_def
        poll_ping.simps [of listed_actions, unfolded listed_actions_def]
        poll_identify.simps [of listed_actions, unfolded listed_actions_def] split: option.splits)
  then obtain s' where s': "pb_run listed_actions listed_actions ?steps ?s = Some s'" by blast
  have "swarm_events_of ?steps = [EndpointUp 1 5, EndpointUp 1 5, EndpointDown 1 5]"
    by (simp add: swarm_events_of_def)
  moreover have "pb_details ?s = []" by (simp add: sample_pb_def)
  ultimately have "fst ` set (pb_details s') = {1} \<and> endpoints_of (pb_details s') 1 = {}"
    using peer_details_track [OF s'] by (auto simp: endpoints_of_def [of "[]"] split: if_splits)
  with s' show ?thesis by blast
qed

end
