(* ===== verification/Peer_Commands.thy ===== *)
theory Peer_Commands
  imports Peer_Behaviour Swarm_Builder Notifications Rpc Library_Swarm
begin

text \<open>
  The commands that talk to given peers: \<open>verify-bootnodes\<close> (\<open>cli/src/commands/bootnodes.rs\<close>
  and its options in \<open>main.rs\<close>), \<open>dial-peer\<close> (\<open>dial_peer.rs\<close>) and
  \<open>send-extrinisic\<close> (\<open>extrinsics.rs\<close>). The first two run a swarm with identify alone. The
  events a swarm delivers before the time limit are a list; parsers, dialing and the printing
  of peers and addresses are arguments. A command yields the lines it prints.
\<close>

section \<open>Swarms that identify\<close>

record ('peer, 'e, 'sw) identify_ops =
  id_build :: "swarm_settings \<Rightarrow> build_step + 'sw"
  id_dial :: "'peer multiaddr \<Rightarrow> 'sw \<Rightarrow> 'e option \<times> 'sw"

text \<open>How peers and addresses are printed.\<close>

record 'peer printing =
  pr_peer :: "'peer \<Rightarrow> string"
  pr_peer_debug :: "'peer \<Rightarrow> string"
  pr_addr :: "'peer multiaddr \<Rightarrow> string"

definition bootnodes_swarm :: "('peer, 'e, 'sw) identify_ops \<Rightarrow> panic + 'sw" where
  "bootnodes_swarm K = identify_swarm (id_build K) AGENT"

definition dial_peer_swarm :: "('peer, 'e, 'sw) identify_ops \<Rightarrow> panic + 'sw" where
  "dial_peer_swarm K = identify_swarm (id_build K) AGENT"

section \<open>Verifying bootnodes\<close>

datatype 'peer identify_swarm_event =
    FromIdentify "'peer identify_event"
  | ConnectionFailed string
  | OtherIdentifySwarmEvent

record 'peer bootnodes =
  bn_bootnodes :: "('peer, 'peer multiaddr list) hash_map"
  bn_genesis :: "string option"
  bn_pending :: "'peer hash_set"
  bn_identify_data :: "('peer, 'peer identify_info) hash_map"

definition bootnodes_new ::
  "('peer, 'peer multiaddr list) hash_map \<Rightarrow> string option \<Rightarrow> 'peer bootnodes" where
  "bootnodes_new nodes genesis =
     \<lparr>bn_bootnodes = nodes, bn_genesis = genesis, bn_pending = keys nodes, bn_identify_data = []\<rparr>"

text \<open>Dialing every address, up to the first one that fails.\<close>

fun dial_all ::
  "('peer, 'e, 'sw) identify_ops \<Rightarrow> 'peer printing \<Rightarrow> 'peer multiaddr list \<Rightarrow> 'sw
     \<Rightarrow> string list \<times> 'e option \<times> 'sw" where
  "dial_all K P [] sw = ([], None, sw)"
| "dial_all K P (a # as) sw =
     (case id_dial K a sw of
        (Some e, sw') \<Rightarrow> ([], Some e, sw')
      | (None, sw') \<Rightarrow>
          (case dial_all K P as sw' of (ls, r) \<Rightarrow> ((''Dialed '' @ pr_addr P a) # ls, r)))"

fun bn_handle :: "'peer identify_swarm_event \<Rightarrow> 'peer bootnodes \<Rightarrow> 'peer bootnodes" where
  "bn_handle (FromIdentify (IdReceived peer info)) s =
     s\<lparr>bn_identify_data := AList.update peer info (bn_identify_data s),
       bn_pending := set_remove peer (bn_pending s)\<rparr>"
| "bn_handle _ s = s"

fun bn_lines :: "'peer printing \<Rightarrow> 'peer identify_swarm_event \<Rightarrow> string list" where
  "bn_lines P (FromIdentify (IdSent peer)) = [''Sent identify info to '' @ pr_peer_debug P peer]"
| "bn_lines P (FromIdentify (IdPushed peer)) = [''Pushed identify info to '' @ pr_peer_debug P peer]"
| "bn_lines P (FromIdentify (IdError peer _ error)) =
     [''Error sending identify info to '' @ pr_peer_debug P peer @ '': '' @ error]"
| "bn_lines P _ = []"

text \<open>The loop over the events that arrive in time.\<close>

fun bn_loop ::
  "'peer printing \<Rightarrow> 'peer identify_swarm_event list \<Rightarrow> 'peer bootnodes \<Rightarrow> string list \<times> 'peer bootnodes" where
  "bn_loop P [] s = ([], s)"
| "bn_loop P (ev # evs) s =
     (if bn_pending s = [] then ([], s)
      else (case bn_loop P evs (bn_handle ev s) of (ls, s') \<Rightarrow> (bn_lines P ev @ ls, s')))"

definition bn_verify ::
  "('peer, 'e, 'sw) identify_ops \<Rightarrow> 'peer printing \<Rightarrow>
     (('peer, 'peer multiaddr list) hash_map \<Rightarrow> ('peer, 'peer multiaddr list) hash_map)
     \<Rightarrow> 'peer identify_swarm_event list \<Rightarrow> 'peer bootnodes
     \<Rightarrow> panic + string list \<times> 'e option \<times> 'peer bootnodes" where
  "bn_verify K P order evs s =
     (case bootnodes_swarm K of
        Inl e \<Rightarrow> Inl e
      | Inr sw \<Rightarrow>
          (case dial_all K P (concat (values_of (order (bn_bootnodes s)))) sw of
             (dialed, Some e, _) \<Rightarrow> Inr (dialed, Some e, s)
           | (dialed, None, _) \<Rightarrow>
               (case bn_loop P evs s of (ls, s') \<Rightarrow> Inr (dialed @ ls, None, s'))))"

definition is_peer_valid :: "'peer bootnodes \<Rightarrow> 'peer \<Rightarrow> bool" where
  "is_peer_valid s peer =
     (case map_of (bn_identify_data s) peer of
        None \<Rightarrow> False
      | Some info \<Rightarrow>
          (case bn_genesis s of
             None \<Rightarrow> True
           | Some genesis \<Rightarrow> list_ex (\<lambda>proto. str_contains proto genesis) (info_protocols info)))"

text \<open>The nodes by peer, in the order in which their peers first appear.\<close>

definition group_node ::
  "'peer \<times> 'peer multiaddr \<Rightarrow> ('peer, 'peer multiaddr list) hash_map
     \<Rightarrow> ('peer, 'peer multiaddr list) hash_map" where
  "group_node node m = map_entry (fst node) (\<lambda>as. as @ [snd node]) [snd node] m"

text \<open>A group of the report: nothing at all when it is empty.\<close>

definition report_group ::
  "('peer multiaddr \<Rightarrow> string) \<Rightarrow> string \<Rightarrow> ('peer \<times> 'peer multiaddr list) list \<Rightarrow> string list" where
  "report_group show_addr title nodes =
     (if nodes = [] then []
      else title # concat (map (\<lambda>(_, addrs). map (\<lambda>a. '' '' @ show_addr a) addrs) nodes) @ [[]])"

text \<open>
  The command: the failure of a dial and the end of the time are both ignored. \<open>order\<close> is the
  iteration order of the nodes, \<open>order'\<close> that of their copy in the state machine.
\<close>

definition verify_bootnodes ::
  "(string \<Rightarrow> 'peer multiaddr option) \<Rightarrow> (string \<Rightarrow> 'peer option) \<Rightarrow> ('peer, 'e, 'sw) identify_ops
     \<Rightarrow> 'peer printing
     \<Rightarrow> (('peer, 'peer multiaddr list) hash_map \<Rightarrow> ('peer, 'peer multiaddr list) hash_map)
     \<Rightarrow> (('peer, 'peer multiaddr list) hash_map \<Rightarrow> ('peer, 'peer multiaddr list) hash_map)
     \<Rightarrow> 'peer identify_swarm_event list \<Rightarrow> string list \<Rightarrow> string option \<Rightarrow> panic + string list" where
  "verify_bootnodes parse_multiaddr parse_peer K P order order' evs bootnodes_text genesis =
     (case parse_bootnodes parse_multiaddr parse_peer bootnodes_text of
        Inl e \<Rightarrow> Inl e
      | Inr parsed \<Rightarrow>
          (let nodes = fold group_node parsed []
           in case bn_verify K P order' evs (bootnodes_new nodes genesis) of
                Inl e \<Rightarrow> Inl e
              | Inr (ls, _, state) \<Rightarrow>
                  Inr (ls @ [] #
                    report_group (pr_addr P) ''Valid bootnodes:''
                      (filter (\<lambda>(peer, _). is_peer_valid state peer) (order nodes)) @
                    report_group (pr_addr P) ''Invalid bootnodes:''
                      (filter (\<lambda>(peer, _). \<not> is_peer_valid state peer) (order nodes)))))"

text \<open>The options: the nodes come from the command line or from a chain specification.\<close>

datatype 'e bootnodes_error =
    Incompatible | FileError 'e | InvalidChainSpec string | MissingBootNodes | NotAnArray | NotAString

record bootnodes_opts =
  bno_bootnodes :: "string list"
  bno_genesis :: "string option"
  bno_chain_spec :: "string option"

fun json_strings :: "json list \<Rightarrow> 'e bootnodes_error + string list" where
  "json_strings [] = Inr []"
| "json_strings (j # js) =
     (case json_as_str j of
        None \<Rightarrow> Inl NotAString
      | Some x \<Rightarrow> map_sum id ((#) x) (json_strings js))"

definition opts_bootnodes ::
  "(string \<Rightarrow> 'e + bytes) \<Rightarrow> (bytes \<Rightarrow> string + json) \<Rightarrow> bootnodes_opts
     \<Rightarrow> 'e bootnodes_error + string list" where
  "opts_bootnodes read_file parse_json opts =
     (case bno_chain_spec opts of
        None \<Rightarrow> Inr (bno_bootnodes opts)
      | Some path \<Rightarrow>
          if bno_bootnodes opts \<noteq> [] then Inl Incompatible
          else (case read_file path of
                  Inl e \<Rightarrow> Inl (FileError e)
                | Inr raw \<Rightarrow>
                    (case parse_json raw of
                       Inl e \<Rightarrow> Inl (InvalidChainSpec e)
                     | Inr spec \<Rightarrow>
                         (case json_get ''bootNodes'' spec of
                            None \<Rightarrow> Inl MissingBootNodes
                          | Some field \<Rightarrow>
                              (case json_as_array field of
                                 None \<Rightarrow> Inl NotAnArray
                               | Some js \<Rightarrow> json_strings js)))))"

definition verify_bootnodes_opts ::
  "(string \<Rightarrow> 'e2 + bytes) \<Rightarrow> (bytes \<Rightarrow> string + json)
     \<Rightarrow> (string \<Rightarrow> 'peer multiaddr option) \<Rightarrow> (string \<Rightarrow> 'peer option) \<Rightarrow> ('peer, 'e, 'sw) identify_ops
     \<Rightarrow> 'peer printing
     \<Rightarrow> (('peer, 'peer multiaddr list) hash_map \<Rightarrow> ('peer, 'peer multiaddr list) hash_map)
     \<Rightarrow> (('peer, 'peer multiaddr list) hash_map \<Rightarrow> ('peer, 'peer multiaddr list) hash_map)
     \<Rightarrow> 'peer identify_swarm_event list \<Rightarrow> bootnodes_opts \<Rightarrow> panic + ('e2 bootnodes_error + string list)" where
  "verify_bootnodes_opts read_file parse_json pm pp K P order order' evs opts =
     (case opts_bootnodes read_file parse_json opts of
        Inl e \<Rightarrow> Inr (Inl e)
      | Inr nodes \<Rightarrow>
          map_sum id Inr (verify_bootnodes pm pp K P order order' evs nodes (bno_genesis opts)))"

section \<open>Dialing a peer\<close>

definition identify_lines ::
  "'peer printing \<Rightarrow> 'peer \<Rightarrow> 'peer identify_info \<Rightarrow> string list" where
  "identify_lines P peer info =
     [[], ''Peer: '' @ pr_peer P peer,
      ''  Agent Version:    '' @ info_agent_version info,
      ''  Protocol Version: '' @ info_protocol_version info,
      ''  Listen Addresses:''] @
     map (\<lambda>a. ''    '' @ pr_addr P a) (info_listen_addrs info) @
     [''  Observed Address: '' @ pr_addr P (info_observed_addr info), ''  Protocols:''] @
     map (\<lambda>p. ''    '' @ p) (info_protocols info)"

text \<open>The loop: the lines printed, the identify messages received, whether it ended in time.\<close>

fun dial_loop ::
  "'peer printing \<Rightarrow> nat \<Rightarrow> 'peer identify_swarm_event list \<Rightarrow> nat
     \<Rightarrow> string list \<times> nat \<times> bool" where
  "dial_loop P num [] received = ([], received, False)"
| "dial_loop P num (ev # evs) received =
     (case ev of
        FromIdentify (IdReceived peer info) \<Rightarrow>
          (let received' = received + 1
           in if num \<le> received' then (identify_lines P peer info, received', True)
              else (case dial_loop P num evs received' of
                      (ls, r, ended) \<Rightarrow> (identify_lines P peer info @ ls, r, ended)))
      | FromIdentify (IdError peer error _) \<Rightarrow>
          (case dial_loop P num evs received of
             (ls, r, ended) \<Rightarrow>
               ([[], ''Error identifying '' @ pr_peer P peer @ '': '' @ error] @ ls, r, ended))
      | ConnectionFailed error \<Rightarrow>
          (case dial_loop P num evs received of
             (ls, r, ended) \<Rightarrow> ((''Connection error: '' @ error) # ls, r, ended))
      | _ \<Rightarrow> dial_loop P num evs received)"

text \<open>Parsing and dialing the addresses: the lines printed before the first failure, and it.\<close>

fun dial_addresses ::
  "(string \<Rightarrow> 'e + 'peer multiaddr) \<Rightarrow> ('peer, 'e, 'sw) identify_ops \<Rightarrow> 'peer printing
     \<Rightarrow> string list \<Rightarrow> 'sw \<Rightarrow> string list \<times> 'e option \<times> 'sw" where
  "dial_addresses parse K P [] sw = ([], None, sw)"
| "dial_addresses parse K P (a # as) sw =
     (case parse a of
        Inl e \<Rightarrow> ([], Some e, sw)
      | Inr addr \<Rightarrow>
          (case id_dial K addr sw of
             (Some e, sw') \<Rightarrow> ([], Some e, sw')
           | (None, sw') \<Rightarrow>
               (case dial_addresses parse K P as sw' of
                  (ls, r) \<Rightarrow> ((''Dialing '' @ pr_addr P addr) # ls, r))))"

text \<open>The whole command: the lines printed, and the error it ends with if there is one.\<close>

definition dial_peer ::
  "(string \<Rightarrow> 'e + 'peer multiaddr) \<Rightarrow> ('peer, 'e, 'sw) identify_ops \<Rightarrow> 'peer printing \<Rightarrow> string list
     \<Rightarrow> nat \<Rightarrow> 'peer identify_swarm_event list \<Rightarrow> panic + string list \<times> 'e option" where
  "dial_peer parse K P addresses timeout evs =
     (case dial_peer_swarm K of
        Inl e \<Rightarrow> Inl e
      | Inr sw \<Rightarrow>
          (case dial_addresses parse K P addresses sw of
             (dialing, Some e, _) \<Rightarrow> Inr (dialing, Some e)
           | (dialing, None, _) \<Rightarrow>
               (case dial_loop P (length addresses) evs 0 of
                  (ls, received, ended) \<Rightarrow>
                    Inr (dialing @ ls @
                      (if ended then []
                       else [[], ''Timeout after '' @ show_nat timeout @ ''s '' @
                         map char_of [0xE2, 0x80, 0x94 :: nat] @
                         '' received identify from '' @ show_nat received @ ''/'' @
                         show_nat (length addresses) @ '' address(es).'']), None))))"

section \<open>Submitting an extrinsic\<close>

definition TRANSACTIONS_INDEX :: nat where
  "TRANSACTIONS_INDEX = 1"

text \<open>The senders of the open protocols, the notifications left, and what was sent on which sender.\<close>

record ('peer, 'tx) submission =
  protocol_senders :: "('peer \<times> nat, 'tx) hash_map"
  close_after :: nat
  submitted :: "('tx \<times> bytes) list"

definition submission_new :: "('peer, 'tx) submission" where
  "submission_new = \<lparr>protocol_senders = [], close_after = 30, submitted = []\<rparr>"

text \<open>One event: \<open>None\<close> leaves the loop. Events of other kinds are ignored.\<close>

definition submit_event ::
  "bytes \<Rightarrow> ('peer, 'tx) notifications_to_swarm option \<Rightarrow> ('peer, 'tx) submission
     \<Rightarrow> ('peer, 'tx) submission option" where
  "submit_event payload event s =
     (case event of
        Some (CustomProtocolOpen peer index handshake inbound sender) \<Rightarrow>
          Some (s\<lparr>protocol_senders := AList.update (peer, index) sender (protocol_senders s)\<rparr>)
      | Some (CustomProtocolClosed peer index) \<Rightarrow> Some s
      | Some (SwarmNotification peer index message) \<Rightarrow>
          if close_after s = 0 then None
          else (let s1 = s\<lparr>close_after := close_after s - 1\<rparr>
                in case map_of (protocol_senders s1) (peer, TRANSACTIONS_INDEX) of
                     Some sender \<Rightarrow> Some (s1\<lparr>submitted := submitted s1 @ [(sender, payload)]\<rparr>)
                   | None \<Rightarrow> Some s1)
      | None \<Rightarrow> Some s)"

text \<open>The loop over the events: whether it was left, and the state then.\<close>

fun submit_loop ::
  "bytes \<Rightarrow> ('peer, 'tx) notifications_to_swarm option list \<Rightarrow> ('peer, 'tx) submission
     \<Rightarrow> bool \<times> ('peer, 'tx) submission" where
  "submit_loop payload [] s = (False, s)"
| "submit_loop payload (ev # evs) s =
     (case submit_event payload ev s of None \<Rightarrow> (True, s) | Some s' \<Rightarrow> submit_loop payload evs s')"

text \<open>
  The swarm is built with a query timeout of 15 seconds, and \<open>start\<close> runs it; a failure of that
  or of the decoding ends the command. Before the loop the peers closest to the local one are
  asked for.
\<close>

definition submit_extrinsics ::
  "('peer, 'q, 'sw) swarm_ops \<Rightarrow> (string \<Rightarrow> 'peer multiaddr option) \<Rightarrow> (string \<Rightarrow> 'peer option)
     \<Rightarrow> (string \<Rightarrow> 'e + bytes) \<Rightarrow> (bytes \<Rightarrow> panic + block_hash) \<Rightarrow> ('peer built_swarm \<Rightarrow> 'sw) \<Rightarrow> 'peer
     \<Rightarrow> string \<Rightarrow> string list \<Rightarrow> string \<Rightarrow> ('peer, 'tx) notifications_to_swarm option list
     \<Rightarrow> panic + ('e + 'sw \<times> bool \<times> ('peer, 'tx) submission)" where
  "submit_extrinsics K pm pp hex_decode from_slice start local_peer_id genesis bootnodes extrinsics evs =
     (case build_swarm pm pp hex_decode from_slice local_peer_id genesis bootnodes 15 of
        Inl p \<Rightarrow> Inl p
      | Inr (Inl e) \<Rightarrow> Inr (Inl e)
      | Inr (Inr swarm) \<Rightarrow>
          (case hex_decode (trim_start_matches ''0x'' extrinsics) of
             Inl e \<Rightarrow> Inr (Inl e)
           | Inr payload \<Rightarrow>
               Inr (Inr (snd (kad_get_closest_peers K local_peer_id (start swarm)),
                 submit_loop payload evs submission_new))))"

section \<open>Which bootnodes are valid\<close>

text \<open>The identify information a peer sent, and whether it satisfies the command.\<close>

fun identify_answers :: "'peer identify_swarm_event list \<Rightarrow> 'peer \<Rightarrow> 'peer identify_info list" where
  "identify_answers [] p = []"
| "identify_answers (FromIdentify (IdReceived q info) # evs) p = (if q = p then info # identify_answers evs p else identify_answers evs p)"
| "identify_answers (_ # evs) p = identify_answers evs p"

definition info_ok :: "string option \<Rightarrow> 'peer identify_info \<Rightarrow> bool" where
  "info_ok genesis info \<longleftrightarrow>
     (case genesis of None \<Rightarrow> True | Some g \<Rightarrow> \<exists>proto \<in> set (info_protocols info). sublist g proto)"

lemma is_peer_valid_iff:
  "is_peer_valid s p \<longleftrightarrow> (\<exists>info. map_of (bn_identify_data s) p = Some info \<and> info_ok (bn_genesis s) info)"
  by (auto simp: is_peer_valid_def info_ok_def list_ex_iff str_contains_iff split: option.splits)

lemma bn_handle_cases:
  obtains (received) q info where "ev = FromIdentify (IdReceived q info)"
  | (other) "\<And>s. bn_handle ev s = s" "\<And>evs p. identify_answers (ev # evs) p = identify_answers evs p"
proof (cases ev)
  case (FromIdentify ie)
  then show thesis using that by (cases ie) auto
qed (use that in auto)

lemma bn_loop_Cons:
  "snd (bn_loop P (ev # evs) s) = (if bn_pending s = [] then s else snd (bn_loop P evs (bn_handle ev s)))"
  by (simp add: case_prod_beta)

lemma bn_loop_genesis: "bn_genesis (snd (bn_loop P evs s)) = bn_genesis s"
proof (induction evs arbitrary: s)
  case (Cons ev evs)
  then show ?case
    by (cases ev rule: bn_handle_cases) (auto simp: bn_loop_Cons simp del: bn_loop.simps(2))
qed simp

lemma bn_loop_known:
  "map_of (bn_identify_data (snd (bn_loop P evs s))) p = Some info \<Longrightarrow>
     map_of (bn_identify_data s) p = Some info \<or> info \<in> set (identify_answers evs p)"
proof (induction evs arbitrary: s)
  case (Cons ev evs)
  then show ?case
    by (cases ev rule: bn_handle_cases) (fastforce simp: bn_loop_Cons update_conv' simp del: bn_loop.simps(2) split: if_splits)+
qed simp

lemma bn_loop_answered:
  "(p \<in> set (bn_pending s) \<and> identify_answers evs p \<noteq> []) \<or> map_of (bn_identify_data s) p \<noteq> None \<Longrightarrow>
     map_of (bn_identify_data (snd (bn_loop P evs s))) p \<noteq> None"
proof (induction evs arbitrary: s)
  case (Cons ev evs)
  then show ?case
  proof (cases ev rule: bn_handle_cases)
    case (received q info)
    with Cons show ?thesis by (cases "q = p") (auto simp: bn_loop_Cons update_conv' simp del: bn_loop.simps(2))
  next
    case other
    with Cons show ?thesis by (auto simp: bn_loop_Cons simp del: bn_loop.simps(2))
  qed
qed simp

lemma group_nodes:
  "map_of (fold group_node parsed m) p =
     (case (map_of m p, map snd (filter (\<lambda>n. fst n = p) parsed)) of
        (None, []) \<Rightarrow> None
      | (old, new) \<Rightarrow> Some ((case old of None \<Rightarrow> [] | Some as \<Rightarrow> as) @ new))"
proof (induction parsed arbitrary: m)
  case (Cons n parsed)
  then show ?case
    by (auto simp: group_node_def map_of_map_entry split: option.splits list.splits)
qed (simp split: option.splits)

lemma wf_group_nodes: "wf_map m \<Longrightarrow> wf_map (fold group_node parsed m)"
  by (induction parsed arbitrary: m) (auto simp: group_node_def)

lemma grouped_node:
  "(p, as) \<in> set (fold group_node parsed []) \<longleftrightarrow>
     as \<noteq> [] \<and> as = map snd (filter (\<lambda>n. fst n = p) parsed)"
proof -
  have "(p, as) \<in> set (fold group_node parsed []) \<longleftrightarrow> map_of (fold group_node parsed []) p = Some as"
    using wf_group_nodes [of "[]" parsed] by (simp add: map_of_eq_Some_iff)
  then show ?thesis
    by (auto simp: group_nodes split: list.splits)
qed

lemma grouped_peers: "fst ` set (fold group_node parsed []) = fst ` set parsed"
proof
  show "fst ` set (fold group_node parsed []) \<subseteq> fst ` set parsed"
    by (auto simp: grouped_node filter_empty_conv)
  show "fst ` set parsed \<subseteq> fst ` set (fold group_node parsed [])"
  proof
    fix p assume "p \<in> fst ` set parsed"
    then have "(p, map snd (filter (\<lambda>n. fst n = p) parsed)) \<in> set (fold group_node parsed [])"
      by (auto simp: grouped_node filter_empty_conv)
    then show "p \<in> fst ` set (fold group_node parsed [])" by force
  qed
qed

lemma permuting_wf_map:
  assumes "permuting order"
  shows "wf_map (order m) = wf_map m"
  using assms unfolding permuting_def by (metis mset_eq_imp_distinct_iff mset_map)

text \<open>The dials the command makes, in the order of its copy of the nodes; whether one fails.\<close>

definition some_dial_fails ::
  "('peer, 'e, 'sw) identify_ops \<Rightarrow> 'peer printing
     \<Rightarrow> (('peer, 'peer multiaddr list) hash_map \<Rightarrow> ('peer, 'peer multiaddr list) hash_map)
     \<Rightarrow> ('peer \<times> 'peer multiaddr) list \<Rightarrow> 'sw \<Rightarrow> bool" where
  "some_dial_fails K P order parsed sw \<longleftrightarrow>
     fst (snd (dial_all K P (concat (values_of (order (fold group_node parsed [])))) sw)) \<noteq> None"

lemma bn_verify_state:
  assumes "bootnodes_swarm K = Inr sw"
  shows "\<exists>ls failed. bn_verify K P order evs (bootnodes_new (fold group_node parsed []) genesis) =
      Inr (ls, failed, if some_dial_fails K P order parsed sw
        then bootnodes_new (fold group_node parsed []) genesis
        else snd (bn_loop P evs (bootnodes_new (fold group_node parsed []) genesis)))"
  by (auto simp: bn_verify_def assms bootnodes_new_def some_dial_fails_def split: prod.splits option.splits)

lemma bn_loop_valid:
  assumes "p \<in> fst ` set parsed"
    and state: "state = snd (bn_loop P evs (bootnodes_new (fold group_node parsed []) genesis))"
  shows "is_peer_valid state p \<Longrightarrow> \<exists>info \<in> set (identify_answers evs p). info_ok genesis info"
    and "identify_answers evs p \<noteq> [] \<Longrightarrow> \<forall>info \<in> set (identify_answers evs p). info_ok genesis info \<Longrightarrow>
      is_peer_valid state p"
proof -
  let ?s = "bootnodes_new (fold group_node parsed []) genesis"
  have facts: "bn_genesis state = genesis" "bn_identify_data ?s = []"
    by (simp_all add: state bn_loop_genesis bootnodes_new_def)
  have pending: "p \<in> set (bn_pending ?s)"
    using assms(1) by (simp add: bootnodes_new_def grouped_peers)
  show "is_peer_valid state p \<Longrightarrow> \<exists>info \<in> set (identify_answers evs p). info_ok genesis info"
    using bn_loop_known [of P evs ?s p] facts state by (auto simp: is_peer_valid_iff)
  show "is_peer_valid state p" if "identify_answers evs p \<noteq> []"
    "\<forall>info \<in> set (identify_answers evs p). info_ok genesis info"
    using bn_loop_known [of P evs ?s p] bn_loop_answered [of p ?s evs P] pending that facts state
    by (auto simp: is_peer_valid_iff)
qed

text \<open>
  C37. The report of \<open>verify-bootnodes\<close>, after the lines printed on the way, lists every given
  node once, under its peer, in one of two groups, if the swarm can be built. If every address
  could be dialed, a peer is in the valid group only if it sent identify information in time
  that supports the genesis hash (any information when no hash is given), and it is in that
  group if it sent some and all it sent does. If the dialing of a single address fails, no node
  is valid.
\<close>

theorem verify_bootnodes_report:
  assumes parsed: "parse_bootnodes pm pp nodes_text = Inr parsed"
    and order: "permuting order" "permuting order'"
    and swarm: "bootnodes_swarm K = Inr sw"
  shows "\<exists>progress valid invalid.
     verify_bootnodes pm pp K P order order' evs nodes_text genesis =
       Inr (progress @ [] # report_group (pr_addr P) ''Valid bootnodes:'' valid @
              report_group (pr_addr P) ''Invalid bootnodes:'' invalid) \<and>
     distinct (map fst (valid @ invalid)) \<and>
     (\<forall>p as. (p, as) \<in> set (valid @ invalid) \<longleftrightarrow>
        as \<noteq> [] \<and> as = map snd (filter (\<lambda>n. fst n = p) parsed)) \<and>
     (if some_dial_fails K P order' parsed sw then valid = []
      else \<forall>p \<in> fst ` set parsed.
        (p \<in> fst ` set valid \<longrightarrow> (\<exists>info \<in> set (identify_answers evs p). info_ok genesis info)) \<and>
        (identify_answers evs p \<noteq> [] \<and> (\<forall>info \<in> set (identify_answers evs p). info_ok genesis info) \<longrightarrow>
           p \<in> fst ` set valid))"
proof -
  define nodes where "nodes = fold group_node parsed []"
  obtain ls failed state where run: "bn_verify K P order' evs (bootnodes_new nodes genesis) = Inr (ls, failed, state)"
      and state: "state = (if some_dial_fails K P order' parsed sw then bootnodes_new nodes genesis
        else snd (bn_loop P evs (bootnodes_new nodes genesis)))"
    using bn_verify_state [OF swarm] unfolding nodes_def by blast
  define valid where "valid = filter (\<lambda>(peer, _). is_peer_valid state peer) (order nodes)"
  define invalid where "invalid = filter (\<lambda>(peer, _). \<not> is_peer_valid state peer) (order nodes)"
  have elems: "set (order nodes) = set nodes" and wf: "wf_map (order nodes)"
    using wf_group_nodes [of "[]" parsed] permuting_set [OF order(1)] permuting_wf_map [OF order(1)]
    by (simp_all add: nodes_def)
  have report: "verify_bootnodes pm pp K P order order' evs nodes_text genesis =
      Inr (ls @ [] # report_group (pr_addr P) ''Valid bootnodes:'' valid @
             report_group (pr_addr P) ''Invalid bootnodes:'' invalid)"
    using run by (simp add: verify_bootnodes_def parsed Let_def nodes_def valid_def invalid_def)
  have dist: "distinct (map fst (valid @ invalid))"
    using wf by (auto simp: valid_def invalid_def distinct_map_filter distinct_map inj_on_def)
  have lists: "(p, as) \<in> set (valid @ invalid) \<longleftrightarrow>
      as \<noteq> [] \<and> as = map snd (filter (\<lambda>n. fst n = p) parsed)" for p as
    using elems grouped_node [of p as parsed] by (auto simp: valid_def invalid_def nodes_def)
  have mem: "p \<in> fst ` set valid \<longleftrightarrow> p \<in> fst ` set parsed \<and> is_peer_valid state p" for p
  proof -
    have "p \<in> fst ` set valid \<longleftrightarrow> p \<in> fst ` set (order nodes) \<and> is_peer_valid state p"
      by (force simp: valid_def)
    then show ?thesis
      using elems grouped_peers [of parsed] by (simp add: nodes_def)
  qed
  have verdict: "if some_dial_fails K P order' parsed sw then valid = []
      else \<forall>p \<in> fst ` set parsed.
        (p \<in> fst ` set valid \<longrightarrow> (\<exists>info \<in> set (identify_answers evs p). info_ok genesis info)) \<and>
        (identify_answers evs p \<noteq> [] \<and> (\<forall>info \<in> set (identify_answers evs p). info_ok genesis info) \<longrightarrow>
           p \<in> fst ` set valid)"
  proof (cases "some_dial_fails K P order' parsed sw")
    case True
    with state show ?thesis by (simp add: valid_def is_peer_valid_def bootnodes_new_def)
  next
    case False
    note valid_iff = bn_loop_valid [OF _ state [unfolded if_not_P [OF False] nodes_def]]
    show ?thesis
      unfolding if_not_P [OF False] using valid_iff mem by blast
  qed
  show ?thesis
    by (intro exI conjI allI) (rule report dist lists verdict)+
qed

definition sample_identify_ops :: "(nat, unit, unit) identify_ops" where
  "sample_identify_ops = \<lparr>id_build = (\<lambda>_. Inr ()), id_dial = (\<lambda>_ sw. (None, sw))\<rparr>"

definition sample_printing :: "nat printing" where
  "sample_printing = \<lparr>pr_peer = show_nat, pr_peer_debug = show_nat, pr_addr = (\<lambda>_. ''a'')\<rparr>"

definition sample_answer :: "nat identify_swarm_event" where
  "sample_answer = FromIdentify (IdReceived 1 \<lparr>info_agent_version = [], info_protocol_version = [],
     info_listen_addrs = [], info_protocols = [''/g/kad''], info_observed_addr = []\<rparr>)"

theorem verify_bootnodes_report_witness:
  "\<exists>progress valid invalid.
     verify_bootnodes (\<lambda>_. Some []) (\<lambda>s. Some (length s)) sample_identify_ops sample_printing
       (\<lambda>xs. xs) (\<lambda>xs. xs) [sample_answer] [''x/n'', ''x/no''] (Some ''g'') =
       Inr (progress @ [] # report_group (pr_addr sample_printing) ''Valid bootnodes:'' valid @
              report_group (pr_addr sample_printing) ''Invalid bootnodes:'' invalid) \<and>
     1 \<in> fst ` set valid \<and> 2 \<notin> fst ` set valid"
proof -
  have parsed: "parse_bootnodes (\<lambda>_. Some []) (\<lambda>s. Some (length s)) [''x/n'', ''x/no''] = Inr [(1, []), (2, [])]"
    by (simp add: parse_bootnode_def)
  have swarm: "bootnodes_swarm sample_identify_ops = Inr ()"
    by (simp add: bootnodes_swarm_def identify_swarm_def sample_identify_ops_def)
  have "fst (snd (dial_all sample_identify_ops sample_printing as ())) = None" for as
    by (induction as) (auto simp: sample_identify_ops_def split: prod.splits)
  then have dials: "\<not> some_dial_fails sample_identify_ops sample_printing (\<lambda>xs. xs) [(1, []), (2, [])] ()"
    by (simp add: some_dial_fails_def)
  have "sublist ''g'' ''/g/kad''"
    unfolding sublist_def by (intro exI [of _ "''/''"] exI [of _ "''/kad''"]) simp
  then show ?thesis
    using verify_bootnodes_report [OF parsed permuting_id permuting_id swarm, where P = sample_printing and
      genesis = "Some ''g''" and evs = "[sample_answer]"] dials
    by (elim exE conjE) (rule exI, rule exI, rule exI, rule conjI, assumption, auto simp: info_ok_def sample_answer_def)
qed

section \<open>When dialing ends\<close>

fun identify_received :: "'peer identify_swarm_event \<Rightarrow> bool" where
  "identify_received (FromIdentify (IdReceived p info)) = True"
| "identify_received _ = False"

lemma dial_loop_step:
  "snd (dial_loop P num (ev # evs) r) =
     (if identify_received ev then
        if num \<le> Suc r then (Suc r, True) else snd (dial_loop P num evs (Suc r))
      else snd (dial_loop P num evs r))"
proof (cases ev)
  case (FromIdentify ie)
  then show ?thesis by (cases ie) (auto split: prod.splits)
qed (auto split: prod.splits)

lemma dial_loop_counts:
  "r < max 1 num \<Longrightarrow> snd (dial_loop P num evs r) =
     (min (max 1 num) (r + length (filter identify_received evs)),
      max 1 num \<le> r + length (filter identify_received evs))"
proof (induction evs arbitrary: r)
  case (Cons ev evs)
  show ?case
  proof (cases "identify_received ev \<and> \<not> num \<le> Suc r")
    case True
    then show ?thesis using Cons.IH [of "Suc r"] by (simp add: dial_loop_step del: dial_loop.simps)
  next
    case False
    then show ?thesis
      using Cons by (auto simp: dial_loop_step max_def simp del: dial_loop.simps)
  qed
qed auto

text \<open>
  \<open>dial-peer\<close> waits for as many identify messages as it was given addresses, and for one
  when it was given none. It counts messages, whoever sends them: it ends before its time
  limit exactly when that many arrive, and otherwise reports how many did.
\<close>

theorem dial_peer_waits:
  "snd (dial_loop P num evs 0) =
     (min (max 1 num) (length (filter identify_received evs)),
      max 1 num \<le> length (filter identify_received evs))"
  using dial_loop_counts [of 0 num P evs] by simp

section \<open>What is submitted\<close>

definition is_notification :: "('peer, 'tx) notifications_to_swarm option \<Rightarrow> bool" where
  "is_notification ev \<longleftrightarrow> (case ev of Some (SwarmNotification p i m) \<Rightarrow> True | _ \<Rightarrow> False)"

text \<open>
  The sender of the last transactions protocol opened with a peer. A protocol that was closed
  since keeps its sender: the loop does not forget it when it hears of the closing.
\<close>

definition last_sender :: "'peer \<Rightarrow> ('peer, 'tx) notifications_to_swarm option list \<Rightarrow> 'tx option" where
  "last_sender p evs =
     foldl (\<lambda>cur ev. case ev of
        Some (CustomProtocolOpen q i _ _ tx) \<Rightarrow> if q = p \<and> i = TRANSACTIONS_INDEX then Some tx else cur
      | _ \<Rightarrow> cur) None evs"

text \<open>One submission for each notification from a peer that opened the protocol before it.\<close>

definition reply_at ::
  "bytes \<Rightarrow> ('peer, 'tx) notifications_to_swarm option list \<Rightarrow> nat \<Rightarrow> ('tx \<times> bytes) list" where
  "reply_at payload evs n =
     (case evs ! n of
        Some (SwarmNotification p i m) \<Rightarrow>
          (case last_sender p (take n evs) of Some tx \<Rightarrow> [(tx, payload)] | None \<Rightarrow> [])
      | _ \<Rightarrow> [])"

definition replies ::
  "bytes \<Rightarrow> ('peer, 'tx) notifications_to_swarm option list \<Rightarrow> ('tx \<times> bytes) list" where
  "replies payload evs = concat (map (reply_at payload evs) [0..<length evs])"

text \<open>The events up to the given number of notifications, and those before the next one.\<close>

fun up_to_notifications where
  "up_to_notifications n [] = []"
| "up_to_notifications n (ev # evs) =
     (if is_notification ev then (case n of 0 \<Rightarrow> [] | Suc m \<Rightarrow> ev # up_to_notifications m evs)
      else ev # up_to_notifications n evs)"

lemma up_to_split:
  "\<exists>rest. evs = up_to_notifications n evs @ rest \<and>
     length (filter is_notification (up_to_notifications n evs)) = min n (length (filter is_notification evs)) \<and>
     (if n < length (filter is_notification evs) then rest \<noteq> [] \<and> is_notification (hd rest) else rest = [])"
proof (induction n evs rule: up_to_notifications.induct)
  case (2 n ev evs)
  show ?case
  proof (cases "is_notification ev")
    case True
    show ?thesis
    proof (cases n)
      case (Suc m)
      with True "2.IH"(1) [of m] show ?thesis by auto
    qed (use True in simp)
  next
    case False
    with "2.IH"(2) show ?thesis by auto
  qed
qed simp

lemma submit_loop_append:
  "submit_loop payload (xs @ ys) s =
     (case submit_loop payload xs s of (True, s') \<Rightarrow> (True, s') | (False, s') \<Rightarrow> submit_loop payload ys s')"
  by (induction xs arbitrary: s) (auto split: option.splits bool.splits)

definition submission_inv ::
  "bytes \<Rightarrow> ('peer, 'tx) notifications_to_swarm option list \<Rightarrow> ('peer, 'tx) submission \<Rightarrow> bool" where
  "submission_inv payload evs s \<longleftrightarrow>
     (\<forall>p. map_of (protocol_senders s) (p, TRANSACTIONS_INDEX) = last_sender p evs) \<and>
     close_after s + length (filter is_notification evs) = 30 \<and>
     submitted s = replies payload evs \<and> length (submitted s) \<le> length (filter is_notification evs)"

lemma replies_snoc:
  "replies payload (evs @ [ev]) = replies payload evs @
     (case ev of
        Some (SwarmNotification p i m) \<Rightarrow> (case last_sender p evs of Some tx \<Rightarrow> [(tx, payload)] | None \<Rightarrow> [])
      | _ \<Rightarrow> [])"
proof -
  have "map (reply_at payload (evs @ [ev])) [0..<length evs] = map (reply_at payload evs) [0..<length evs]"
    by (rule map_cong) (simp_all add: reply_at_def nth_append split: option.splits notifications_to_swarm.splits)
  moreover have "reply_at payload (evs @ [ev]) (length evs) = (case ev of
      Some (SwarmNotification p i m) \<Rightarrow> (case last_sender p evs of Some tx \<Rightarrow> [(tx, payload)] | None \<Rightarrow> [])
    | _ \<Rightarrow> [])"
    by (simp add: reply_at_def split: option.splits notifications_to_swarm.splits)
  ultimately show ?thesis
    unfolding replies_def by (simp only: length_append_singleton upt_Suc_append map_append concat_append
        le0 list.map concat.simps append_Nil2 simp_thms)
qed

lemma submit_event_inv:
  assumes "submission_inv payload evs s" and "\<not> is_notification ev \<or> length (filter is_notification evs) < 30"
  shows "\<exists>s'. submit_event payload ev s = Some s' \<and> submission_inv payload (evs @ [ev]) s'"
  using assms
  by (auto simp: submit_event_def submission_inv_def replies_snoc is_notification_def last_sender_def
      update_conv' Let_def split: option.splits notifications_to_swarm.splits)

lemma submit_loop_inv:
  "length (filter is_notification evs) \<le> 30 \<Longrightarrow>
     \<exists>s. submit_loop payload evs submission_new = (False, s) \<and> submission_inv payload evs s"
proof (induction evs rule: rev_induct)
  case Nil
  then show ?case
    by (simp add: submission_inv_def submission_new_def last_sender_def replies_def)
next
  case (snoc ev evs)
  then obtain s where "submit_loop payload evs submission_new = (False, s)" "submission_inv payload evs s"
    by auto
  moreover from this snoc.prems obtain s' where "submit_event payload ev s = Some s'"
    "submission_inv payload (evs @ [ev]) s'"
    using submit_event_inv [of payload evs s ev] by (auto split: if_splits)
  ultimately show ?case
    by (simp add: submit_loop_append)
qed

lemma submit_loop_result:
  "\<exists>s. submit_loop payload evs submission_new = (30 < length (filter is_notification evs), s)
     \<and> submission_inv payload (up_to_notifications 30 evs) s
     \<and> length (filter is_notification (up_to_notifications 30 evs)) \<le> 30"
proof -
  obtain rest where split: "evs = up_to_notifications 30 evs @ rest"
    and count: "length (filter is_notification (up_to_notifications 30 evs)) = min 30 (length (filter is_notification evs))"
    and rest: "if 30 < length (filter is_notification evs) then rest \<noteq> [] \<and> is_notification (hd rest) else rest = []"
    using up_to_split [of evs 30] by blast
  obtain s where s: "submit_loop payload (up_to_notifications 30 evs) submission_new = (False, s)"
    and inv: "submission_inv payload (up_to_notifications 30 evs) s"
    using submit_loop_inv [of "up_to_notifications 30 evs" payload] count by auto
  have "submit_loop payload rest s = (30 < length (filter is_notification evs), s)"
  proof (cases "30 < length (filter is_notification evs)")
    case True
    with rest obtain ev evs' where "rest = ev # evs'" "is_notification ev" by (cases rest) auto
    moreover from inv count True have "close_after s = 0" by (simp add: submission_inv_def)
    ultimately show ?thesis
      using True by (auto simp: submit_event_def is_notification_def split: option.splits
          notifications_to_swarm.splits)
  qed (use rest in simp)
  then have "submit_loop payload evs submission_new = (30 < length (filter is_notification evs), s)"
    by (subst split) (simp add: submit_loop_append s)
  with inv count show ?thesis by auto
qed

definition is_closing :: "('peer, 'tx) notifications_to_swarm option \<Rightarrow> bool" where
  "is_closing ev \<longleftrightarrow> (case ev of Some (CustomProtocolClosed p i) \<Rightarrow> True | _ \<Rightarrow> False)"

lemma submit_loop_closings:
  "submit_loop payload (filter (\<lambda>ev. \<not> is_closing ev) evs) s = submit_loop payload evs s"
  by (induction evs arbitrary: s)
    (auto simp: is_closing_def submit_event_def split: option.splits notifications_to_swarm.splits)

text \<open>
  C38. The extrinsic is submitted once for each of the first thirty notifications that come from
  a peer which opened the transactions protocol at some earlier moment, on the sender opened
  last, so at most thirty times. A protocol that was closed since counts as well: the events that
  report a closing change nothing, so the extrinsic is also given to the sender of a closed
  protocol. The command ends exactly when a thirty-first notification arrives.
\<close>

theorem extrinsic_submissions:
  "(case submit_loop payload evs submission_new of
     (ended, s) \<Rightarrow>
       (ended \<longleftrightarrow> 30 < length (filter is_notification evs)) \<and>
       submitted s = replies payload (up_to_notifications 30 evs) \<and> length (submitted s) \<le> 30)
   \<and> submit_loop payload evs submission_new
       = submit_loop payload (filter (\<lambda>ev. \<not> is_closing ev) evs) submission_new"
  using submit_loop_result [of payload evs] submit_loop_closings [of payload evs submission_new]
  by (fastforce simp: submission_inv_def)

end
