(* ===== verification/Command_Steps.thy ===== *)
theory Command_Steps
  imports Dual_Writer Identity Rpc
begin

text \<open>
  The steps commands are made of: what writes to a terminal and fails, returns or panics, with
  \<open>?\<close> between them, and \<open>resolve_bootnodes\<close> (\<open>commands/authorities.rs\<close>) with what it
  writes. The lemmas tell what a step that returned has done, and that steps whose writes are
  accepted return. A writer without a log is the terminal alone.
\<close>

section \<open>Steps\<close>

text \<open>
  A step of a command uses the writer and returns, fails or panics; \<open>and_then\<close> is the
  \<open>?\<close> operator.
\<close>

datatype ('io, 'e) command_error =
    WriteError 'io
  | RpcError "'e rpc_error"
  | CallError 'e
  | TextError string

datatype ('io, 'e, 'a) run = Returned 'a | Errored "('io, 'e) command_error" | Panicked panic | Stuck

type_synonym ('io, 'e, 'o, 'f, 'a) step =
  "('o, 'f) dual_writer \<Rightarrow> ('io, 'e, 'a) run \<times> ('o, 'f) dual_writer"

definition give :: "'a \<Rightarrow> ('io, 'e, 'o, 'f, 'a) step" where
  "give x w = (Returned x, w)"

definition and_then ::
  "('io, 'e, 'o, 'f, 'a) step \<Rightarrow> ('a \<Rightarrow> ('io, 'e, 'o, 'f, 'b) step) \<Rightarrow> ('io, 'e, 'o, 'f, 'b) step" where
  "and_then m k w =
     (case m w of
        (Returned x, w') \<Rightarrow> k x w'
      | (Errored e, w') \<Rightarrow> (Errored e, w')
      | (Panicked p, w') \<Rightarrow> (Panicked p, w')
      | (Stuck, w') \<Rightarrow> (Stuck, w'))"

definition try_result :: "('e \<Rightarrow> ('io, 'e2) command_error) \<Rightarrow> 'e + 'a \<Rightarrow> ('io, 'e2, 'o, 'f, 'a) step" where
  "try_result err r w = (case r of Inl e \<Rightarrow> (Errored (err e), w) | Inr x \<Rightarrow> (Returned x, w))"

definition try_panicking ::
  "('e \<Rightarrow> ('io, 'e2) command_error) \<Rightarrow> panic + ('e + 'a) \<Rightarrow> ('io, 'e2, 'o, 'f, 'a) step" where
  "try_panicking err r w = (case r of Inl p \<Rightarrow> (Panicked p, w) | Inr r' \<Rightarrow> try_result err r' w)"


definition unless_panic :: "panic + 'a \<Rightarrow> ('io, 'e, 'o, 'f, 'a) step" where
  "unless_panic r w = (case r of Inl p \<Rightarrow> (Panicked p, w) | Inr x \<Rightarrow> (Returned x, w))"

text \<open>\<open>writeln!(w, \<dots>)?\<close>, and \<open>writeln!(w, \<dots>).ok()\<close> for a list of lines.\<close>

definition emit ::
  "('io, 'o) file_ops \<Rightarrow> ('io, 'f) file_ops \<Rightarrow> string list \<Rightarrow> ('io, 'e, 'o, 'f, unit) step" where
  "emit O1 F1 pieces w =
     (case write_pieces O1 F1 pieces w of
        (Some e, w') \<Rightarrow> (Errored (WriteError e), w')
      | (None, w') \<Rightarrow> (Returned (), w'))"

definition emit_ok ::
  "('io, 'o) file_ops \<Rightarrow> ('io, 'f) file_ops \<Rightarrow> string list list \<Rightarrow> ('io, 'e, 'o, 'f, unit) step" where
  "emit_ok O1 F1 lines w =
     (Returned (), fold (\<lambda>pieces w. snd (write_pieces O1 F1 pieces w)) lines w)"

section \<open>Bootnodes\<close>

definition given_bootnodes ::
  "('io, 'o) file_ops \<Rightarrow> ('io, 'f) file_ops \<Rightarrow> 'e rpc_client \<Rightarrow> string list
     \<Rightarrow> ('io, 'e, 'o, 'f, string list) step" where
  "given_bootnodes O1 F1 request cli_bootnodes =
     (if cli_bootnodes = [] then
        and_then (emit O1 F1 [''       No bootnodes provided, fetching from chain spec via RPC...'' @ nl])
          (\<lambda>_. and_then (try_result RpcError (fetch_bootnodes_from_rpc request)) (\<lambda>fetched.
             and_then (emit O1 F1 [''       Fetched '', show_nat (length fetched),
               '' bootnodes from RPC'' @ nl]) (\<lambda>_. give fetched)))
      else give cli_bootnodes)"

definition published_bootnodes ::
  "('io, 'o) file_ops \<Rightarrow> ('io, 'f) file_ops \<Rightarrow> (string \<Rightarrow> 'e + json) \<Rightarrow> ('e rpc_error \<Rightarrow> string)
     \<Rightarrow> (string list \<Rightarrow> string list) \<Rightarrow> string \<Rightarrow> string list
     \<Rightarrow> ('io, 'e, 'o, 'f, string list) step" where
  "published_bootnodes O1 F1 http_get err_text iter_order chain bootnodes =
     and_then (emit O1 F1 [''       Detected known chain \"'', chain,
         ''\", downloading published chainspec bootnodes...'' @ nl]) (\<lambda>_.
       (case fetch_bootnodes_from_chainspec http_get chain of
          Inr extra \<Rightarrow>
            (let unique_peers = set_extend [] (map (\<lambda>addr. rsplit_first addr ''/p2p/'') extra);
                 seen = set_extend [] bootnodes;
                 before = length seen;
                 seen' = set_extend seen extra
             in and_then (emit O1 F1 [''       Fetched from chainspec online '', show_nat (length extra),
                    '' addresses and '', show_nat (length unique_peers), '' bootnodes'' @ nl]) (\<lambda>_.
                and_then (emit O1 F1 [''       Merged to '', show_nat (length seen'), '' unique addresses ('',
                    show_nat (length seen' - before), '' new from chainspec)'' @ nl]) (\<lambda>_.
                give (iter_order seen'))))
        | Inl e \<Rightarrow>
            and_then (emit O1 F1 [''       Warning: could not fetch published chainspec bootnodes: '',
                err_text e, nl]) (\<lambda>_. give bootnodes)))"

definition resolve_bootnodes_with ::
  "('io, 'o) file_ops \<Rightarrow> ('io, 'f) file_ops \<Rightarrow> 'e rpc_client \<Rightarrow> (string \<Rightarrow> 'e + json)
     \<Rightarrow> ('e rpc_error \<Rightarrow> string) \<Rightarrow> (string list \<Rightarrow> string list) \<Rightarrow> url \<Rightarrow> string list
     \<Rightarrow> ('io, 'e, 'o, 'f, string list) step" where
  "resolve_bootnodes_with O1 F1 request http_get err_text iter_order rpc_url cli_bootnodes =
     and_then (given_bootnodes O1 F1 request cli_bootnodes) (\<lambda>bootnodes.
     and_then (case detect_chain_name rpc_url of
         Some chain \<Rightarrow> published_bootnodes O1 F1 http_get err_text iter_order chain bootnodes
       | None \<Rightarrow> give bootnodes) (\<lambda>all_bootnodes.
     and_then (emit O1 F1 [nl]) (\<lambda>_. give all_bootnodes)))"

fun emit_lines ::
  "('io, 'o) file_ops \<Rightarrow> ('io, 'f) file_ops \<Rightarrow> string list list \<Rightarrow> ('io, 'e, 'o, 'f, unit) step" where
  "emit_lines O1 F1 [] = give ()"
| "emit_lines O1 F1 (line # lines) = and_then (emit O1 F1 line) (\<lambda>_. emit_lines O1 F1 lines)"

text \<open>
  \<open>println!\<close>: a line that cannot be written panics. An iteration that never ends leaves the
  command stuck.
\<close>

definition say :: "('io, 'o) file_ops \<Rightarrow> ('io, 'f) file_ops \<Rightarrow> string list list \<Rightarrow> ('io, 'e, 'o, 'f, unit) step" where
  "say O1 F1 lines w =
     (case write_pieces O1 F1 (concat lines) w of
        (Some e, w') \<Rightarrow> (Panicked (UnwrapNone ''failed printing to stdout''), w')
      | (None, w') \<Rightarrow> (Returned (), w'))"

definition unless_stuck :: "'a option \<Rightarrow> ('io, 'e, 'o, 'f, 'a) step" where
  "unless_stuck r w = (case r of None \<Rightarrow> (Stuck, w) | Some x \<Rightarrow> (Returned x, w))"

section \<open>The node\<close>

text \<open>What a node answers and the libraries that read it.\<close>

record 'e node_world =
  nw_parse_url :: "string \<Rightarrow> 'e + url"
  nw_request :: "url \<Rightarrow> 'e rpc_client"
  nw_http_get :: "string \<Rightarrow> 'e + json"
  nw_merge_order :: "string list \<Rightarrow> string list"
  nw_hex_decode :: "string \<Rightarrow> 'e + bytes"
  nw_scale_decode :: "bytes \<Rightarrow> 'e + bytes list"
  nw_parse_format :: "string \<Rightarrow> string + u16"
  nw_format_name :: "u16 \<Rightarrow> string option"
  nw_rpc_text :: "'e rpc_error \<Rightarrow> string"
  nw_text :: "'e \<Rightarrow> string"
  nw_chain :: chain_ops
  nw_orders :: map_orders
  nw_connect :: "url \<Rightarrow> 'e + 'e storage_rpc"

section \<open>Runs that return\<close>

named_theorems returned \<open>what a step that returns has done\<close>

lemma and_then_returned [returned]:
  "and_then m k w = (Returned y, w2) \<longleftrightarrow>
     (\<exists>x w1. m w = (Returned x, w1) \<and> k x w1 = (Returned y, w2))"
  by (auto simp: and_then_def split: prod.splits run.splits)

lemma give_returned [returned]: "give x w = (Returned y, w2) \<longleftrightarrow> y = x \<and> w2 = w"
  by (auto simp: give_def)

lemma try_result_returned [returned]:
  "try_result err r w = (Returned y, w2) \<longleftrightarrow> r = Inr y \<and> w2 = w"
  by (auto simp: try_result_def split: sum.splits)

lemma try_panicking_returned [returned]:
  "try_panicking err r w = (Returned y, w2) \<longleftrightarrow> r = Inr (Inr y) \<and> w2 = w"
  by (auto simp: try_panicking_def returned split: sum.splits)

lemma unless_panic_returned [returned]:
  "unless_panic r w = (Returned y, w2) \<longleftrightarrow> r = Inr y \<and> w2 = w"
  by (auto simp: unless_panic_def split: sum.splits)

lemma unless_stuck_returned [returned]:
  "unless_stuck r w = (Returned y, w2) \<longleftrightarrow> r = Some y \<and> w2 = w"
  by (auto simp: unless_stuck_def split: option.splits)

lemma say_returned [returned]:
  "say O1 F1 lines w = (Returned y, w2) \<longleftrightarrow> write_pieces O1 F1 (concat lines) w = (None, w2)"
  by (auto simp: say_def split: prod.splits option.splits)

section \<open>Runs that complete\<close>

text \<open>A terminal and a log that accept everything, and steps that return whatever was written before.\<close>

definition never_fails :: "('io, 'f) file_ops \<Rightarrow> bool" where
  "never_fails F \<longleftrightarrow> (\<forall>buf s. fst (write_all F buf s) = None \<and> fst (flush_file F s) = None)"

definition completes :: "('io, 'e, 'o, 'f, 'a) step \<Rightarrow> 'a \<Rightarrow> bool" where
  "completes m x \<longleftrightarrow> (\<forall>w. fst (m w) = Returned x)"

lemma write_pieces_never_fails:
  "never_fails O1 \<Longrightarrow> never_fails F1 \<Longrightarrow> fst (write_pieces O1 F1 pieces w) = None"
proof (induction pieces arbitrary: w)
  case (Cons piece pieces)
  have "\<exists>n w'. dual_write O1 F1 piece w = (Inr n, w')"
    using Cons.prems by (auto simp: dual_write_def never_fails_def Let_def split: prod.splits option.splits)
      (metis fst_conv option.distinct(1))+
  with Cons show ?case by auto
qed simp

lemma completes_give [intro!]: "completes (give x) x"
  by (simp add: completes_def give_def)

lemma completes_and_then [intro]:
  "completes m x \<Longrightarrow> completes (k x) y \<Longrightarrow> completes (and_then m k) y"
  unfolding completes_def and_then_def by (auto split: prod.splits run.splits) (metis fst_conv run.distinct run.inject(1))+

lemma completes_try [intro]: "r = Inr x \<Longrightarrow> completes (try_result err r) x"
  by (simp add: completes_def try_result_def)

lemma completes_panicking [intro]: "r = Inr (Inr x) \<Longrightarrow> completes (try_panicking err r) x"
  by (simp add: completes_def try_panicking_def try_result_def)

lemma completes_unless [intro]: "r = Inr x \<Longrightarrow> completes (unless_panic r) x"
  by (simp add: completes_def unless_panic_def)

lemma completes_emit_ok [intro!]: "completes (emit_ok O1 F1 lines) ()"
  by (simp add: completes_def emit_ok_def)

lemma completes_stuck [intro]: "r = Some x \<Longrightarrow> completes (unless_stuck r) x"
  by (simp add: completes_def unless_stuck_def)

definition accepting :: "('io, 'o) file_ops \<Rightarrow> ('io, 'f) file_ops \<Rightarrow> bool" where
  "accepting O1 F1 \<longleftrightarrow> never_fails O1 \<and> never_fails F1"

lemma completes_emit [intro]: "accepting O1 F1 \<Longrightarrow> completes (emit O1 F1 pieces) ()"
  using write_pieces_never_fails [of O1 F1 pieces]
  by (auto simp: accepting_def completes_def emit_def split: prod.splits option.splits)
    (metis fst_conv option.distinct(1))

lemma completes_emit_lines [intro]: "accepting O1 F1 \<Longrightarrow> completes (emit_lines O1 F1 lines) ()"
  by (induction lines) auto

declare emit_lines.simps [simp del]

lemma completes_given:
  "accepting O1 F1 \<Longrightarrow>
     (if cli = [] then fetch_bootnodes_from_rpc request else Inr cli) = Inr given \<Longrightarrow>
     completes (given_bootnodes O1 F1 request cli) given"
  unfolding given_bootnodes_def by (auto split: if_splits)

text \<open>The bootnodes are those of \<open>resolve_bootnodes\<close>.\<close>

lemma completes_bootnodes:
  assumes "accepting O1 F1"
    and "resolve_bootnodes request http_get iter_order u cli = Inr nodes"
  shows "completes (resolve_bootnodes_with O1 F1 request http_get err_text iter_order u cli) nodes"
proof -
  obtain given where given: "(if cli = [] then fetch_bootnodes_from_rpc request else Inr cli) = Inr given"
    and nodes: "nodes = (case detect_chain_name u of None \<Rightarrow> given | Some chain \<Rightarrow>
      (case fetch_bootnodes_from_chainspec http_get chain of Inl _ \<Rightarrow> given
       | Inr extra \<Rightarrow> iter_order (set_extend (set_extend [] given) extra)))"
    using assms(2) unfolding resolve_bootnodes_def by (auto split: sum.splits option.splits)
  have "completes (case detect_chain_name u of
      Some chain \<Rightarrow> published_bootnodes O1 F1 http_get err_text iter_order chain given
    | None \<Rightarrow> give given) nodes"
    using assms(1) unfolding nodes published_bootnodes_def Let_def
    by (auto split: option.splits sum.splits)
  with given assms(1) show ?thesis
    unfolding resolve_bootnodes_with_def by (blast intro: completes_given)
qed

lemma completes_say [intro]: "accepting O1 F1 \<Longrightarrow> completes (say O1 F1 lines) ()"
  using write_pieces_never_fails [of O1 F1 "concat lines"]
  by (auto simp: accepting_def completes_def say_def split: prod.splits option.splits)
    (metis fst_conv option.distinct(1))

definition resolved_genesis :: "'e node_world \<Rightarrow> url \<Rightarrow> string option \<Rightarrow> string option" where
  "resolved_genesis N u genesis =
     (case genesis of
        Some g \<Rightarrow> Some g
      | None \<Rightarrow> (case fetch_genesis_hash (nw_request N u) of Inl _ \<Rightarrow> None | Inr g \<Rightarrow> Some g))"

definition ends :: "('io, 'e, 'o, 'f, 'a) step \<Rightarrow> ('io, 'e, 'a) run \<Rightarrow> bool" where
  "ends m r \<longleftrightarrow> (\<forall>w. fst (m w) = r)"

lemma ends_and_then: "completes m x \<Longrightarrow> ends (k x) r \<Longrightarrow> ends (and_then m k) r"
  unfolding completes_def ends_def and_then_def
  by (auto split: prod.splits run.splits) (metis fst_conv run.distinct run.inject(1))+

section \<open>What is printed\<close>

text \<open>Steps that return and append a text to a terminal that keeps what it is given.\<close>

definition prints :: "('io, 'e, string, 'f, 'a) step \<Rightarrow> string \<Rightarrow> 'a \<Rightarrow> bool" where
  "prints m pre x \<longleftrightarrow>
     (\<forall>out. m (dual_writer_new out None) = (Returned x, dual_writer_new (out @ pre) None))"

lemma prints_give: "prints (give x) [] x"
  by (simp add: prints_def give_def)

lemma prints_and_then:
  "prints m t1 x \<Longrightarrow> prints (k x) t2 y \<Longrightarrow> prints (and_then m k) (t1 @ t2) y"
  by (simp add: prints_def and_then_def)

lemma prints_try: "r = Inr x \<Longrightarrow> prints (try_result err r) [] x"
  by (simp add: prints_def try_result_def)

lemma prints_panicking: "r = Inr (Inr x) \<Longrightarrow> prints (try_panicking err r) [] x"
  by (simp add: prints_def try_panicking_def try_result_def)

lemma prints_unless: "r = Inr x \<Longrightarrow> prints (unless_panic r) [] x"
  by (simp add: prints_def unless_panic_def)

lemma prints_stuck: "r = Some x \<Longrightarrow> prints (unless_stuck r) [] x"
  by (simp add: prints_def unless_stuck_def)

lemma prints_emit: "appends O1 \<Longrightarrow> prints (emit O1 F1 pieces) (concat pieces) ()"
  by (simp add: prints_def emit_def dual_writer_new_def write_pieces_no_log)

lemma prints_say: "appends O1 \<Longrightarrow> prints (say O1 F1 lines) (concat (concat lines)) ()"
  by (simp add: prints_def say_def dual_writer_new_def write_pieces_no_log)

lemmas prints_rules = prints_give prints_and_then prints_try prints_panicking prints_unless
  prints_stuck prints_emit prints_say

text \<open>Steps that append a text and panic, whatever was printed before.\<close>

definition panics :: "('io, 'e, string, 'f, 'a) step \<Rightarrow> string \<Rightarrow> panic \<Rightarrow> bool" where
  "panics m pre p \<longleftrightarrow>
     (\<forall>out. m (dual_writer_new out None) = (Panicked p, dual_writer_new (out @ pre) None))"

lemma panics_unless: "r = Inl p \<Longrightarrow> panics (unless_panic r) [] p"
  by (simp add: panics_def unless_panic_def)

lemma panics_first: "panics m pre p \<Longrightarrow> panics (and_then m k) pre p"
  by (simp add: panics_def and_then_def)

lemma panics_later: "prints m t1 x \<Longrightarrow> panics (k x) t2 p \<Longrightarrow> panics (and_then m k) (t1 @ t2) p"
  by (simp add: prints_def panics_def and_then_def)

text \<open>
  What \<open>resolve_bootnodes\<close> tells: whether it asks the node, and what the published list of a
  known chain adds, with the numbers of addresses counted as sets.
\<close>

definition bootnodes_text ::
  "'e rpc_client \<Rightarrow> (string \<Rightarrow> 'e + json) \<Rightarrow> ('e rpc_error \<Rightarrow> string) \<Rightarrow> url \<Rightarrow> string list \<Rightarrow> string" where
  "bootnodes_text request http_get err_text u cli =
     (let given = (if cli = [] then (case fetch_bootnodes_from_rpc request of Inr ns \<Rightarrow> ns | Inl _ \<Rightarrow> [])
                   else cli)
      in (if cli = [] then
            ''       No bootnodes provided, fetching from chain spec via RPC...'' @ nl
            @ ''       Fetched '' @ show_nat (length given) @ '' bootnodes from RPC'' @ nl
          else [])
         @ (case detect_chain_name u of
              None \<Rightarrow> []
            | Some chain \<Rightarrow>
                ''       Detected known chain \"'' @ chain
                @ ''\", downloading published chainspec bootnodes...'' @ nl
                @ (case fetch_bootnodes_from_chainspec http_get chain of
                     Inr extra \<Rightarrow>
                       ''       Fetched from chainspec online '' @ show_nat (length extra)
                       @ '' addresses and ''
                       @ show_nat (card ((\<lambda>addr. rsplit_first addr ''/p2p/'') ` set extra))
                       @ '' bootnodes'' @ nl
                       @ ''       Merged to '' @ show_nat (card (set given \<union> set extra))
                       @ '' unique addresses ('' @ show_nat (card (set extra - set given))
                       @ '' new from chainspec)'' @ nl
                   | Inl e \<Rightarrow>
                       ''       Warning: could not fetch published chainspec bootnodes: ''
                       @ err_text e @ nl))
         @ nl)"

lemma length_set_extend: "distinct s \<Longrightarrow> length (set_extend s xs) = card (set s \<union> set xs)"
  using distinct_card [OF distinct_set_extend [of s xs]] by simp

lemma prints_published:
  assumes "appends O1"
  shows "prints (published_bootnodes O1 F1 http_get err_text iter_order chain given)
    (''       Detected known chain \"'' @ chain @ ''\", downloading published chainspec bootnodes...'' @ nl
     @ (case fetch_bootnodes_from_chainspec http_get chain of
          Inr extra \<Rightarrow>
            ''       Fetched from chainspec online '' @ show_nat (length extra) @ '' addresses and ''
            @ show_nat (card ((\<lambda>addr. rsplit_first addr ''/p2p/'') ` set extra)) @ '' bootnodes'' @ nl
            @ ''       Merged to '' @ show_nat (card (set given \<union> set extra))
            @ '' unique addresses ('' @ show_nat (card (set extra - set given))
            @ '' new from chainspec)'' @ nl
        | Inl e \<Rightarrow> ''       Warning: could not fetch published chainspec bootnodes: '' @ err_text e @ nl))
    (case fetch_bootnodes_from_chainspec http_get chain of
       Inr extra \<Rightarrow> iter_order (set_extend (set_extend [] given) extra) | Inl _ \<Rightarrow> given)"
proof (cases "fetch_bootnodes_from_chainspec http_get chain")
  case (Inl e)
  have "prints (published_bootnodes O1 F1 http_get err_text iter_order chain given)
      (concat [''       Detected known chain \"'', chain, ''\", downloading published chainspec bootnodes...'' @ nl]
       @ concat [''       Warning: could not fetch published chainspec bootnodes: '', err_text e, nl] @ []) given"
    unfolding published_bootnodes_def Inl sum.case
    by (intro prints_and_then [OF prints_emit [OF assms]] prints_give)
  with Inl show ?thesis by simp
next
  case (Inr extra)
  let ?seen = "set_extend [] given" and ?peers = "set_extend [] (map (\<lambda>addr. rsplit_first addr ''/p2p/'') extra)"
  have "prints (published_bootnodes O1 F1 http_get err_text iter_order chain given)
      (concat [''       Detected known chain \"'', chain, ''\", downloading published chainspec bootnodes...'' @ nl]
       @ concat [''       Fetched from chainspec online '', show_nat (length extra), '' addresses and '',
           show_nat (length ?peers), '' bootnodes'' @ nl]
       @ concat [''       Merged to '', show_nat (length (set_extend ?seen extra)), '' unique addresses ('',
           show_nat (length (set_extend ?seen extra) - length ?seen), '' new from chainspec)'' @ nl] @ [])
      (iter_order (set_extend ?seen extra))"
    unfolding published_bootnodes_def Inr sum.case Let_def
    by (intro prints_and_then [OF prints_emit [OF assms]] prints_give)
  moreover have "card (set given \<union> set extra) - card (set given) = card (set extra - set given)"
  proof -
    have "card (set given \<union> (set extra - set given)) = card (set given) + card (set extra - set given)"
      by (rule card_Un_disjoint) auto
    then show ?thesis unfolding Un_Diff_cancel by simp
  qed
  ultimately show ?thesis
    using Inr by (simp add: length_set_extend)
qed

lemma prints_given:
  assumes "appends O1" and "(if cli = [] then fetch_bootnodes_from_rpc request else Inr cli) = Inr given"
  shows "prints (given_bootnodes O1 F1 request cli)
    (if cli = [] then
       ''       No bootnodes provided, fetching from chain spec via RPC...'' @ nl
       @ ''       Fetched '' @ show_nat (length given) @ '' bootnodes from RPC'' @ nl
     else []) given"
proof (cases "cli = []")
  case True
  have "prints (given_bootnodes O1 F1 request cli)
      (concat [''       No bootnodes provided, fetching from chain spec via RPC...'' @ nl] @ []
       @ concat [''       Fetched '', show_nat (length given), '' bootnodes from RPC'' @ nl] @ []) given"
    unfolding given_bootnodes_def if_P [OF True]
    by (rule prints_and_then [OF prints_emit [OF assms(1)]], rule prints_and_then [OF prints_try])
      (use assms(2) True in \<open>simp, intro prints_and_then [OF prints_emit [OF assms(1)]] prints_give\<close>)
  with True show ?thesis by simp
qed (use assms(2) in \<open>simp add: given_bootnodes_def prints_give\<close>)

lemma prints_bootnodes:
  assumes "appends O1" and "resolve_bootnodes request http_get iter_order u cli = Inr nodes"
  shows "prints (resolve_bootnodes_with O1 F1 request http_get err_text iter_order u cli)
    (bootnodes_text request http_get err_text u cli) nodes"
proof -
  obtain given where given: "(if cli = [] then fetch_bootnodes_from_rpc request else Inr cli) = Inr given"
    and nodes: "nodes = (case detect_chain_name u of None \<Rightarrow> given | Some chain \<Rightarrow>
      (case fetch_bootnodes_from_chainspec http_get chain of Inl _ \<Rightarrow> given
       | Inr extra \<Rightarrow> iter_order (set_extend (set_extend [] given) extra)))"
    using assms(2) unfolding resolve_bootnodes_def by (auto split: sum.splits option.splits)
  have last: "prints (and_then (emit O1 F1 [nl]) (\<lambda>_. give nodes)) (concat [nl] @ []) nodes"
    by (intro prints_and_then [OF prints_emit] prints_give assms(1))
  have known: "(if cli = [] then (case fetch_bootnodes_from_rpc request of Inr ns \<Rightarrow> ns | Inl _ \<Rightarrow> []) else cli) = given"
    using given by (auto split: if_splits)
  show ?thesis
  proof (cases "detect_chain_name u")
    case None
    have "prints (resolve_bootnodes_with O1 F1 request http_get err_text iter_order u cli)
      ((if cli = [] then
          ''       No bootnodes provided, fetching from chain spec via RPC...'' @ nl
          @ ''       Fetched '' @ show_nat (length given) @ '' bootnodes from RPC'' @ nl
        else []) @ [] @ concat [nl] @ []) nodes"
      unfolding resolve_bootnodes_with_def None option.case
      by (rule prints_and_then [OF prints_given [OF assms(1) given]], rule prints_and_then [OF prints_give])
        (use last nodes None in simp)
    then show ?thesis by (simp add: None bootnodes_text_def known)
  next
    case (Some chain)
    have n: "nodes = (case fetch_bootnodes_from_chainspec http_get chain of
        Inr extra \<Rightarrow> iter_order (set_extend (set_extend [] given) extra) | Inl _ \<Rightarrow> given)"
      using nodes Some by (simp split: sum.splits)
    show ?thesis
      unfolding resolve_bootnodes_with_def bootnodes_text_def Let_def known Some option.case
      by (rule prints_and_then [OF prints_given [OF assms(1) given]],
          rule prints_and_then [OF prints_published [OF assms(1)]])
        (use last n in simp)
  qed
qed

section \<open>A sample node\<close>

definition sample_url :: url where
  "sample_url = \<lparr>url_host = Some ''localhost'', url_path = ''/'', url_as_str = ''ws://localhost/''\<rparr>"

definition sample_node :: "nat node_world" where
  "sample_node =
     \<lparr>nw_parse_url = (\<lambda>_. Inr sample_url),
      nw_request = (\<lambda>_ m _. if m = ''state_call'' then Inr (JString ''0x'') else Inl 0),
      nw_http_get = (\<lambda>_. Inl 0), nw_merge_order = (\<lambda>xs. xs), nw_hex_decode = (\<lambda>_. Inr []),
      nw_scale_decode = (\<lambda>_. Inr [[5], [6]]), nw_parse_format = (\<lambda>_. Inr 42),
      nw_format_name = (\<lambda>_. None), nw_rpc_text = (\<lambda>_. ''rpc''), nw_text = (\<lambda>_. ''error''),
      nw_chain = sample_chain,
      nw_orders = \<lparr>mo_stash_pairs = (\<lambda>xs. xs), mo_stashes = rev, mo_parents = (\<lambda>xs. xs)\<rparr>,
      nw_connect = (\<lambda>_. Inl 0)\<rparr>"

lemma sample_parse: "nw_parse_url sample_node s = Inr sample_url"
  by (simp add: sample_node_def)

end
