(* ===== verification/Check_Command.thy ===== *)
theory Check_Command
  imports Authority_Check Command_Steps Swarm_Builder
begin

text \<open>
  The \<open>authority-check\<close> command as a whole (\<open>check_authorities\<close> of
  \<open>commands/authority_check.rs\<close>): resolving what was not given, the authorities, their names,
  the discovery, the checks, the report and the JSON file, with every line written on the way
  and every error that ends the command. \<open>resolve_bootnodes\<close> and \<open>fetch_identity_names\<close>
  appear here with what they write. What the network, the file system and the clock answer is
  a record of arguments; what goes to the standard error stream is left out, and so is the
  progress line the discovery keeps on the terminal (\<open>discover_shown\<close> of
  \<open>Authorities_Command\<close>).
\<close>

section \<open>Names\<close>

text \<open>The lines \<open>fetch_identity_names\<close> writes; a line that cannot be written is dropped.\<close>

definition ARROW :: string where "ARROW = [CHR 0xE2, CHR 0x86, CHR 0x92]"

definition identity_lines ::
  "chain_ops \<Rightarrow> map_orders \<Rightarrow> (url \<Rightarrow> 'e + 'e storage_rpc) \<Rightarrow> ('e \<Rightarrow> string) \<Rightarrow> url \<Rightarrow> url option
     \<Rightarrow> bytes list \<Rightarrow> string list list" where
  "identity_lines X M connect call_text relay_url identity_url authorities =
     [''       Resolving authority keys '' @ ARROW @ '' stash accounts...'' @ nl] #
     (let num = show_nat (length authorities)
      in case connect relay_url of
           Inl e \<Rightarrow> [[''       Warning: relay RPC connection failed: '', call_text e, nl]]
         | Inr relay \<Rightarrow>
             (case batch_get_storage X relay (map (storage_key_session_key_owner X) authorities) of
                Inl e \<Rightarrow> [[''       Warning: Session::KeyOwner query failed: '', call_text e, nl]]
              | Inr key_owner_values \<Rightarrow>
                  (let auth_to_stash = stash_accounts X key_owner_values authorities
                   in [''       Mapped '', show_nat (length auth_to_stash), ''/'', num,
                       '' authority keys to stash accounts'' @ nl] #
                      (if auth_to_stash = [] then []
                       else
                         (let id_url = (case identity_url of Some u \<Rightarrow> u | None \<Rightarrow> relay_url)
                          in [''       Fetching identities from '', url_as_str id_url, ''...'' @ nl] #
                             (case connect id_url of
                                Inl e \<Rightarrow>
                                  [[''       Warning: identity chain RPC connection failed: '', call_text e, nl]]
                              | Inr query \<Rightarrow>
                                  (let stash_to_auth = invert_stashes (mo_stash_pairs M auth_to_stash);
                                       unique_stashes = mo_stashes M (keys stash_to_auth)
                                   in case batch_get_storage X query
                                             (map (storage_key_identity_of X) unique_stashes) of
                                        Inl e \<Rightarrow>
                                          [[''       Warning: Identity::IdentityOf query failed: '',
                                            call_text e, nl]]
                                      | Inr _ \<Rightarrow>
                                          [[''       Resolved '', show_nat (length (ir_names
                                              (fetch_identity_names X M connect relay_url identity_url
                                                authorities))), ''/'', num, '' identities'' @ nl]])))))))"

section \<open>What the discovery gave\<close>

text \<open>The authorities whose peer was identified, and the dials.\<close>

definition identified_authorities ::
  "('peer multiaddr list \<Rightarrow> 'peer multiaddr list) \<Rightarrow> (authority, 'peer multiaddr hash_set) hash_map
     \<Rightarrow> ('peer, 'peer identify_info) hash_map \<Rightarrow> authority list \<Rightarrow> nat" where
  "identified_authorities iter details infos authorities =
     length (filter (\<lambda>auth.
       (case Option.bind (map_of details auth) (\<lambda>addrs. find_peer_id (iter addrs)) of
          Some pid \<Rightarrow> map_of infos pid \<noteq> None
        | None \<Rightarrow> False)) authorities)"

record dial_statistics =
  ds_total :: nat
  ds_success :: nat
  ds_failed :: nat
  ds_pending :: nat

definition dial_statistics_of ::
  "(authority, 'peer multiaddr hash_set) hash_map \<Rightarrow> ('peer multiaddr, dial_outcome) hash_map
     \<Rightarrow> dial_statistics" where
  "dial_statistics_of details outcomes =
     (let total = sum_list (map length (values_of details))
      in \<lparr>ds_total = total,
          ds_success = length (filter (\<lambda>out. out = DialSuccess) (values_of outcomes)),
          ds_failed = length (filter (\<lambda>out. out \<noteq> DialSuccess) (values_of outcomes)),
          ds_pending = total - length outcomes\<rparr>)"

text \<open>
  \<open>decimal n d\<close> is the text of \<open>n as f64 / d as f64 * 100.0\<close> with one decimal.
\<close>

definition dial_lines :: "(nat \<Rightarrow> nat \<Rightarrow> string) \<Rightarrow> dial_statistics \<Rightarrow> string list list" where
  "dial_lines decimal ds =
     (let share = (\<lambda>n. if 0 < ds_total ds then decimal n (ds_total ds) else ''0.0'')
      in [[nl],
          [''       Libp2p dial results ('', show_nat (ds_total ds), '' addresses):'' @ nl],
          [''       '' @ TEE @ '' Connected:  '', pad_left 6 (show_nat (ds_success ds)), '' ('',
           share (ds_success ds), ''%)'' @ nl],
          [''       '' @ TEE @ '' Failed:     '', pad_left 6 (show_nat (ds_failed ds)), '' ('',
           share (ds_failed ds), ''%)'' @ nl],
          [''       '' @ CORNER @ '' Pending:    '', pad_left 6 (show_nat (ds_pending ds)), nl],
          [nl]])"

text \<open>
  The lines of the connectivity checks: one after each batch, with a flush, and one at the end;
  what cannot be written is dropped.
\<close>

definition progress_line :: "nat \<Rightarrow> nat \<Rightarrow> string list" where
  "progress_line num checked =
     [CHR 0x0D # ''       Checked '', show_nat checked, ''/'', show_nat num, '' addresses ...'']"

definition progress_steps ::
  "('io, 'o) file_ops \<Rightarrow> ('io, 'f) file_ops \<Rightarrow> string \<Rightarrow> nat \<Rightarrow> nat \<Rightarrow> nat list
     \<Rightarrow> ('io, 'e, 'o, 'f, unit) step" where
  "progress_steps O1 F1 elapsed num public batches w =
     emit_ok O1 F1 [[CHR 0x0D # ''       Checked '', show_nat num, '' addresses ('', show_nat public,
         '' public) in '', elapsed, ''s                '' @ nl]]
       (fold (\<lambda>checked w. snd (dual_flush O1 F1 (snd (write_pieces O1 F1 (progress_line num checked) w))))
          batches w)"

section \<open>The command\<close>

record check_args =
  arg_url :: string
  arg_genesis :: "string option"
  arg_bootnodes :: "string list"
  arg_timeout :: nat
  arg_dial_timeout :: nat
  arg_address_format :: "string option"
  arg_query_timeout :: nat
  arg_identity_rpc :: "string option"
  arg_show_failing_only :: bool
  arg_json_output :: "string option"

record 'peer json_report =
  jr_chain :: "string option"
  jr_rpc_url :: string
  jr_authorities :: "'peer authority_result list"
  jr_stats :: global_stats

text \<open>
  What the command reaches: the node, the registry of address formats, the texts of errors; the
  identity queries; what builds and drives the swarm, with the turns of its event loop until
  the timeout; the TCP connections; the files.
\<close>

record ('peer, 'q, 'sw, 'sig, 'pub, 'key, 're) net_world =
  ne_parse_multiaddr :: "string \<Rightarrow> 'peer multiaddr option"
  ne_parse_peer :: "string \<Rightarrow> 'peer option"
  ne_from_slice :: "bytes \<Rightarrow> panic + block_hash"
  ne_local_peer :: 'peer
  ne_start :: "'peer built_swarm \<Rightarrow> 'sw"
  ne_discovery :: "('peer, 'q, 'sw, 'sig, 'pub, 'key, 're) ad_env"
  ne_turns :: "('peer, 'q) ad_turn list"
  ne_check :: "'peer check_env"
  ne_is_global :: "ip_addr \<Rightarrow> bool"
  ne_addr_text :: "'peer multiaddr \<Rightarrow> string"
  ne_connect :: "nat \<Rightarrow> string \<Rightarrow> tcp_outcome"
  ne_finish :: "nat \<Rightarrow> (nat \<times> 'peer address_check) list \<Rightarrow> (nat \<times> 'peer address_check) list"

record ('peer, 'io, 'o, 'f) file_world =
  fw_create_dir :: bool
  fw_timestamp :: string
  fw_create_log :: "string \<Rightarrow> 'f option"
  fw_stdout :: "('io, 'o) file_ops"
  fw_log :: "('io, 'f) file_ops"
  fw_elapsed :: string
  fw_decimal :: "nat \<Rightarrow> nat \<Rightarrow> string"
  fw_versions :: "(string \<times> nat) list \<Rightarrow> (string \<times> nat) list"
  fw_write_json :: "string \<Rightarrow> 'peer json_report \<Rightarrow> 'io option"

definition log_file :: "('peer, 'io, 'o, 'f) file_world \<Rightarrow> url \<Rightarrow> 'f option" where
  "log_file F rpc_url =
     (if fw_create_dir F then
        fw_create_log F (''cache/''
          @ (case detect_chain_name rpc_url of Some chain \<Rightarrow> chain | None \<Rightarrow> ''unknown'')
          @ ''-'' @ fw_timestamp F @ ''.logs'')
      else None)"

definition banner_lines :: "string list list" where
  "banner_lines =
     [[concat (replicate 72 DOUBLE_BAR) @ nl], [''                         AUTHORITY CHECK'' @ nl],
      [concat (replicate 72 DOUBLE_BAR) @ nl], [nl]]"

definition resolve_version ::
  "'e node_world \<Rightarrow> ('io, 'o) file_ops \<Rightarrow> ('io, 'f) file_ops \<Rightarrow> url \<Rightarrow> string option
     \<Rightarrow> ('io, 'e, 'o, 'f, u16) step" where
  "resolve_version N O1 F1 rpc_url address_format =
     (case address_format of
        Some fmt \<Rightarrow>
          try_result (\<lambda>err. TextError (''Cannot parse the provided address format: '' @ err))
            (nw_parse_format N fmt)
      | None \<Rightarrow>
          and_then (emit O1 F1 [''       No address format provided, fetching from RPC...'' @ nl]) (\<lambda>_.
          and_then (try_result RpcError (fetch_ss58_prefix (nw_request N rpc_url))) (\<lambda>prefix.
          and_then (emit_lines O1 F1
            [(case nw_format_name N prefix of
                Some registry \<Rightarrow>
                  [''       Address format: '', registry, '' (prefix: '', show_nat (unat prefix), '')'' @ nl]
              | None \<Rightarrow> [''       SS58 prefix: '', show_nat (unat prefix), nl]), [nl]]) (\<lambda>_.
          give prefix))))"

definition resolve_genesis ::
  "'e node_world \<Rightarrow> ('io, 'o) file_ops \<Rightarrow> ('io, 'f) file_ops \<Rightarrow> url \<Rightarrow> string option
     \<Rightarrow> ('io, 'e, 'o, 'f, string) step" where
  "resolve_genesis N O1 F1 rpc_url genesis =
     (case genesis of
        Some g \<Rightarrow> give g
      | None \<Rightarrow>
          and_then (emit O1 F1 [''       No genesis hash provided, fetching from RPC...'' @ nl]) (\<lambda>_.
          and_then (try_result RpcError (fetch_genesis_hash (nw_request N rpc_url))) (\<lambda>hash.
          and_then (emit_lines O1 F1 [[''       Genesis hash: 0x'', hash, nl], [nl]]) (\<lambda>_.
          give hash))))"

definition fetch_authorities ::
  "'e node_world \<Rightarrow> ('io, 'o) file_ops \<Rightarrow> ('io, 'f) file_ops \<Rightarrow> url
     \<Rightarrow> ('io, 'e, 'o, 'f, authority list) step" where
  "fetch_authorities N O1 F1 rpc_url =
     and_then (emit O1 F1 [''[1/4] Fetching authorities from runtime API...'' @ nl]) (\<lambda>_.
     and_then (try_panicking RpcError
         (runtime_api_autorities (nw_request N rpc_url) (nw_hex_decode N) (nw_scale_decode N)))
       (\<lambda>authorities.
     and_then (emit_lines O1 F1
         [[''       Found '', show_nat (length authorities), '' authorities'' @ nl], [nl]]) (\<lambda>_.
     give authorities)))"

definition parse_identity_url ::
  "'e node_world \<Rightarrow> string option \<Rightarrow> ('io, 'e, 'o, 'f, url option) step" where
  "parse_identity_url N identity_rpc =
     (case identity_rpc of
        None \<Rightarrow> give None
      | Some s \<Rightarrow>
          and_then (try_result (\<lambda>e. TextError (''Invalid --identity-rpc URL: '' @ nw_text N e))
              (nw_parse_url N s)) (\<lambda>u. give (Some u)))"

definition resolve_names ::
  "'e node_world \<Rightarrow> ('io, 'o) file_ops \<Rightarrow> ('io, 'f) file_ops \<Rightarrow> url \<Rightarrow> url option \<Rightarrow> authority list
     \<Rightarrow> ('io, 'e, 'o, 'f, identity_result) step" where
  "resolve_names N O1 F1 rpc_url identity_url authorities =
     and_then (emit O1 F1 [''[2/4] Resolving on-chain identities...'' @ nl]) (\<lambda>_.
     and_then (emit_ok O1 F1 (identity_lines (nw_chain N) (nw_orders N) (nw_connect N) (nw_text N)
         rpc_url identity_url authorities)) (\<lambda>_.
     and_then (emit O1 F1 [nl]) (\<lambda>_.
     give (fetch_identity_names (nw_chain N) (nw_orders N) (nw_connect N) rpc_url identity_url
       authorities))))"

definition discover_records ::
  "'e node_world \<Rightarrow> ('peer, 'q, 'sw, 'sig, 'pub, 'key, 're) net_world \<Rightarrow> (nat \<Rightarrow> nat \<Rightarrow> string)
     \<Rightarrow> ('io, 'o) file_ops \<Rightarrow> ('io, 'f) file_ops
     \<Rightarrow> nat \<Rightarrow> nat \<Rightarrow> string \<Rightarrow> string list \<Rightarrow> authority list
     \<Rightarrow> ('io, 'e, 'o, 'f, (authority, 'peer multiaddr hash_set) hash_map
           \<times> ('peer, 'peer identify_info) hash_map \<times> ('peer multiaddr, dial_outcome) hash_map) step" where
  "discover_records N P decimal O1 F1 timeout dht_timeout genesis bootnodes authorities =
     and_then (emit O1 F1 [''[3/4] Discovering authority DHT records (timeout: '', show_nat timeout,
         ''s)...'' @ nl]) (\<lambda>_.
     and_then (try_panicking CallError
         (build_swarm (ne_parse_multiaddr P) (ne_parse_peer P) (nw_hex_decode N) (ne_from_slice P)
            (ne_local_peer P) genesis bootnodes dht_timeout)) (\<lambda>swarm.
     (let found = into_results (discover (ne_discovery P) (ne_turns P)
            (set_show_progress True (authority_discovery_new (ne_start P swarm) authorities)))
      in case found of (details, infos, outcomes) \<Rightarrow>
           (let num = show_nat (length authorities)
            in and_then (emit_lines O1 F1
                 ([''       DHT records: '', show_nat (length details), ''/'', num,
                   '' | Identified authorities: '',
                   show_nat (identified_authorities (ce_iter (ne_check P)) details infos authorities),
                   ''/'', num, nl] # dial_lines decimal (dial_statistics_of details outcomes)))
               (\<lambda>_. give found)))))"

text \<open>
  The checks; \<open>checked_results\<close> gives the results of the loop over the authorities that
  follows them.
\<close>

definition check_connectivity ::
  "('peer, 'q, 'sw, 'sig, 'pub, 'key, 're) net_world \<Rightarrow> ('peer, 'io, 'o, 'f) file_world \<Rightarrow> nat
     \<Rightarrow> (authority, 'peer multiaddr hash_set) hash_map \<Rightarrow> authority list
     \<Rightarrow> ('io, 'e, 'o, 'f, unit) step" where
  "check_connectivity P F dial_timeout details authorities =
     (let checks = pending_checks (ne_is_global P) (ce_iter (ne_check P)) details authorities;
          public = length (filter (\<lambda>(_, _, p). p) checks)
      in and_then (emit (fw_stdout F) (fw_log F)
           [''[4/4] Checking connectivity ('', show_nat (length checks), '' addresses, '', show_nat public,
            '' public, timeout: '', show_nat dial_timeout, ''s/addr)...'' @ nl]) (\<lambda>_.
         and_then (progress_steps (fw_stdout F) (fw_log F) (fw_elapsed F) (length checks) public
           (snd (run_connectivity_checks (ne_addr_text P) (ne_connect P) (ne_finish P) checks))) (\<lambda>_.
         emit (fw_stdout F) (fw_log F) [nl])))"

definition print_step ::
  "('peer, 'io, 'o, 'f) file_world \<Rightarrow> bool \<Rightarrow> 'peer authority_result list
     \<Rightarrow> ('io, 'e, 'o, 'f, unit) step" where
  "print_step F show_failing_only results w =
     (case print_report (fw_stdout F) (fw_log F) (\<lambda>n d. fw_decimal F n d @ ''%'') (fw_versions F)
             show_failing_only results w of
        (Printed, w') \<Rightarrow> (Returned (), w')
      | (PrintError e, w') \<Rightarrow> (Errored (WriteError e), w')
      | (PrintPanic p, w') \<Rightarrow> (Panicked p, w'))"

definition check_and_print ::
  "'e node_world \<Rightarrow> ('peer, 'q, 'sw, 'sig, 'pub, 'key, 're) net_world \<Rightarrow> ('peer, 'io, 'o, 'f) file_world
     \<Rightarrow> check_args \<Rightarrow> url \<Rightarrow> ('io, 'e, 'o, 'f, 'peer authority_result list) step" where
  "check_and_print N P F A rpc_url =
     (let O1 = fw_stdout F; F1 = fw_log F
      in and_then (emit_lines O1 F1 banner_lines) (\<lambda>_.
         and_then (resolve_version N O1 F1 rpc_url (arg_address_format A)) (\<lambda>version.
         and_then (resolve_genesis N O1 F1 rpc_url (arg_genesis A)) (\<lambda>genesis.
         and_then (resolve_bootnodes_with O1 F1 (nw_request N rpc_url) (nw_http_get N) (nw_rpc_text N)
             (nw_merge_order N) rpc_url (arg_bootnodes A)) (\<lambda>bootnodes.
         and_then (fetch_authorities N O1 F1 rpc_url) (\<lambda>authorities.
         and_then (parse_identity_url N (arg_identity_rpc A)) (\<lambda>identity_url.
         and_then (resolve_names N O1 F1 rpc_url identity_url authorities) (\<lambda>names.
         and_then (discover_records N P (fw_decimal F) O1 F1 (arg_timeout A) (arg_query_timeout A)
             genesis bootnodes authorities) (\<lambda>found.
         and_then (check_connectivity P F (arg_dial_timeout A) (fst found) authorities) (\<lambda>_.
         and_then (unless_panic (checked_results (ne_check P) (ne_is_global P)
             (ne_addr_text P) (ne_connect P) (ne_finish P) version (ir_names names)
             (ir_stash_accounts names) found authorities)) (\<lambda>results.
         and_then (print_step F (arg_show_failing_only A) results) (\<lambda>_.
         give results))))))))))))"

definition json_report_of :: "url \<Rightarrow> 'peer authority_result list \<Rightarrow> 'peer json_report" where
  "json_report_of rpc_url results =
     \<lparr>jr_chain = detect_chain_name rpc_url, jr_rpc_url = url_as_str rpc_url,
      jr_authorities = results, jr_stats = compute_global_stats results\<rparr>"

text \<open>The end of the command: the JSON file, if asked for, then the flush.\<close>

definition flush_step ::
  "('peer, 'io, 'o, 'f) file_world \<Rightarrow> ('io, 'e, 'o, 'f, unit) step" where
  "flush_step F w =
     (case dual_flush (fw_stdout F) (fw_log F) w of
        (Some e, w') \<Rightarrow> (Errored (WriteError e), w')
      | (None, w') \<Rightarrow> (Returned (), w'))"

definition check_authorities ::
  "'e node_world \<Rightarrow> ('peer, 'q, 'sw, 'sig, 'pub, 'key, 're) net_world \<Rightarrow> ('peer, 'io, 'o, 'f) file_world
     \<Rightarrow> check_args \<Rightarrow> 'o
     \<Rightarrow> (('io, 'e, unit) run \<times> ('o, 'f) dual_writer) \<times> (string \<times> 'peer json_report) option" where
  "check_authorities N P F A out =
     (case nw_parse_url N (arg_url A) of
        Inl e \<Rightarrow> ((Errored (CallError e), dual_writer_new out None), None)
      | Inr rpc_url \<Rightarrow>
          (case check_and_print N P F A rpc_url (dual_writer_new out (log_file F rpc_url)) of
             (Errored e, w) \<Rightarrow> ((Errored e, w), None)
           | (Panicked p, w) \<Rightarrow> ((Panicked p, w), None)
           | (Stuck, w) \<Rightarrow> ((Stuck, w), None)
           | (Returned results, w) \<Rightarrow>
               (case arg_json_output A of
                  None \<Rightarrow> (flush_step F w, None)
                | Some path \<Rightarrow>
                    (let report = json_report_of rpc_url results
                     in case fw_write_json F path report of
                          Some e \<Rightarrow> ((Errored (WriteError e), w), None)
                        | None \<Rightarrow> (flush_step F w, Some (path, report))))))"

section \<open>Runs that return\<close>

lemma fetch_authorities_returned:
  "fetch_authorities N O1 F1 u w = (Returned authorities, w2) \<Longrightarrow>
     runtime_api_autorities (nw_request N u) (nw_hex_decode N) (nw_scale_decode N) =
       Inr (Inr authorities)"
  by (auto simp: fetch_authorities_def returned)

definition discovered ::
  "('peer, 'q, 'sw, 'sig, 'pub, 'key, 're) net_world \<Rightarrow> 'peer built_swarm \<Rightarrow> authority list
     \<Rightarrow> (authority, 'peer multiaddr hash_set) hash_map \<times> ('peer, 'peer identify_info) hash_map
       \<times> ('peer multiaddr, dial_outcome) hash_map" where
  "discovered P swarm authorities =
     into_results (discover (ne_discovery P) (ne_turns P)
       (set_show_progress True (authority_discovery_new (ne_start P swarm) authorities)))"

lemma discover_records_returned:
  "discover_records N P decimal O1 F1 timeout dht_timeout genesis bootnodes authorities w =
       (Returned found, w2) \<Longrightarrow> \<exists>swarm. found = discovered P swarm authorities"
  unfolding discover_records_def Let_def case_prod_unfold returned discovered_def by blast

lemma check_and_print_returned:
  "check_and_print N P F A u w = (Returned rs, w2) \<Longrightarrow> \<exists>authorities version (names :: identity_result) swarm.
    runtime_api_autorities (nw_request N u) (nw_hex_decode N) (nw_scale_decode N) =
      Inr (Inr authorities)
    \<and> checked_results (ne_check P) (ne_is_global P) (ne_addr_text P) (ne_connect P) (ne_finish P)
        version (ir_names names) (ir_stash_accounts names) (discovered P swarm authorities)
        authorities = Inr rs"
  unfolding check_and_print_def Let_def returned
  by (elim exE conjE, drule fetch_authorities_returned, drule discover_records_returned) blast

lemma discovered_facts:
  assumes "permuting (env_iter (ne_discovery P))" and "permuting (env_shuffle (ne_discovery P))"
    and "discovered P swarm authorities = (details, infos, outcomes)"
  shows "\<And>authority addrs a. map_of details authority = Some addrs \<Longrightarrow> a \<in> set addrs \<Longrightarrow>
      vouched (ne_discovery P) authority a"
    and "fst ` set outcomes \<subseteq> addresses_in details" and "wf_map outcomes"
proof -
  define s where "s = discover (ne_discovery P) (ne_turns P)
    (set_show_progress True (authority_discovery_new (ne_start P swarm) authorities))"
  have "ad_maps_ok (ne_discovery P) s" "wf_map (ad_dial_outcomes s)"
    unfolding s_def using assms(1,2) by (simp_all add: discover_maps discover_outcomes)
  moreover have "details = ad_authority_to_details s" "outcomes = ad_dial_outcomes s"
    using assms(3) by (simp_all add: discovered_def into_results_def s_def)
  ultimately have maps: "\<forall>(authority, as) \<in> set details. \<forall>a \<in> set as. vouched (ne_discovery P) authority a"
      "fst ` set outcomes \<subseteq> addresses_in details" "wf_map outcomes"
    by (simp_all add: ad_maps_ok_def)
  then show "fst ` set outcomes \<subseteq> addresses_in details" "wf_map outcomes"
    by blast+
  show "vouched (ne_discovery P) authority a"
    if "map_of details authority = Some addrs" "a \<in> set addrs" for authority addrs a
    using maps(1) map_of_SomeD [OF that(1)] that(2) by blast
qed

text \<open>Every address of an exact result is in the discovered set of its authority.\<close>

lemma result_exact_address:
  assumes "result_exact is_global names details outcomes authority r" and "a \<in> set (ar_addresses r)"
  shows "\<exists>addrs addr. map_of details authority = Some addrs \<and> addr \<in> set addrs
    \<and> check_of is_global outcomes addr a"
proof -
  obtain addr where addr: "check_of is_global outcomes addr a"
    using assms by (auto simp: result_exact_def)
  then have "Some addr \<in> set (map ac_full (ar_addresses r))"
    using assms(2) by (force simp: check_of_def)
  also have "\<dots> = set (map Some (case map_of details authority of Some addrs \<Rightarrow> addrs | None \<Rightarrow> []))"
    using assms(1) unfolding result_exact_def by (metis set_mset_mset)
  finally show ?thesis
    using addr by (cases "map_of details authority") auto
qed

section \<open>Runs that complete\<close>

lemma completes_progress [intro!]: "completes (progress_steps O1 F1 elapsed n public batches) ()"
  by (simp add: completes_def progress_steps_def emit_ok_def)

text \<open>Everything asked for can be had.\<close>

definition resolved_version :: "'e node_world \<Rightarrow> url \<Rightarrow> string option \<Rightarrow> u16 option" where
  "resolved_version N u fmt =
     (case fmt of
        Some name \<Rightarrow> (case nw_parse_format N name of Inl _ \<Rightarrow> None | Inr v \<Rightarrow> Some v)
      | None \<Rightarrow> (case fetch_ss58_prefix (nw_request N u) of Inl _ \<Rightarrow> None | Inr v \<Rightarrow> Some v))"

definition world_answers ::
  "'e node_world \<Rightarrow> ('peer, 'q, 'sw, 'sig, 'pub, 'key, 're) net_world \<Rightarrow> check_args \<Rightarrow> url \<Rightarrow> bool" where
  "world_answers N P A u \<longleftrightarrow>
     nw_parse_url N (arg_url A) = Inr u
     \<and> resolved_version N u (arg_address_format A) \<noteq> None
     \<and> (\<exists>genesis bootnodes b.
          resolved_genesis N u (arg_genesis A) = Some genesis
          \<and> resolve_bootnodes (nw_request N u) (nw_http_get N) (nw_merge_order N) u (arg_bootnodes A) =
              Inr bootnodes
          \<and> build_swarm (ne_parse_multiaddr P) (ne_parse_peer P) (nw_hex_decode N) (ne_from_slice P)
              (ne_local_peer P) genesis bootnodes (arg_query_timeout A) = Inr (Inr b))
     \<and> (\<exists>authorities. runtime_api_autorities (nw_request N u) (nw_hex_decode N) (nw_scale_decode N) =
          Inr (Inr authorities))
     \<and> (case arg_identity_rpc A of None \<Rightarrow> True | Some s \<Rightarrow> \<exists>v. nw_parse_url N s = Inr v)"

lemma completes_version:
  "accepting O1 F1 \<Longrightarrow> resolved_version N u fmt = Some v \<Longrightarrow>
     completes (resolve_version N O1 F1 u fmt) v"
  unfolding resolve_version_def resolved_version_def
  by (auto split: option.splits sum.splits)

lemma completes_genesis:
  "accepting O1 F1 \<Longrightarrow> resolved_genesis N u gen = Some g \<Longrightarrow>
     completes (resolve_genesis N O1 F1 u gen) g"
  unfolding resolve_genesis_def resolved_genesis_def
  by (auto split: option.splits sum.splits)

lemma completes_authorities:
  "accepting O1 F1 \<Longrightarrow>
     runtime_api_autorities (nw_request N u) (nw_hex_decode N) (nw_scale_decode N) =
       Inr (Inr authorities) \<Longrightarrow>
     completes (fetch_authorities N O1 F1 u) authorities"
  unfolding fetch_authorities_def by auto

lemma completes_names:
  "accepting O1 F1 \<Longrightarrow> completes (resolve_names N O1 F1 u iu authorities)
     (fetch_identity_names (nw_chain N) (nw_orders N) (nw_connect N) u iu authorities)"
  unfolding resolve_names_def by auto

lemma completes_records:
  "accepting O1 F1 \<Longrightarrow>
     build_swarm (ne_parse_multiaddr P) (ne_parse_peer P) (nw_hex_decode N) (ne_from_slice P)
       (ne_local_peer P) genesis bootnodes dht_timeout = Inr (Inr b) \<Longrightarrow>
     completes (discover_records N P decimal O1 F1 timeout dht_timeout genesis bootnodes authorities)
       (discovered P b authorities)"
  unfolding discover_records_def Let_def case_prod_unfold discovered_def by auto

lemma completes_connectivity:
  "accepting (fw_stdout F) (fw_log F) \<Longrightarrow> completes (check_connectivity P F t details authorities) ()"
  unfolding check_connectivity_def Let_def by auto

text \<open>The report: every write succeeds, and the only panic is the cut of a long version.\<close>

lemma version_rows_panic:
  "snd (version_rows len i versions) \<in> {None, Some (SliceNotCharBoundary 37)}"
proof (induction versions arbitrary: i)
  case (Cons v versions)
  from Cons.IH [of "i + 1"] show ?case
    by (cases v) (auto simp: Let_def shown_version_def str_slice_to_def split: sum.splits prod.splits)
qed simp

lemma version_pieces_panic:
  "snd (version_pieces iter m) \<in> {None, Some (SliceNotCharBoundary 37)}"
proof -
  let ?vs = "sort_key (\<lambda>entry. - int (snd entry)) (iter m)"
  show ?thesis
    using version_rows_panic [of "length ?vs" 0 ?vs]
    by (auto simp: version_pieces_def Let_def split: prod.splits)
qed

lemma print_results_accepting:
  "accepting O1 F1 \<Longrightarrow> fst (print_results O1 F1 pct b rs w) = None"
proof (induction rs arbitrary: w)
  case (Cons ir rs)
  then have "fst (print_authority_result O1 F1 pct (snd ir) (fst ir) w) = None"
    by (simp add: print_authority_result_def write_pieces_never_fails accepting_def)
  with Cons show ?case
    by (cases ir) (auto split: prod.splits)
qed simp

definition version_panic :: "('peer, 'io, 'o, 'f) file_world \<Rightarrow> 'peer authority_result list \<Rightarrow> panic option" where
  "version_panic F rs = snd (version_pieces (fw_versions F) (gs_agent_versions (compute_global_stats rs)))"

definition unless_cut :: "'a \<Rightarrow> panic option \<Rightarrow> ('io, 'e, 'a) run" where
  "unless_cut x e = (case e of None \<Rightarrow> Returned x | Some p \<Rightarrow> Panicked p)"

lemma print_step_ends:
  assumes "accepting (fw_stdout F) (fw_log F)"
  shows "ends (and_then (print_step F b rs) (\<lambda>_. give x)) (unless_cut x (version_panic F rs))"
proof (unfold ends_def, rule allI)
  fix w
  let ?O = "fw_stdout F" and ?F = "fw_log F" and ?pct = "\<lambda>n d. fw_decimal F n d @ ''%''"
  have writes: "\<And>pieces v. \<exists>v'. write_pieces ?O ?F pieces v = (None, v')"
    using assms write_pieces_never_fails by (metis accepting_def prod.collapse)
  obtain w1 where w1: "print_results ?O ?F ?pct b (enumerate 0 rs) w = (None, w1)"
    using print_results_accepting [OF assms] by (metis prod.collapse)
  obtain pieces e where v: "version_pieces (fw_versions F) (gs_agent_versions (compute_global_stats rs)) =
      (pieces, e)" by fastforce
  obtain w2 where w2: "write_pieces ?O ?F (summary_pieces ?pct (compute_global_stats rs) @ pieces) w1 =
      (None, w2)"
    using writes by blast
  obtain w3 where w3: "write_pieces ?O ?F [nl] w2 = (None, w3)"
    using writes by blast
  show "fst (and_then (print_step F b rs) (\<lambda>_. give x) w) = unless_cut x (version_panic F rs)"
    using w1 v w2 w3
    by (cases e) (simp_all add: and_then_def give_def print_step_def print_report_def
        print_global_summary_def version_panic_def unless_cut_def)
qed

text \<open>What each part resolves to determines the results.\<close>

lemma check_and_print_ends:
  fixes N :: "'e node_world" and F :: "('peer, 'io, 'o, 'f) file_world"
  assumes acc: "accepting (fw_stdout F) (fw_log F)"
    and version: "resolved_version N u (arg_address_format A) = Some version"
    and genesis: "resolved_genesis N u (arg_genesis A) = Some genesis"
    and bootnodes: "resolve_bootnodes (nw_request N u) (nw_http_get N) (nw_merge_order N) u
        (arg_bootnodes A) = Inr bootnodes"
    and b: "build_swarm (ne_parse_multiaddr P) (ne_parse_peer P) (nw_hex_decode N) (ne_from_slice P)
        (ne_local_peer P) genesis bootnodes (arg_query_timeout A) = Inr (Inr b)"
    and authorities: "runtime_api_autorities (nw_request N u) (nw_hex_decode N) (nw_scale_decode N) =
        Inr (Inr authorities)"
    and iu: "completes (parse_identity_url N (arg_identity_rpc A) :: ('io, 'e, 'o, 'f, url option) step) iu"
    and names: "names = fetch_identity_names (nw_chain N) (nw_orders N) (nw_connect N) u iu authorities"
    and rs: "checked_results (ne_check P) (ne_is_global P) (ne_addr_text P) (ne_connect P)
      (ne_finish P) version (ir_names names) (ir_stash_accounts names) (discovered P b authorities)
      authorities = Inr rs"
  shows "ends (check_and_print N P F A u) (unless_cut rs (version_panic F rs))"
proof -
  define found where "found = discovered P b authorities"
  note steps = completes_emit_lines [OF acc, of banner_lines] completes_version [OF acc version]
    completes_genesis [OF acc genesis] completes_bootnodes [OF acc bootnodes]
    completes_authorities [OF acc authorities] iu
    completes_names [OF acc, of N u iu authorities, folded names]
    completes_records [OF acc b, of "fw_decimal F" "arg_timeout A" authorities, folded found_def]
    completes_connectivity [OF acc, of P "arg_dial_timeout A" "fst found" authorities]
    completes_unless [OF rs [folded found_def]]
  have "ends (and_then (print_step F (arg_show_failing_only A) rs) (\<lambda>_. give rs))
      (unless_cut rs (version_panic F rs))"
    by (rule print_step_ends [OF acc])
  then show ?thesis
    unfolding check_and_print_def Let_def by - (rule ends_and_then, rule steps)+
qed

lemma check_and_print_outcome:
  fixes N :: "'e node_world" and F :: "('peer, 'io, 'o, 'f) file_world"
  assumes "world_answers N P A u" and acc: "accepting (fw_stdout F) (fw_log F)"
    and laws: "\<forall>k. permuting (ne_finish P k)" "permuting (ce_iter (ne_check P))"
      "\<forall>d. 2 \<le> length (ce_blake (ne_check P) d)"
  shows "\<exists>rs. fst (check_and_print N P F A u w) \<in> {Returned rs, Panicked (SliceNotCharBoundary 37)}"
proof -
  obtain version genesis bootnodes b authorities where
    version: "resolved_version N u (arg_address_format A) = Some version"
    and genesis: "resolved_genesis N u (arg_genesis A) = Some genesis"
    and bootnodes: "resolve_bootnodes (nw_request N u) (nw_http_get N) (nw_merge_order N) u
        (arg_bootnodes A) = Inr bootnodes"
    and b: "build_swarm (ne_parse_multiaddr P) (ne_parse_peer P) (nw_hex_decode N) (ne_from_slice P)
        (ne_local_peer P) genesis bootnodes (arg_query_timeout A) = Inr (Inr b)"
    and authorities: "runtime_api_autorities (nw_request N u) (nw_hex_decode N) (nw_scale_decode N) =
        Inr (Inr authorities)"
    using assms(1) by (auto simp: world_answers_def)
  obtain iu where iu:
      "completes (parse_identity_url N (arg_identity_rpc A) :: ('io, 'e, 'o, 'f, url option) step) iu"
    using assms(1) by (auto simp: world_answers_def parse_identity_url_def split: option.splits)
  define names where "names = fetch_identity_names (nw_chain N) (nw_orders N) (nw_connect N) u iu authorities"
  obtain rs where rs: "checked_results (ne_check P) (ne_is_global P) (ne_addr_text P) (ne_connect P)
      (ne_finish P) version (ir_names names) (ir_stash_accounts names) (discovered P b authorities)
      authorities = Inr rs"
    using checked_results_total [OF laws] by (metis prod_cases3)
  have "ends (check_and_print N P F A u) (unless_cut rs (version_panic F rs))"
    by (rule check_and_print_ends [OF acc version genesis bootnodes b authorities iu names_def rs])
  moreover have "version_panic F rs \<in> {None, Some (SliceNotCharBoundary 37)}"
    unfolding version_panic_def by (rule version_pieces_panic)
  ultimately show ?thesis
    by (auto simp: ends_def unless_cut_def)
qed

section \<open>Properties\<close>

lemma accepting_flush:
  "accepting (fw_stdout F) (fw_log F) \<Longrightarrow> fst (flush_step F w) = Returned ()"
  by (auto simp: flush_step_def dual_flush_def accepting_def never_fails_def Let_def
      split: prod.splits option.splits) (metis fst_conv option.distinct(1))+

text \<open>
  C9. The \<open>authority-check\<close> command runs to its end: when the node, the published chain
  specification or the arguments give it what it needs, and the terminal, the log and the JSON
  file accept what is written, it returns successfully, having written a JSON report exactly
  if one was asked for, whatever the network does in the meantime. Only one thing can stop
  it: an agent version of more than 40 bytes that cannot be cut after 37.
\<close>

theorem check_command_completes:
  assumes "world_answers N P A u" and "accepting (fw_stdout F) (fw_log F)"
    and "\<forall>path r. fw_write_json F path r = None"
    and "\<forall>k. permuting (ne_finish P k)" and "permuting (ce_iter (ne_check P))"
    and "\<forall>d. 2 \<le> length (ce_blake (ne_check P) d)"
  shows "fst (fst (check_authorities N P F A out)) = Returned ()
        \<and> map_option fst (snd (check_authorities N P F A out)) = arg_json_output A
    \<or> fst (fst (check_authorities N P F A out)) = Panicked (SliceNotCharBoundary 37)"
proof -
  let ?w = "dual_writer_new out (log_file F u)"
  have u: "nw_parse_url N (arg_url A) = Inr u"
    using assms(1) by (simp add: world_answers_def)
  obtain rs w' where "check_and_print N P F A u ?w = (Returned rs, w')
      \<or> check_and_print N P F A u ?w = (Panicked (SliceNotCharBoundary 37), w')"
    using check_and_print_outcome [OF assms(1,2,4-6), of ?w] by (cases "check_and_print N P F A u ?w") auto
  then show ?thesis
    using u accepting_flush [OF assms(2)] assms(3)
    by (auto simp: check_authorities_def Let_def split: option.splits)
qed

text \<open>
  C4. The JSON report of \<open>authority-check\<close> is genuine. If one was written, the runtime of the
  node gave a list of authorities and the report has one entry for each of them, in that
  order; every address listed for an authority comes from a DHT record that was verified
  against the authority's own key, and is said to be public exactly if it is; the statistics
  are those of the entries.
\<close>

theorem check_report_genuine:
  assumes "check_authorities N P F A out = (res, Some (path, report))"
    and "permuting (env_iter (ne_discovery P))" and "permuting (env_shuffle (ne_discovery P))"
    and "\<forall>k. permuting (ne_finish P k)" and "permuting (ce_iter (ne_check P))"
    and "\<forall>d. 2 \<le> length (ce_blake (ne_check P) d)"
  shows "\<exists>u authorities. nw_parse_url N (arg_url A) = Inr u
    \<and> runtime_api_autorities (nw_request N u) (nw_hex_decode N) (nw_scale_decode N) =
        Inr (Inr authorities)
    \<and> arg_json_output A = Some path \<and> jr_chain report = detect_chain_name u
    \<and> length (jr_authorities report) = length authorities
    \<and> jr_stats report = compute_global_stats (jr_authorities report)
    \<and> (\<forall>i < length authorities. \<forall>a \<in> set (ar_addresses (jr_authorities report ! i)). \<exists>addr.
          ac_full a = Some addr \<and> vouched (ne_discovery P) (authorities ! i) addr
          \<and> ac_public a = is_public_address (ne_is_global P) addr)"
proof -
  obtain u rs w where u: "nw_parse_url N (arg_url A) = Inr u" "arg_json_output A = Some path"
      and rs: "check_and_print N P F A u (dual_writer_new out (log_file F u)) = (Returned rs, w)"
      and report: "report = json_report_of u rs"
    using assms(1)
    by (auto simp: check_authorities_def Let_def split: sum.splits prod.splits run.splits option.splits)
  obtain authorities version swarm and names :: identity_result where
    authorities: "runtime_api_autorities (nw_request N u) (nw_hex_decode N) (nw_scale_decode N) =
      Inr (Inr authorities)"
    and checked: "checked_results (ne_check P) (ne_is_global P) (ne_addr_text P) (ne_connect P)
      (ne_finish P) version (ir_names names) (ir_stash_accounts names) (discovered P swarm authorities)
      authorities = Inr rs"
    using check_and_print_returned [OF rs] by blast
  obtain details infos outcomes where found: "discovered P swarm authorities = (details, infos, outcomes)"
    by (metis prod_cases3)
  have exact: "length rs = length authorities" "\<And>i. i < length authorities \<Longrightarrow>
      result_exact (ne_is_global P) (ir_names names) details outcomes (authorities ! i) (rs ! i)"
    using checked_results_total [OF assms(4-6)] checked unfolding found by (metis sum.inject(2))+
  have "\<exists>addr. ac_full a = Some addr \<and> vouched (ne_discovery P) (authorities ! i) addr
      \<and> ac_public a = is_public_address (ne_is_global P) addr"
    if "i < length authorities" "a \<in> set (ar_addresses (rs ! i))" for i a
    using result_exact_address [OF exact(2) [OF that(1)] that(2)]
      discovered_facts(1) [OF assms(2,3) found] by (auto simp: check_of_def)
  with u authorities exact(1) show ?thesis
    by (auto simp: report json_report_of_def)
qed

section \<open>A sample world\<close>

definition sample_net :: "(nat, nat, nat, bytes, bytes, nat, nat) net_world" where
  "sample_net =
     \<lparr>ne_parse_multiaddr = (\<lambda>_. Some [P2p 3]), ne_parse_peer = (\<lambda>_. Some 3),
      ne_from_slice = Inr, ne_local_peer = 0, ne_start = (\<lambda>_. 0), ne_discovery = sample_ad_env,
      ne_turns = [AdSwarm (DiscoveryEvent (OutboundQueryProgressed 0 (FoundRecord [5] [1])))],
      ne_check = sample_check_env, ne_is_global = (\<lambda>_. True), ne_addr_text = (\<lambda>_. ''/ip4/1.1.1.1''),
      ne_connect = (\<lambda>_ _. TimedOut), ne_finish = (\<lambda>_. rev)\<rparr>"

definition sample_files :: "(nat, unit, string, string) file_world" where
  "sample_files =
     \<lparr>fw_create_dir = True, fw_timestamp = ''now'', fw_create_log = (\<lambda>_. Some []),
      fw_stdout = memory_file, fw_log = memory_file, fw_elapsed = ''1.0'',
      fw_decimal = (\<lambda>_ _. ''50.0''), fw_versions = (\<lambda>vs. vs), fw_write_json = (\<lambda>_ _. None)\<rparr>"

definition sample_args :: check_args where
  "sample_args =
     \<lparr>arg_url = ''ws://localhost'', arg_genesis = Some ''0x91'', arg_bootnodes = [''/p2p/a''],
      arg_timeout = 60, arg_dial_timeout = 5, arg_address_format = Some ''polkadot'',
      arg_query_timeout = 10, arg_identity_rpc = None, arg_show_failing_only = False,
      arg_json_output = Some ''out.json''\<rparr>"

lemma sample_discovered:
  "discovered sample_net b [[5], [6]] = ([([5], [[Ip4 [1, 1, 1, 1], P2p 7]])], [], [])"
  using sample_discovery_results by (simp add: discovered_def sample_net_def)

definition sample_results :: "nat authority_result list" where
  "sample_results =
     (case checked_results (ne_check sample_net) (ne_is_global sample_net) (ne_addr_text sample_net)
        (ne_connect sample_net) (ne_finish sample_net) 42 [] []
        ([([5], [[Ip4 [1, 1, 1, 1], P2p 7]])], [], []) [[5], [6]] of
        Inl _ \<Rightarrow> []
      | Inr rs \<Rightarrow> rs)"

lemma sample_checked:
  "checked_results (ne_check sample_net) (ne_is_global sample_net) (ne_addr_text sample_net)
     (ne_connect sample_net) (ne_finish sample_net) 42 [] []
     ([([5], [[Ip4 [1, 1, 1, 1], P2p 7]])], [], []) [[5], [6]] = Inr sample_results"
  "map ac_full (ar_addresses (sample_results ! 0)) = [Some [Ip4 [1, 1, 1, 1], P2p 7]]"
  "gs_agent_versions (compute_global_stats sample_results) = []"
  by code_simp+

lemma sample_world:
  "resolved_version sample_node sample_url (Some ''polkadot'') = Some 42"
  "resolved_genesis sample_node sample_url (Some ''0x91'') = Some ''0x91''"
  "resolve_bootnodes (nw_request sample_node sample_url) (nw_http_get sample_node)
     (nw_merge_order sample_node) sample_url [''/p2p/a''] = Inr [''/p2p/a'']"
  "runtime_api_autorities (nw_request sample_node sample_url) (nw_hex_decode sample_node)
     (nw_scale_decode sample_node) = Inr (Inr [[5], [6]])"
  "\<exists>b. build_swarm (ne_parse_multiaddr sample_net) (ne_parse_peer sample_net)
     (nw_hex_decode sample_node) (ne_from_slice sample_net) (ne_local_peer sample_net)
     ''0x91'' [''/p2p/a''] 10 = Inr (Inr b)"
  by (code_simp, code_simp, code_simp, code_simp)
    (simp add: build_swarm_def sample_net_def sample_node_def parse_bootnode_def discovery_build_def Let_def)

lemma sample_accepting: "accepting (fw_stdout sample_files) (fw_log sample_files)"
  by (simp add: accepting_def never_fails_def sample_files_def memory_file_def)

lemma sample_orders_permute:
  "\<forall>k. permuting (ne_finish sample_net k)" "permuting (ce_iter (ne_check sample_net))"
  "\<forall>d. 2 \<le> length (ce_blake (ne_check sample_net) d)"
  "permuting (env_iter (ne_discovery sample_net))" "permuting (env_shuffle (ne_discovery sample_net))"
  by (simp_all add: sample_net_def sample_check_env_def sample_ad_env_def)

lemma sample_run:
  "\<exists>w. check_and_print sample_node sample_net sample_files sample_args sample_url v = (Returned sample_results, w)"
proof -
  obtain b where b: "build_swarm (ne_parse_multiaddr sample_net) (ne_parse_peer sample_net)
      (nw_hex_decode sample_node) (ne_from_slice sample_net) (ne_local_peer sample_net)
      ''0x91'' [''/p2p/a''] 10 = Inr (Inr b)"
    using sample_world(5) by blast
  have iu: "completes (parse_identity_url sample_node (arg_identity_rpc sample_args)) None"
    by (simp add: sample_args_def parse_identity_url_def completes_give)
  have names: "\<lparr>ir_names = [], ir_stash_accounts = []\<rparr> =
      fetch_identity_names (nw_chain sample_node) (nw_orders sample_node) (nw_connect sample_node)
        sample_url None [[5], [6]]"
    by (simp add: fetch_identity_names_def sample_node_def)
  have args: "arg_address_format sample_args = Some ''polkadot''" "arg_genesis sample_args = Some ''0x91''"
      "arg_bootnodes sample_args = [''/p2p/a'']" "arg_query_timeout sample_args = 10"
    by (simp_all add: sample_args_def)
  have "ends (check_and_print sample_node sample_net sample_files sample_args sample_url)
      (unless_cut sample_results (version_panic sample_files sample_results))"
    by (rule check_and_print_ends [where A = sample_args, OF sample_accepting, unfolded args,
          OF sample_world(1-3) b sample_world(4) iu names])
      (simp only: sample_discovered sample_checked(1) identity_result.simps)
  then show ?thesis
    by (auto simp: ends_def unless_cut_def version_panic_def version_pieces_def sample_checked(3))
      (metis prod.collapse)
qed

lemma sample_report:
  "\<exists>res. check_authorities sample_node sample_net sample_files sample_args [] =
     (res, Some (''out.json'', json_report_of sample_url sample_results))"
  using sample_run [of "dual_writer_new [] (log_file sample_files sample_url)"]
  by (auto simp: check_authorities_def sample_args_def sample_node_def sample_files_def Let_def)

theorem check_command_completes_witness:
  "world_answers sample_node sample_net sample_args sample_url
   \<and> accepting (fw_stdout sample_files) (fw_log sample_files)
   \<and> fst (fst (check_authorities sample_node sample_net sample_files sample_args [])) = Returned ()
   \<and> map_option fst (snd (check_authorities sample_node sample_net sample_files sample_args [])) =
       Some ''out.json''"
proof -
  have answers: "world_answers sample_node sample_net sample_args sample_url"
    using sample_world by (simp add: world_answers_def sample_args_def) (simp add: sample_node_def)
  have "fst (fst (check_authorities sample_node sample_net sample_files sample_args [])) \<noteq>
      Panicked (SliceNotCharBoundary 37)"
    using sample_run [of "dual_writer_new [] (log_file sample_files sample_url)"]
    by (auto simp: check_authorities_def Let_def sample_parse accepting_flush [OF sample_accepting]
        split: option.splits)
  then show ?thesis
    using check_command_completes [OF answers sample_accepting _ sample_orders_permute(1-3), of "[]"]
      answers sample_accepting
    by (simp add: sample_files_def sample_args_def)
qed

theorem check_report_genuine_witness:
  "\<exists>res report. check_authorities sample_node sample_net sample_files sample_args [] =
      (res, Some (''out.json'', report))
    \<and> map ac_full (ar_addresses (jr_authorities report ! 0)) = [Some [Ip4 [1, 1, 1, 1], P2p 7]]
    \<and> vouched (ne_discovery sample_net) [5] [Ip4 [1, 1, 1, 1], P2p 7]"
proof -
  obtain res where run: "check_authorities sample_node sample_net sample_files sample_args [] =
      (res, Some (''out.json'', json_report_of sample_url sample_results))"
    using sample_report by blast
  obtain u authorities where "nw_parse_url sample_node (arg_url sample_args) = Inr u"
    "runtime_api_autorities (nw_request sample_node u) (nw_hex_decode sample_node)
       (nw_scale_decode sample_node) = Inr (Inr authorities)"
    and each: "\<forall>i < length authorities.
      \<forall>a \<in> set (ar_addresses (jr_authorities (json_report_of sample_url sample_results) ! i)). \<exists>addr.
        ac_full a = Some addr \<and> vouched (ne_discovery sample_net) (authorities ! i) addr
        \<and> ac_public a = is_public_address (ne_is_global sample_net) addr"
    using check_report_genuine [OF run sample_orders_permute(4,5,1-3)] by blast
  then have "authorities = [[5], [6]]"
    using sample_world(4) by (simp add: sample_node_def)
  with each [rule_format, of 0] have "\<forall>a \<in> set (ar_addresses (sample_results ! 0)).
      \<exists>addr. ac_full a = Some addr \<and> vouched (ne_discovery sample_net) [5] addr"
    by (auto simp: json_report_of_def)
  then have "vouched (ne_discovery sample_net) [5] [Ip4 [1, 1, 1, 1], P2p 7]"
    using sample_checked(2) by (auto simp: map_eq_Cons_conv)
  with run sample_checked(2) show ?thesis
    by (auto simp: json_report_of_def)
qed

section \<open>Dial counts\<close>

lemma card_addresses: "card (addresses_in m) \<le> sum_list (map length (values_of m))"
proof (induction m)
  case (Cons kv m)
  have "addresses_in (kv # m) = set (snd kv) \<union> addresses_in m"
    by (simp add: addresses_in_def)
  with Cons card_Un_le [of "set (snd kv)" "addresses_in m"] card_length [of "snd kv"] show ?case
    by simp
qed (simp add: addresses_in_def)

text \<open>
  C39. The dial results printed after the discovery add up: an address has at most one outcome,
  and outcomes are of discovered addresses only, so the number of pending dials is exactly the
  number of addresses less those with an outcome (the subtraction never saturates), and the
  connected, failed and pending dials sum to the addresses.
\<close>

theorem dial_results_add_up:
  assumes "permuting (env_iter (ne_discovery P))" and "permuting (env_shuffle (ne_discovery P))"
    and "discovered P swarm authorities = (details, infos, outcomes)"
    and "ds = dial_statistics_of details outcomes"
  shows "ds_success ds + ds_failed ds + ds_pending ds = ds_total ds
    \<and> int (ds_pending ds) = int (ds_total ds) - int (length outcomes)"
proof -
  note facts = discovered_facts [OF assms(1-3)]
  have "length outcomes = card (fst ` set outcomes)"
    using facts(3) distinct_card [of "map fst outcomes"] by simp
  also have "\<dots> \<le> card (addresses_in details)"
    using facts(2) by (intro card_mono) (simp_all add: addresses_in_def)
  also have "\<dots> \<le> sum_list (map length (values_of details))"
    by (rule card_addresses)
  finally have "length outcomes \<le> sum_list (map length (values_of details))" .
  moreover have "length (filter (\<lambda>out. out = DialSuccess) (values_of outcomes))
      + length (filter (\<lambda>out. out \<noteq> DialSuccess) (values_of outcomes)) = length outcomes"
    using sum_length_filter_compl [of "\<lambda>out. out = DialSuccess" "values_of outcomes"] by simp
  ultimately show ?thesis
    by (simp add: assms(4) dial_statistics_of_def Let_def)
qed

theorem dial_results_add_up_witness:
  "(\<forall>b. discovered sample_net b [[5], [6]] = ([([5], [[Ip4 [1, 1, 1, 1], P2p 7]])], [], []))
   \<and> ds_pending (dial_statistics_of [([5], [[Ip4 [1, 1, 1, 1], P2p (7 :: nat)]])] []) = 1"
  using dial_results_add_up [OF sample_orders_permute(4,5) sample_discovered refl] sample_discovered
  by (simp add: dial_statistics_of_def Let_def)

end
