(* ===== verification/Discovery_Commands.thy ===== *)
theory Discovery_Commands
  imports Network_Discovery Peer_Discovery Authorities_Command Command_Steps
begin

text \<open>
  The commands \<open>discover-network\<close> (\<open>discover_network\<close> of \<open>commands/discovery.rs\<close>),
  \<open>discover-peer\<close> (\<open>discover_peer\<close> of \<open>commands/discover_peer.rs\<close>) and
  \<open>authorities\<close> (\<open>discover_authorities\<close> of \<open>commands/authorities.rs\<close>) as a whole: what
  they resolve, the discovery they run and the lines they print, in order. The \<open>Locator\<close>
  (\<open>cli/src/utils.rs\<close>) is here too. Texts of peers and addresses, the \<open>Debug\<close> form of
  strings, the database, DNS and the iteration orders of the hash maps are arguments. What the
  reports say of the networks is in \<open>Command_Reports\<close>.
\<close>

section \<open>Locations\<close>

text \<open>
  What the database holds for an address: the names of the city by language, and where it is.
\<close>

record 'fl geo_location =
  geo_accuracy_radius :: "u16 option"
  geo_latitude :: "'fl option"
  geo_longitude :: "'fl option"
  geo_metro_code :: "u16 option"
  geo_time_zone :: "string option"

record 'fl geo_record =
  geo_city :: "(string, string) hash_map option option"
  geo_where :: "'fl geo_location option"

record 'fl location =
  loc_city :: string
  loc_accuracy_radius :: "u16 option"
  loc_latitude :: "'fl option"
  loc_longitude :: "'fl option"
  loc_metro_code :: "u16 option"
  loc_time_zone :: "string option"

definition locator_new :: "'db option \<Rightarrow> panic + 'db" where
  "locator_new city_data =
     (case city_data of
        Some db \<Rightarrow> Inr db
      | None \<Rightarrow> Inl (UnwrapNone ''City data is always valid''))"

definition locate :: "(ip_addr \<Rightarrow> 'fl geo_record option) \<Rightarrow> ip_addr \<Rightarrow> 'fl location option" where
  "locate db ip =
     Option.bind (db ip) (\<lambda>r.
     Option.bind (geo_city r) (\<lambda>city.
     Option.bind city (\<lambda>names.
     Option.bind (map_of names ''en'') (\<lambda>name.
       Some \<lparr>loc_city = name,
             loc_accuracy_radius = Option.bind (geo_where r) geo_accuracy_radius,
             loc_latitude = Option.bind (geo_where r) geo_latitude,
             loc_longitude = Option.bind (geo_where r) geo_longitude,
             loc_metro_code = Option.bind (geo_where r) geo_metro_code,
             loc_time_zone = Option.bind (geo_where r) geo_time_zone\<rparr>))))"

section \<open>What the commands share\<close>

record ('peer, 'fl) text_ops =
  tx_peer :: "'peer \<Rightarrow> string"
  tx_addr :: "'peer multiaddr \<Rightarrow> string"
  tx_debug_str :: "string \<Rightarrow> string"
  tx_debug_peer :: "'peer \<Rightarrow> string"
  tx_debug_addrs :: "'peer multiaddr list \<Rightarrow> string"
  tx_debug_info :: "'peer identify_info \<Rightarrow> string"
  tx_debug_location :: "'fl location \<Rightarrow> string"

definition debug_role :: "protocol_role \<Rightarrow> string" where
  "debug_role r =
     (case r of FullNode \<Rightarrow> ''FullNode'' | LightNode \<Rightarrow> ''LightNode'' | Authority \<Rightarrow> ''Authority'')"

definition debug_option :: "('a \<Rightarrow> string) \<Rightarrow> 'a option \<Rightarrow> string" where
  "debug_option f v = (case v of Some x \<Rightarrow> ''Some('' @ f x @ '')'' | None \<Rightarrow> ''None'')"

record ('peer, 'sw) swarm_start =
  st_parse_multiaddr :: "string \<Rightarrow> 'peer multiaddr option"
  st_parse_peer :: "string \<Rightarrow> 'peer option"
  st_from_slice :: "bytes \<Rightarrow> panic + block_hash"
  st_local_peer :: 'peer
  st_swarm :: "'peer built_swarm \<Rightarrow> 'sw"

definition print_genesis ::
  "'e node_world \<Rightarrow> ('io, 'o) file_ops \<Rightarrow> ('io, 'f) file_ops \<Rightarrow> url \<Rightarrow> string option
     \<Rightarrow> ('io, 'e, 'o, 'f, string) step" where
  "print_genesis N O1 F1 rpc_url genesis =
     (case genesis of
        Some g \<Rightarrow> give g
      | None \<Rightarrow>
          and_then (say O1 F1 [[''       No genesis hash provided, fetching from RPC...'' @ nl]]) (\<lambda>_.
          and_then (try_result RpcError (fetch_genesis_hash (nw_request N rpc_url))) (\<lambda>hash.
          and_then (say O1 F1 [[''       Genesis hash: 0x'', hash, nl]]) (\<lambda>_.
          give hash))))"

text \<open>From the URL to the swarm; the genesis text is kept as it was resolved.\<close>

definition prepare_swarm ::
  "'e node_world \<Rightarrow> ('peer, 'sw) swarm_start \<Rightarrow> ('io, 'o) file_ops \<Rightarrow> ('io, 'f) file_ops
     \<Rightarrow> string \<Rightarrow> string option \<Rightarrow> string list \<Rightarrow> nat
     \<Rightarrow> ('io, 'e, 'o, 'f, string \<times> 'peer built_swarm) step" where
  "prepare_swarm N D O1 F1 url genesis bootnodes dht_timeout =
     and_then (try_result CallError (nw_parse_url N url)) (\<lambda>rpc_url.
     and_then (print_genesis N O1 F1 rpc_url genesis) (\<lambda>g.
     and_then (resolve_bootnodes_with O1 F1 (nw_request N rpc_url) (nw_http_get N) (nw_rpc_text N)
         (nw_merge_order N) rpc_url bootnodes) (\<lambda>nodes.
     and_then (try_panicking CallError
         (build_swarm (st_parse_multiaddr D) (st_parse_peer D) (nw_hex_decode N) (st_from_slice D)
            (st_local_peer D) g nodes dht_timeout)) (\<lambda>b.
     give (g, b)))))"

section \<open>discover-network\<close>

record ('peer, 'fl) network_orders =
  no_roles :: "('peer \<times> protocol_role) list \<Rightarrow> ('peer \<times> protocol_role) list"
  no_details :: "('peer \<times> 'peer identify_info) list \<Rightarrow> ('peer \<times> 'peer identify_info) list"
  no_infos :: "('peer \<times> 'peer identify_info) list \<Rightarrow> ('peer \<times> 'peer identify_info) list"
  no_cities :: "(string \<times> nat) list \<Rightarrow> (string \<times> nat) list"
  no_located :: "('peer \<times> 'fl location) list \<Rightarrow> ('peer \<times> 'fl location) list"

definition identified_lines ::
  "('peer, 'fl) text_ops \<Rightarrow> (('peer \<times> 'peer identify_info) list \<Rightarrow> ('peer \<times> 'peer identify_info) list)
     \<Rightarrow> ('peer, 'peer identify_info) hash_map \<Rightarrow> ('peer, protocol_role) hash_map \<Rightarrow> string list list" where
  "identified_lines T order details peer_roles =
     [[nl], [''Identified peers (responded to identify) num='', show_nat (length details), nl]]
     @ map (\<lambda>(peer, info). [''identified='', tx_peer T peer, '' version='',
         tx_debug_str T (info_agent_version info), '' role='',
         debug_option debug_role (map_of peer_roles peer), nl]) (order details)"

definition network_counts ::
  "('peer, 'fl) text_ops \<Rightarrow> ('peer, 'fl) network_orders \<Rightarrow> (ip_addr \<Rightarrow> bool) \<Rightarrow> string \<Rightarrow> bool \<Rightarrow> bool
     \<Rightarrow> ('peer, 'q, 'sw) network_discovery \<Rightarrow> string list list" where
  "network_counts T R is_global genesis only_authorities identified s =
     (let infos = genesis_infos genesis (nd_peer_details s);
          public = public_infos is_global infos
      in [[''Dialed num='', show_nat (length (nd_dialed_peers s)), '' peers'' @ nl],
          [''Discovered num='', show_nat (length (nd_discovered s)), '' peers'' @ nl],
          [''Peers with identity num='', show_nat (length (nd_peer_details s)), nl],
          [''Peers that support our genesis hash '', show_nat (length infos), nl],
          [''  Peers with public addresses '', show_nat (length public), nl],
          [''  Peers with private addresses '', show_nat (length infos - length public), nl],
          [''Peers with role associated num='', show_nat (length (nd_peer_role s)), nl]]
         @ (if only_authorities then
              map (\<lambda>peer. [''authority='', tx_peer T peer, '' version='',
                  debug_option (tx_debug_str T)
                    (map_option info_agent_version (map_of (nd_peer_details s) peer)), nl])
                (authority_peers (no_roles R (nd_peer_role s)))
            else [])
         @ (if identified then identified_lines T (no_details R) (nd_peer_details s) (nd_peer_role s)
            else []))"

definition city_lines ::
  "('peer, 'fl) text_ops \<Rightarrow> ('peer, 'fl) network_orders \<Rightarrow> (ip_addr \<Rightarrow> 'fl geo_record option)
     \<Rightarrow> (string \<Rightarrow> ip_addr list option) \<Rightarrow> string \<Rightarrow> nat option \<Rightarrow> bool
     \<Rightarrow> ('peer, 'q, 'sw) network_discovery \<Rightarrow> string list list" where
  "city_lines T R db lookup_ip genesis num_cities raw_geolocation s =
     (let infos = genesis_infos genesis (nd_peer_details s)
      in case geolocate (locate_address (locate db) lookup_ip) loc_city (no_infos R infos) of
           (cities, located) \<Rightarrow>
             map (\<lambda>(city, num). [''   City='', city, '' peers='', show_nat num, nl])
               (top_cities (no_cities R) num_cities cities)
             @ (if raw_geolocation then
                  [nl] # map (\<lambda>(peer, l). [''   Peer '', tx_peer T peer, '': '',
                      tx_debug_location T l, nl]) (no_located R located)
                else []))"

text \<open>
  The options of the commands. The turns given to a command are those its event loop takes
  before the timeout.
\<close>

record network_args =
  na_url :: string
  na_genesis :: "string option"
  na_bootnodes :: "string list"
  na_num_cities :: "nat option"
  na_raw_geolocation :: bool
  na_only_authorities :: bool
  na_identified :: bool
  na_timeout :: nat
  na_query_timeout :: nat

definition discover_network ::
  "'e node_world \<Rightarrow> ('peer, 'sw) swarm_start \<Rightarrow> ('peer, 'q, 'sw) swarm_ops \<Rightarrow> ('peer, 'q) loop_turn list
     \<Rightarrow> ('peer, 'fl) text_ops \<Rightarrow> ('peer, 'fl) network_orders \<Rightarrow> (ip_addr \<Rightarrow> bool)
     \<Rightarrow> (ip_addr \<Rightarrow> 'fl geo_record option) option \<Rightarrow> (string \<Rightarrow> ip_addr list option)
     \<Rightarrow> ('io, 'o) file_ops \<Rightarrow> ('io, 'f) file_ops \<Rightarrow> network_args \<Rightarrow> ('io, 'e, 'o, 'f, unit) step" where
  "discover_network N D K turns T R is_global city_data lookup_ip O1 F1 A =
     and_then (prepare_swarm N D O1 F1 (na_url A) (na_genesis A) (na_bootnodes A) (na_query_timeout A))
       (\<lambda>(genesis, b).
     and_then (unless_stuck (nd_drive_events K turns (network_discovery_new (st_swarm D b)))) (\<lambda>s.
     and_then (say O1 F1 (network_counts T R is_global genesis (na_only_authorities A)
         (na_identified A) s)) (\<lambda>_.
     and_then (unless_panic (locator_new city_data)) (\<lambda>db.
     say O1 F1 (city_lines T R db lookup_ip genesis (na_num_cities A) (na_raw_geolocation A) s)))))"

section \<open>discover-peer\<close>

definition target_info_lines ::
  "('peer, 'fl) text_ops \<Rightarrow> ('peer, 'q, 'sw) peer_discovery \<Rightarrow> 'peer \<Rightarrow> string list list" where
  "target_info_lines T s target =
     (case map_of (pdc_peer_details s) target of
        None \<Rightarrow> []
      | Some info \<Rightarrow>
          [[nl], [''Identify info for target '', tx_peer T target, '':'' @ nl],
           [''  Agent Version:    '', info_agent_version info, nl],
           [''  Protocol Version: '', info_protocol_version info, nl],
           [''  Observed Address: '', tx_addr T (info_observed_addr info), nl],
           [''  Listen Addresses:'' @ nl]]
          @ map (\<lambda>addr. [''    '', tx_addr T addr, nl]) (info_listen_addrs info)
          @ [[''  Protocols:'' @ nl]]
          @ map (\<lambda>proto. [''    '', proto, nl]) (info_protocols info)
          @ (case map_of (pdc_peer_role s) target of
               Some role \<Rightarrow> [[''  Announced Role:   '', debug_role role, nl]]
             | None \<Rightarrow> []))"

text \<open>
  What the loop prints of a report that has new addresses. The lines are written here when the
  loop is over; in the code each is written during it. The terminal is the same, and so is the
  result: a line that cannot be written panics either way.
\<close>

definition progress_lines ::
  "('peer, 'fl) text_ops \<Rightarrow> 'peer \<Rightarrow> 'peer dht_progress \<Rightarrow> string list list" where
  "progress_lines T target r =
     [''DHT progress: '', dp_source r, '' reported '', show_nat (length (dp_new_addrs r)),
      '' new address(es) for target '', tx_peer T target, '' (total known='', show_nat (dp_known r),
      '', reports='', show_nat (dp_reports r), '')'' @ nl]
     # map (\<lambda>addr. [''  + '', tx_addr T addr, nl]) (dp_new_addrs r)"

definition show_bool :: "bool \<Rightarrow> string" where
  "show_bool b = (if b then ''true'' else ''false'')"

definition peer_summary ::
  "('peer, 'fl) text_ops \<Rightarrow> ('peer multiaddr list \<Rightarrow> 'peer multiaddr list)
     \<Rightarrow> (('peer \<times> 'peer identify_info) list \<Rightarrow> ('peer \<times> 'peer identify_info) list)
     \<Rightarrow> bool \<Rightarrow> 'peer \<Rightarrow> ('peer, 'q, 'sw) peer_discovery \<Rightarrow> string list list" where
  "peer_summary T addr_order details_order identified target s =
     [[nl], [''=== discover-peer summary ==='' @ nl],
      [''target:                    '', tx_peer T target, nl],
      [''identified target:         '', show_bool (pdc_target_identified s), nl],
      [''DHT reports for target:    '', show_nat (pdc_target_dht_reports s),
       '' (other peers told us about the target)'' @ nl],
      [''addresses known for target: '', show_nat (length (pdc_target_known_addresses s)),
       '' (learned via DHT, regardless of dial result)'' @ nl],
      [''peers seen via DHT:        '', show_nat (length (pdc_discovered s)), nl],
      [''peers identified:          '', show_nat (length (pdc_peer_details s)), nl],
      [''addresses dialed:          '', show_nat (length (pdc_dialed_addresses s)), nl]]
     @ (if pdc_target_known_addresses s \<noteq> [] then
          [[nl], [''Addresses learned for target '', tx_peer T target, '':'' @ nl]]
          @ map (\<lambda>addr. [''  '', tx_addr T addr, nl]) (addr_order (pdc_target_known_addresses s))
        else [])
     @ target_info_lines T s target
     @ (if identified then identified_lines T details_order (pdc_peer_details s) (pdc_peer_role s)
        else [])"

record peer_args =
  pa_url :: string
  pa_peer :: string
  pa_genesis :: "string option"
  pa_bootnodes :: "string list"
  pa_identified :: bool
  pa_timeout :: nat
  pa_query_timeout :: nat

text \<open>\<open>parse_target\<close> is the parser of peer identities with its error text.\<close>

definition discover_peer ::
  "'e node_world \<Rightarrow> ('peer, 'sw) swarm_start \<Rightarrow> ('peer, 'q, 'sw) swarm_ops \<Rightarrow> ('peer, 'q) loop_turn list
     \<Rightarrow> ('peer, 'fl) text_ops \<Rightarrow> ('peer multiaddr list \<Rightarrow> 'peer multiaddr list)
     \<Rightarrow> (('peer \<times> 'peer identify_info) list \<Rightarrow> ('peer \<times> 'peer identify_info) list)
     \<Rightarrow> (string \<Rightarrow> string + 'peer)
     \<Rightarrow> ('io, 'o) file_ops \<Rightarrow> ('io, 'f) file_ops \<Rightarrow> peer_args \<Rightarrow> ('io, 'e, 'o, 'f, unit) step" where
  "discover_peer N D K turns T addr_order details_order parse_target O1 F1 A =
     and_then (try_result (\<lambda>e. TextError (''Invalid --peer `'' @ pa_peer A @ ''`: '' @ e))
         (parse_target (pa_peer A))) (\<lambda>target.
     and_then (prepare_swarm N D O1 F1 (pa_url A) (pa_genesis A) (pa_bootnodes A) (pa_query_timeout A))
       (\<lambda>(genesis, b).
     and_then (say O1 F1 [[''Hunting peer '', tx_peer T target,
         '' via aggressive target-keyed DHT queries...'' @ nl]]) (\<lambda>_.
     and_then (unless_stuck (pdc_drive_events K turns (peer_discovery_new target (st_swarm D b)))) (\<lambda>s.
     and_then (say O1 F1 (concat (map (progress_lines T target) (pdc_printed s)))) (\<lambda>_.
     say O1 F1 (peer_summary T addr_order details_order (pa_identified A) target s))))))"

section \<open>authorities\<close>

definition report_text :: "('peer, 'fl) text_ops \<Rightarrow> 'peer report_line \<Rightarrow> string list" where
  "report_text T line =
     (case line of
        NoDhtResponse name \<Rightarrow> [''authority='', tx_debug_str T name, '' - No dht response'' @ nl]
      | NoAddresses name \<Rightarrow>
          [''authority='', tx_debug_str T name, '' - No addresses found in DHT record'' @ nl]
      | ReachedAuthority name peer_id agent details \<Rightarrow>
          [''authority='', tx_debug_str T name, '' peer_id='', tx_debug_peer T peer_id, '' addresses='',
           tx_debug_str T agent, '' version='', tx_debug_addrs T details, '' '' @ nl]
      | UnreachedAuthority name peer_id details \<Rightarrow>
          [''authority='', tx_debug_str T name, '' peer_id='', tx_debug_peer T peer_id, '' addresses='',
           tx_debug_addrs T details, '' - Cannot be reached'' @ nl])"

text \<open>The loop over the authorities: each prints its line, or panics before it.\<close>

fun print_authorities ::
  "('peer, 'fl) text_ops \<Rightarrow> ('io, 'o) file_ops \<Rightarrow> ('io, 'f) file_ops
     \<Rightarrow> ('peer authority_report \<Rightarrow> authority \<Rightarrow> panic + 'peer authority_report)
     \<Rightarrow> authority list \<Rightarrow> 'peer authority_report \<Rightarrow> ('io, 'e, 'o, 'f, 'peer authority_report) step" where
  "print_authorities T O1 F1 report [] rep = give rep"
| "print_authorities T O1 F1 report (authority # authorities) rep =
     and_then (unless_panic (report rep authority)) (\<lambda>rep'.
     and_then (say O1 F1 [report_text T (last (rep_lines rep'))]) (\<lambda>_.
     print_authorities T O1 F1 report authorities rep'))"

record authorities_args =
  aa_url :: string
  aa_genesis :: string
  aa_bootnodes :: "string list"
  aa_address_format :: string
  aa_raw_output :: bool
  aa_timeout :: nat
  aa_query_timeout :: nat

definition authorities_summary ::
  "('peer, 'fl) text_ops \<Rightarrow> (('peer \<times> 'peer identify_info) list \<Rightarrow> ('peer \<times> 'peer identify_info) list)
     \<Rightarrow> bool \<Rightarrow> ('peer, 'q, 'sw) authority_discovery \<Rightarrow> authority list \<Rightarrow> 'peer authority_report
     \<Rightarrow> string list list" where
  "authorities_summary T info_order raw_output s authorities rep =
     [[nl @ nl @ ''  Discovered '', show_nat (rep_reached rep), ''/'', show_nat (length authorities),
       '' authorities'' @ nl],
      ['' Discovered peers '', show_nat (length (ad_peer_info s)), nl]]
     @ (if raw_output then
          [nl @ '' Raw output of the discovered peers:'' @ nl]
          # map (\<lambda>(peer_id, info). [''peer_id='', tx_debug_peer T peer_id, '' info='',
              tx_debug_info T info, nl]) (info_order (ad_peer_info s))
        else [])
     @ [['' Litep2p authorities '', show_nat (rep_litep2p rep), nl]]"

definition discover_authorities ::
  "'e node_world \<Rightarrow> ('peer, 'sw) swarm_start \<Rightarrow> ('peer, 'q, 'sw, 'sig, 'pub, 'key, 're) ad_env
     \<Rightarrow> ('peer, 'q) ad_turn list \<Rightarrow> (bytes \<Rightarrow> bytes) \<Rightarrow> (bytes \<Rightarrow> string)
     \<Rightarrow> ('peer, 'fl) text_ops \<Rightarrow> ('peer multiaddr list \<Rightarrow> 'peer multiaddr list)
     \<Rightarrow> (('peer \<times> 'peer identify_info) list \<Rightarrow> ('peer \<times> 'peer identify_info) list)
     \<Rightarrow> ('io, 'o) file_ops \<Rightarrow> ('io, 'f) file_ops \<Rightarrow> authorities_args
     \<Rightarrow> ('io, 'e, 'o, 'f, ('peer, 'q, 'sw) authority_discovery \<times> authority list) step" where
  "discover_authorities N D E turns blake bs58 T iter_first info_order O1 F1 A =
     and_then (try_result (\<lambda>err. TextError (''Cannot parse the provided address format: '' @ err))
         (nw_parse_format N (aa_address_format A))) (\<lambda>version.
     and_then (try_result CallError (nw_parse_url N (aa_url A))) (\<lambda>rpc_url.
     and_then (try_panicking RpcError
         (runtime_api_autorities (nw_request N rpc_url) (nw_hex_decode N) (nw_scale_decode N)))
       (\<lambda>authorities.
     and_then (try_panicking CallError
         (build_swarm (st_parse_multiaddr D) (st_parse_peer D) (nw_hex_decode N) (st_from_slice D)
            (st_local_peer D) (aa_genesis A) (aa_bootnodes A) (aa_query_timeout A))) (\<lambda>b.
     (let s = discover E turns (authority_discovery_new (st_swarm D b) authorities)
      in and_then (print_authorities T O1 F1
             (\<lambda>rep authority. report_authority blake bs58 iter_first version s authority rep)
             authorities \<lparr>rep_lines = [], rep_reached = 0, rep_litep2p = 0\<rparr>) (\<lambda>rep.
         and_then (say O1 F1 (authorities_summary T info_order (aa_raw_output A) s authorities rep)) (\<lambda>_.
         give (s, authorities))))))))"

section \<open>What the commands print\<close>

text \<open>The swarm a command gets to.\<close>

definition swarm_ready ::
  "'e node_world \<Rightarrow> ('peer, 'sw) swarm_start \<Rightarrow> string \<Rightarrow> string option \<Rightarrow> string list \<Rightarrow> nat
     \<Rightarrow> string \<Rightarrow> 'peer built_swarm \<Rightarrow> bool" where
  "swarm_ready N D url genesis bootnodes dht_timeout g b \<longleftrightarrow>
     (\<exists>u nodes. nw_parse_url N url = Inr u \<and> resolved_genesis N u genesis = Some g
        \<and> resolve_bootnodes (nw_request N u) (nw_http_get N) (nw_merge_order N) u bootnodes = Inr nodes
        \<and> build_swarm (st_parse_multiaddr D) (st_parse_peer D) (nw_hex_decode N) (st_from_slice D)
            (st_local_peer D) g nodes dht_timeout = Inr (Inr b))"

text \<open>What is printed up to there.\<close>

definition preparation_text ::
  "'e node_world \<Rightarrow> string \<Rightarrow> string option \<Rightarrow> string \<Rightarrow> string list \<Rightarrow> string" where
  "preparation_text N url genesis g bootnodes =
     (case genesis of
        Some _ \<Rightarrow> []
      | None \<Rightarrow> ''       No genesis hash provided, fetching from RPC...'' @ nl
          @ ''       Genesis hash: 0x'' @ g @ nl)
     @ (case nw_parse_url N url of
          Inr u \<Rightarrow> bootnodes_text (nw_request N u) (nw_http_get N) (nw_rpc_text N) u bootnodes
        | Inl _ \<Rightarrow> [])"

lemma prints_genesis:
  assumes "appends O1" and "resolved_genesis N u genesis = Some g"
  shows "prints (print_genesis N O1 F1 u genesis)
    (case genesis of
       Some _ \<Rightarrow> []
     | None \<Rightarrow> ''       No genesis hash provided, fetching from RPC...'' @ nl
         @ ''       Genesis hash: 0x'' @ g @ nl) g"
proof (cases genesis)
  case None
  with assms(2) have fetched: "fetch_genesis_hash (nw_request N u) = Inr g"
    by (simp add: resolved_genesis_def split: sum.splits)
  have "prints (print_genesis N O1 F1 u genesis)
      (concat (concat [[''       No genesis hash provided, fetching from RPC...'' @ nl]]) @ []
       @ concat (concat [[''       Genesis hash: 0x'', g, nl]]) @ []) g"
    unfolding print_genesis_def None option.case
    by (intro prints_and_then [OF prints_say [OF assms(1)]] prints_and_then [OF prints_try [OF fetched]] prints_give)
  with None show ?thesis by simp
next
  case (Some h)
  with assms show ?thesis by (simp add: print_genesis_def resolved_genesis_def prints_give)
qed

lemma prints_prepare:
  assumes "appends O1" and "swarm_ready N D url genesis bootnodes dht_timeout g b"
  shows "prints (prepare_swarm N D O1 F1 url genesis bootnodes dht_timeout)
    (preparation_text N url genesis g bootnodes) (g, b)"
proof -
  obtain u nodes where u: "nw_parse_url N url = Inr u" "resolved_genesis N u genesis = Some g"
      "resolve_bootnodes (nw_request N u) (nw_http_get N) (nw_merge_order N) u bootnodes = Inr nodes"
      "build_swarm (st_parse_multiaddr D) (st_parse_peer D) (nw_hex_decode N) (st_from_slice D)
         (st_local_peer D) g nodes dht_timeout = Inr (Inr b)"
    using assms(2) by (auto simp: swarm_ready_def)
  have "prints (prepare_swarm N D O1 F1 url genesis bootnodes dht_timeout)
      ([] @ (case genesis of
          Some _ \<Rightarrow> []
        | None \<Rightarrow> ''       No genesis hash provided, fetching from RPC...'' @ nl
            @ ''       Genesis hash: 0x'' @ g @ nl)
       @ bootnodes_text (nw_request N u) (nw_http_get N) (nw_rpc_text N) u bootnodes @ [] @ []) (g, b)"
    unfolding prepare_swarm_def
    by (rule prints_and_then [OF prints_try [OF u(1)]], rule prints_and_then [OF prints_genesis [OF assms(1) u(2)]],
        rule prints_and_then [OF prints_bootnodes [OF assms(1) u(3)]],
        rule prints_and_then [OF prints_panicking [OF u(4)]], rule prints_give)
  with u(1) show ?thesis by (simp add: preparation_text_def)
qed

text \<open>The event loops of the discoveries end.\<close>

lemma network_loop_ends:
  assumes "fresh_query_ids K issued"
  shows "\<exists>s. nd_drive_events K turns (network_discovery_new sw) = Some s"
proof -
  have "nd_pool_ok K issued (network_discovery_new sw)"
    "length (nd_queries (network_discovery_new sw)) \<le> MAX_QUERIES"
    using assms by (simp_all add: nd_pool_ok_def network_discovery_new_def)
  then show ?thesis
    using nd_top_up_full nd_turns_full unfolding nd_drive_events_def by (metis option.simps(5))
qed

lemma peer_loop_ends:
  assumes "fresh_query_ids K issued"
  shows "\<exists>s. pdc_drive_events K turns (peer_discovery_new target sw) = Some s"
proof -
  have "pdc_pool_ok K issued (peer_discovery_new target sw)"
    "length (pdc_queries (peer_discovery_new target sw)) \<le> PEER_MAX_QUERIES"
    using assms by (simp_all add: pdc_pool_ok_def peer_discovery_new_def)
  then show ?thesis
    using pdc_top_up_full pdc_turns_full unfolding pdc_drive_events_def by (metis option.simps(5))
qed

text \<open>
  \<open>discover-peer\<close> reports what it learned: with a valid target and a swarm, the command
  returns; after what it tells of its preparation it prints each report of new addresses and ends
  with the summary of the state its event loop reached.
\<close>

theorem peer_command_reports:
  assumes "appends O1" and "fresh_query_ids K issued" and "parse_target (pa_peer A) = Inr target"
    and "swarm_ready N D (pa_url A) (pa_genesis A) (pa_bootnodes A) (pa_query_timeout A) g b"
  shows "\<exists>s. pdc_drive_events K turns (peer_discovery_new target (st_swarm D b)) = Some s
    \<and> discover_peer N D K turns T addr_order details_order parse_target O1 F1 A (dual_writer_new [] None) =
        (Returned (), dual_writer_new (preparation_text N (pa_url A) (pa_genesis A) g (pa_bootnodes A)
           @ ''Hunting peer '' @ tx_peer T target @ '' via aggressive target-keyed DHT queries...'' @ nl
           @ concat (concat (concat (map (progress_lines T target) (pdc_printed s))
               @ peer_summary T addr_order details_order (pa_identified A) target s))) None)"
proof -
  obtain s where s: "pdc_drive_events K turns (peer_discovery_new target (st_swarm D b)) = Some s"
    using peer_loop_ends [OF assms(2)] by blast
  define hunting where "hunting = [[''Hunting peer '', tx_peer T target,
    '' via aggressive target-keyed DHT queries...'' @ nl]]"
  define progress where "progress = concat (map (progress_lines T target) (pdc_printed s))"
  have "prints (discover_peer N D K turns T addr_order details_order parse_target O1 F1 A)
      ([] @ preparation_text N (pa_url A) (pa_genesis A) g (pa_bootnodes A) @ concat (concat hunting) @ []
       @ concat (concat progress)
       @ concat (concat (peer_summary T addr_order details_order (pa_identified A) target s))) ()"
    unfolding discover_peer_def hunting_def [symmetric]
    by (rule prints_and_then [OF prints_try [OF assms(3)]],
        rule prints_and_then [OF prints_prepare [OF assms(1,4)]], unfold prod.case)
      (unfold hunting_def progress_def, intro prints_and_then [OF prints_say [OF assms(1)]]
        prints_and_then [OF prints_stuck [OF s]] prints_say [OF assms(1)])
  with s show ?thesis
    by (auto simp: prints_def hunting_def progress_def)
qed

section \<open>Sample runs\<close>

definition sample_start :: "(nat, nat) swarm_start" where
  "sample_start =
     \<lparr>st_parse_multiaddr = (\<lambda>_. Some [P2p 3]), st_parse_peer = (\<lambda>_. Some 3),
      st_from_slice = Inr, st_local_peer = 0, st_swarm = (\<lambda>_. 0)\<rparr>"

definition sample_texts :: "(nat, nat) text_ops" where
  "sample_texts =
     \<lparr>tx_peer = show_nat, tx_addr = (\<lambda>_. ''/addr''), tx_debug_str = (\<lambda>s. s),
      tx_debug_peer = show_nat, tx_debug_addrs = (\<lambda>_. ''{}''), tx_debug_info = info_agent_version,
      tx_debug_location = loc_city\<rparr>"

definition sample_network_orders :: "(nat, nat) network_orders" where
  "sample_network_orders =
     \<lparr>no_roles = (\<lambda>xs. xs), no_details = rev, no_infos = (\<lambda>xs. xs), no_cities = (\<lambda>xs. xs), no_located = rev\<rparr>"

definition sample_network_args :: network_args where
  "sample_network_args =
     \<lparr>na_url = ''ws://localhost'', na_genesis = Some ''91'', na_bootnodes = [''/p2p/a''],
      na_num_cities = None, na_raw_geolocation = True, na_only_authorities = True,
      na_identified = True, na_timeout = 60, na_query_timeout = 10\<rparr>"

definition sample_peer_args :: peer_args where
  "sample_peer_args =
     \<lparr>pa_url = ''ws://localhost'', pa_peer = ''QmA'', pa_genesis = Some ''91'',
      pa_bootnodes = [''/p2p/a''], pa_identified = True, pa_timeout = 60, pa_query_timeout = 10\<rparr>"

definition sample_authorities_args :: authorities_args where
  "sample_authorities_args =
     \<lparr>aa_url = ''ws://localhost'', aa_genesis = ''91'', aa_bootnodes = [''/p2p/a''],
      aa_address_format = ''polkadot'', aa_raw_output = True, aa_timeout = 60, aa_query_timeout = 10\<rparr>"

lemma sample_build:
  "\<exists>b. build_swarm (st_parse_multiaddr sample_start) (st_parse_peer sample_start)
     (nw_hex_decode sample_node) (st_from_slice sample_start) (st_local_peer sample_start)
     ''91'' [''/p2p/a''] 10 = Inr (Inr b)"
  by (simp add: build_swarm_def sample_start_def sample_node_def parse_bootnode_def discovery_build_def Let_def)

lemma sample_ready:
  "\<exists>b. swarm_ready sample_node sample_start ''ws://localhost'' (Some ''91'') [''/p2p/a''] 10 ''91'' b"
proof -
  have "resolve_bootnodes (nw_request sample_node sample_url) (nw_http_get sample_node)
      (nw_merge_order sample_node) sample_url [''/p2p/a''] = Inr [''/p2p/a'']"
    by code_simp
  with sample_build show ?thesis
    by (simp add: swarm_ready_def sample_parse resolved_genesis_def)
qed

theorem peer_command_reports_witness:
  "\<exists>(s :: (nat, nat, nat) peer_discovery) before. discover_peer sample_node sample_start counting_swarm
      [OnSwarm (DiscoveryEvent (RoutablePeer 7 [Tcp 1])), OnResubmit] sample_texts rev rev
      (\<lambda>_. Inr 7) memory_file memory_file sample_peer_args (dual_writer_new [] None) =
    (Returned (), dual_writer_new (before @ concat (concat
       (peer_summary sample_texts rev rev True 7 s))) None)"
proof -
  obtain b where b: "swarm_ready sample_node sample_start (pa_url sample_peer_args)
      (pa_genesis sample_peer_args) (pa_bootnodes sample_peer_args)
      (pa_query_timeout sample_peer_args) ''91'' b"
    using sample_ready by (auto simp: sample_peer_args_def)
  have target: "(\<lambda>_ :: string. Inr 7 :: string + nat) (pa_peer sample_peer_args) = Inr 7" by simp
  have identified: "pa_identified sample_peer_args" by (simp add: sample_peer_args_def)
  from peer_command_reports [OF memory_file_appends counting_swarm_fresh target b,
      of "[OnSwarm (DiscoveryEvent (RoutablePeer 7 [Tcp 1])), OnResubmit]" sample_texts rev rev memory_file]
  obtain s :: "(nat, nat, nat) peer_discovery" where "discover_peer sample_node sample_start counting_swarm
      [OnSwarm (DiscoveryEvent (RoutablePeer 7 [Tcp 1])), OnResubmit] sample_texts rev rev
      (\<lambda>_. Inr 7) memory_file memory_file sample_peer_args (dual_writer_new [] None) =
    (Returned (), dual_writer_new (preparation_text sample_node (pa_url sample_peer_args)
        (pa_genesis sample_peer_args) ''91'' (pa_bootnodes sample_peer_args)
      @ ''Hunting peer '' @ tx_peer sample_texts 7 @ '' via aggressive target-keyed DHT queries...'' @ nl
      @ concat (concat (concat (map (progress_lines sample_texts 7) (pdc_printed s))
               @ peer_summary sample_texts rev rev (pa_identified sample_peer_args) 7 s))) None)" by blast
  then show ?thesis
    unfolding concat_append append_assoc [symmetric] using identified
    by (intro exI [of _ s] exI) (simp only:)
qed

end
