(* ===== verification/Cli_Options.thy ===== *)
theory Cli_Options
  imports Discovery_Commands
begin

text \<open>
  The parts of \<open>cli/src/main.rs\<close> with logic of their own: the parser of durations, and the
  \<open>Authorities\<close> branch of \<open>main\<close>, which resolves the bootnodes before the command.
\<close>

section \<open>Durations\<close>

text \<open>\<open>str::parse::<u64>\<close>, digit by digit.\<close>

datatype parse_int_error = EmptyNumber | InvalidDigit | PosOverflow

definition to_digit :: "char \<Rightarrow> nat option" where
  "to_digit c =
     (let n = of_char c :: nat in if 48 \<le> n \<and> n < 58 then Some (n - 48) else None)"

fun parse_digits :: "nat \<Rightarrow> string \<Rightarrow> parse_int_error + nat" where
  "parse_digits acc [] = Inr acc"
| "parse_digits acc (c # cs) =
     (case to_digit c of
        None \<Rightarrow> Inl InvalidDigit
      | Some d \<Rightarrow>
          (if 2 ^ 64 \<le> acc * 10 then Inl PosOverflow
           else if 2 ^ 64 \<le> acc * 10 + d then Inl PosOverflow
           else parse_digits (acc * 10 + d) cs))"

definition parse_u64 :: "string \<Rightarrow> parse_int_error + nat" where
  "parse_u64 s =
     (case s of
        [] \<Rightarrow> Inl EmptyNumber
      | c # cs \<Rightarrow>
          (if cs = [] \<and> (c = CHR ''+'' \<or> c = CHR ''-'') then Inl InvalidDigit
           else if c = CHR ''+'' then parse_digits 0 cs
           else parse_digits 0 (c # cs)))"

text \<open>A duration is a number of seconds.\<close>

definition parse_duration :: "string \<Rightarrow> parse_int_error + nat" where
  "parse_duration arg = (case parse_u64 arg of Inl e \<Rightarrow> Inl e | Inr seconds \<Rightarrow> Inr seconds)"

section \<open>The Authorities branch\<close>

definition authorities_command ::
  "'e node_world \<Rightarrow> ('peer, 'sw) swarm_start \<Rightarrow> ('peer, 'q, 'sw, 'sig, 'pub, 'key, 're) ad_env
     \<Rightarrow> ('peer, 'q) ad_turn list \<Rightarrow> (bytes \<Rightarrow> bytes) \<Rightarrow> (bytes \<Rightarrow> string)
     \<Rightarrow> ('peer, 'fl) text_ops \<Rightarrow> ('peer multiaddr list \<Rightarrow> 'peer multiaddr list)
     \<Rightarrow> (('peer \<times> 'peer identify_info) list \<Rightarrow> ('peer \<times> 'peer identify_info) list)
     \<Rightarrow> ('io, 'o) file_ops \<Rightarrow> ('io, 'f) file_ops \<Rightarrow> authorities_args \<Rightarrow> ('io, 'e, 'o, 'f, unit) step" where
  "authorities_command N D E turns blake bs58 T iter_first info_order O1 F1 A =
     and_then (try_result CallError (nw_parse_url N (aa_url A))) (\<lambda>rpc_url.
     and_then (resolve_bootnodes_with O1 F1 (nw_request N rpc_url) (nw_http_get N) (nw_rpc_text N)
         (nw_merge_order N) rpc_url (aa_bootnodes A)) (\<lambda>bootnodes.
     and_then (discover_authorities N D E turns blake bs58 T iter_first info_order O1 F1
         (A\<lparr>aa_bootnodes := bootnodes\<rparr>)) (\<lambda>_.
     give ())))"

section \<open>Properties\<close>

lemma to_digit_char: "d < 10 \<Longrightarrow> to_digit (char_of (48 + d)) = Some d"
  by (simp add: to_digit_def Let_def)

lemma parse_digits_show:
  "parse_digits 0 (show_nat n @ cs) = (if n < 2 ^ 64 then parse_digits n cs else Inl PosOverflow)"
proof (induction n arbitrary: cs rule: show_nat.induct)
  case (1 n)
  show ?case
  proof (cases "n < 10")
    case True
    then show ?thesis
      by (subst show_nat.simps) (simp add: to_digit_char)
  next
    case False
    have "parse_digits 0 (show_nat n @ cs) =
        parse_digits 0 (show_nat (n div 10) @ char_of (48 + n mod 10) # cs)"
      using False by (subst show_nat.simps) simp
    also have "\<dots> = (if n div 10 < 2 ^ 64 then parse_digits (n div 10) (char_of (48 + n mod 10) # cs)
        else Inl PosOverflow)"
      by (rule 1 [OF False])
    also have "\<dots> = (if n < 2 ^ 64 then parse_digits n cs else Inl PosOverflow)"
    proof -
      have "n div 10 * 10 + n mod 10 = n" by simp
      then show ?thesis
        by (simp add: to_digit_char not_less del: mult.commute) linarith
    qed
    finally show ?thesis .
  qed
qed

lemma show_nat_head:
  obtains c cs where "show_nat n = c # cs" and "c \<noteq> CHR ''+''" and "c \<noteq> CHR ''-''"
proof -
  have "show_nat n \<noteq> [] \<and> to_digit (hd (show_nat n)) \<noteq> None"
  proof (induction n rule: show_nat.induct)
    case (1 n)
    then show ?case
      by (subst (1 2) show_nat.simps) (auto simp: to_digit_char)
  qed
  then show ?thesis
    by (intro that [of "hd (show_nat n)" "tl (show_nat n)"]) (auto simp: to_digit_def)
qed

text \<open>
  Durations are read exactly: the decimal text of a number of seconds, with or without a
  leading plus, gives that number if it fits in 64 bits, and an overflow otherwise.
\<close>

theorem parse_duration_exact:
  "parse_duration (show_nat n) = (if n < 2 ^ 64 then Inr n else Inl PosOverflow)
   \<and> parse_duration (''+'' @ show_nat n) = (if n < 2 ^ 64 then Inr n else Inl PosOverflow)"
proof -
  obtain c cs where c: "show_nat n = c # cs" "c \<noteq> CHR ''+''" "c \<noteq> CHR ''-''"
    by (rule show_nat_head)
  with parse_digits_show [of n "[]"] show ?thesis
    by (auto simp: parse_duration_def parse_u64_def split: sum.splits)
qed

end
