(* ===== verification/Cli_Main.thy ===== *)
theory Cli_Main
  imports Cli_Options Peer_Commands Check_Command
begin

text \<open>
  The command line program as a whole: the commands with their options and \<open>main\<close> of
  \<open>cli/src/main.rs\<close>, over the models of the commands. What a command needs of the world
  (node, network, terminal, files) is one record. The texts given to the program have been read
  by the argument parser, which yields a value of \<open>command\<close>.
\<close>

section \<open>Commands\<close>

record dial_args =
  da_address :: "string list"
  da_timeout :: nat

record extrinsic_args =
  ea_genesis :: string
  ea_bootnodes :: "string list"
  ea_extrinsics :: string

datatype command =
    Authorities authorities_args
  | AuthorityCheck check_args
  | DialPeer dial_args
  | SendExtrinisic extrinsic_args
  | DiscoverNetwork network_args
  | DiscoverPeer peer_args
  | VerifyBootnodes bootnodes_opts

section \<open>The world\<close>

record ('e, 'peer, 'sw, 'isw, 'fl, 'io, 'o, 'f) cli_base =
  cw_node :: "'e node_world"
  cw_start :: "('peer, 'sw) swarm_start"
  cw_text :: "('peer, 'fl) text_ops"
  cw_files :: "('peer, 'io, 'o, 'f) file_world"
  cw_identify :: "('peer, 'e, 'isw) identify_ops"
  cw_parse_peer :: "string \<Rightarrow> string + 'peer"
  cw_parse_addr :: "string \<Rightarrow> 'e + 'peer multiaddr"
  cw_read_file :: "string \<Rightarrow> 'e + bytes"
  cw_parse_json :: "bytes \<Rightarrow> string + json"
  cw_is_global :: "ip_addr \<Rightarrow> bool"
  cw_city_data :: "(ip_addr \<Rightarrow> 'fl geo_record option) option"
  cw_lookup_ip :: "string \<Rightarrow> ip_addr list option"

text \<open>The swarms with what happens on them, and the orders in which maps are iterated.\<close>

record ('e, 'peer, 'sw, 'isw, 'fl, 'io, 'o, 'f, 'q, 'sig, 'pub, 'key, 're, 'tx) cli_world =
  "('e, 'peer, 'sw, 'isw, 'fl, 'io, 'o, 'f) cli_base" +
  cw_swarm :: "('peer, 'q, 'sw) swarm_ops"
  cw_turns :: "('peer, 'q) loop_turn list"
  cw_net :: "('peer, 'q, 'sw, 'sig, 'pub, 'key, 're) net_world"
  cw_identify_events :: "'peer identify_swarm_event list"
  cw_notifications :: "('peer, 'tx) notifications_to_swarm option list"
  cw_network_orders :: "('peer, 'fl) network_orders"
  cw_addr_order :: "'peer multiaddr list \<Rightarrow> 'peer multiaddr list"
  cw_info_order :: "('peer \<times> 'peer identify_info) list \<Rightarrow> ('peer \<times> 'peer identify_info) list"
  cw_node_order :: "('peer, 'peer multiaddr list) hash_map \<Rightarrow> ('peer, 'peer multiaddr list) hash_map"
  cw_node_copy_order :: "('peer, 'peer multiaddr list) hash_map \<Rightarrow> ('peer, 'peer multiaddr list) hash_map"
  cw_blake :: "bytes \<Rightarrow> bytes"
  cw_bs58 :: "bytes \<Rightarrow> string"

definition cw_printing :: "('e, 'peer, 'sw, 'isw, 'fl, 'io, 'o, 'f, 'more) cli_base_scheme \<Rightarrow> 'peer printing" where
  "cw_printing W =
     \<lparr>pr_peer = tx_peer (cw_text W), pr_peer_debug = tx_debug_peer (cw_text W),
      pr_addr = tx_addr (cw_text W)\<rparr>"

section \<open>The branches\<close>

text \<open>\<open>println!\<close> for whole lines.\<close>

definition say_lines ::
  "('e, 'peer, 'sw, 'isw, 'fl, 'io, 'o, 'f, 'more) cli_base_scheme \<Rightarrow> string list
     \<Rightarrow> ('io, 'e, 'o, 'f, unit) step" where
  "say_lines W ls = say (fw_stdout (cw_files W)) (fw_log (cw_files W)) (map (\<lambda>l. [l, nl]) ls)"

definition dial_peer_command ::
  "('e, 'peer, 'sw, 'isw, 'fl, 'io, 'o, 'f, 'q, 'sig, 'pub, 'key, 're, 'tx) cli_world \<Rightarrow> dial_args
     \<Rightarrow> ('io, 'e, 'o, 'f, unit) step" where
  "dial_peer_command W A =
     and_then (unless_panic (dial_peer (cw_parse_addr W) (cw_identify W) (cw_printing W) (da_address A)
         (da_timeout A) (cw_identify_events W))) (\<lambda>(ls, failed).
     and_then (say_lines W ls) (\<lambda>_.
     try_result CallError (case failed of Some e \<Rightarrow> Inl e | None \<Rightarrow> Inr ())))"

text \<open>The texts of the errors of the options.\<close>

fun bootnodes_error_of :: "'e bootnodes_error \<Rightarrow> ('io, 'e) command_error" where
  "bootnodes_error_of Incompatible = TextError ''`--bootnodes` is incompatible with `--chain-spec`''"
| "bootnodes_error_of (FileError e) = CallError e"
| "bootnodes_error_of (InvalidChainSpec e) = TextError (''Invalid chain spec: '' @ e)"
| "bootnodes_error_of MissingBootNodes = TextError ''Missing `bootNodes`''"
| "bootnodes_error_of NotAnArray = TextError ''Invalid `bootNodes` format, expected array''"
| "bootnodes_error_of NotAString = TextError ''Invalid `bootNodes` format, expected string''"

definition verify_command ::
  "('e, 'peer, 'sw, 'isw, 'fl, 'io, 'o, 'f, 'q, 'sig, 'pub, 'key, 're, 'tx) cli_world \<Rightarrow> bootnodes_opts
     \<Rightarrow> ('io, 'e, 'o, 'f, unit) step" where
  "verify_command W opts =
     and_then (try_panicking bootnodes_error_of (verify_bootnodes_opts (cw_read_file W) (cw_parse_json W)
         (st_parse_multiaddr (cw_start W)) (st_parse_peer (cw_start W)) (cw_identify W) (cw_printing W)
         (cw_node_order W) (cw_node_copy_order W) (cw_identify_events W) opts)) (\<lambda>ls.
     say_lines W ls)"

text \<open>A submission that was not left waits for the next event.\<close>

definition extrinsic_command ::
  "('e, 'peer, 'sw, 'isw, 'fl, 'io, 'o, 'f, 'q, 'sig, 'pub, 'key, 're, 'tx) cli_world \<Rightarrow> extrinsic_args
     \<Rightarrow> ('io, 'e, 'o, 'f, unit) step" where
  "extrinsic_command W A =
     and_then (try_panicking CallError (submit_extrinsics (cw_swarm W)
         (st_parse_multiaddr (cw_start W)) (st_parse_peer (cw_start W)) (nw_hex_decode (cw_node W))
         (st_from_slice (cw_start W)) (st_swarm (cw_start W)) (st_local_peer (cw_start W))
         (ea_genesis A) (ea_bootnodes A) (ea_extrinsics A) (cw_notifications W)))
       (\<lambda>(_, ended, _). unless_stuck (if ended then Some () else None))"

section \<open>main\<close>

text \<open>
  The result, the writer at the end and the JSON file that was written. Only \<open>authority-check\<close>
  has a log file.
\<close>

definition main ::
  "('e, 'peer, 'sw, 'isw, 'fl, 'io, 'o, 'f, 'q, 'sig, 'pub, 'key, 're, 'tx) cli_world \<Rightarrow> command \<Rightarrow> 'o
     \<Rightarrow> (('io, 'e, unit) run \<times> ('o, 'f) dual_writer) \<times> (string \<times> 'peer json_report) option" where
  "main W cmd out =
     (let N = cw_node W; D = cw_start W; T = cw_text W; O1 = fw_stdout (cw_files W);
          F1 = fw_log (cw_files W); w = dual_writer_new out None
      in case cmd of
           SendExtrinisic A \<Rightarrow> (extrinsic_command W A w, None)
         | DiscoverNetwork A \<Rightarrow>
             (discover_network N D (cw_swarm W) (cw_turns W) T (cw_network_orders W) (cw_is_global W)
                (cw_city_data W) (cw_lookup_ip W) O1 F1 A w, None)
         | DiscoverPeer A \<Rightarrow>
             (discover_peer N D (cw_swarm W) (cw_turns W) T (cw_addr_order W) (cw_info_order W)
                (cw_parse_peer W) O1 F1 A w, None)
         | DialPeer A \<Rightarrow> (dial_peer_command W A w, None)
         | VerifyBootnodes opts \<Rightarrow> (verify_command W opts w, None)
         | Authorities A \<Rightarrow>
             (authorities_command N D (ne_discovery (cw_net W)) (ne_turns (cw_net W)) (cw_blake W)
                (cw_bs58 W) T (cw_addr_order W) (cw_info_order W) O1 F1 A w, None)
         | AuthorityCheck A \<Rightarrow> check_authorities N (cw_net W) (cw_files W) A out)"

section \<open>Steps that end\<close>

definition goes_on :: "('io, 'e, 'o, 'f, 'a) step \<Rightarrow> bool" where
  "goes_on m \<longleftrightarrow> (\<forall>w. fst (m w) \<noteq> Stuck)"

lemma not_stuck: "goes_on m \<Longrightarrow> fst (m w) \<noteq> Stuck"
  by (simp add: goes_on_def)

named_theorems going \<open>steps that never get stuck\<close>

lemma goes_and_then [going]: "goes_on m \<Longrightarrow> (\<And>x. goes_on (k x)) \<Longrightarrow> goes_on (and_then m k)"
  unfolding goes_on_def and_then_def
  by (auto split: prod.splits run.splits) (metis fst_conv)

lemma goes_basic [going]:
  "goes_on (give x)" "goes_on (try_result err r)" "goes_on (try_panicking err r')"
  "goes_on (unless_panic p)" "goes_on (emit O1 F1 pieces)" "goes_on (emit_ok O1 F1 lines)"
  "goes_on (say O1 F1 lines)" "goes_on (unless_stuck (Some y))"
  unfolding goes_on_def give_def try_result_def try_panicking_def unless_panic_def emit_def emit_ok_def
    say_def unless_stuck_def
  by (auto split: sum.splits prod.splits option.splits)

lemma goes_lines [going]: "goes_on (emit_lines O1 F1 lines)"
  by (induction lines) (simp_all add: emit_lines.simps going)

lemma goes_bootnodes [going]: "goes_on (resolve_bootnodes_with O1 F1 request get err order u nodes)"
  unfolding resolve_bootnodes_with_def given_bootnodes_def published_bootnodes_def Let_def
  by (simp add: going split: option.split sum.split)

text \<open>The phases of \<open>authority-check\<close>.\<close>

lemma goes_check [going]:
  "goes_on (resolve_version N O1 F1 u fmt)" "goes_on (resolve_genesis N O1 F1 u g)"
  "goes_on (fetch_authorities N O1 F1 u)" "goes_on (parse_identity_url N rpc)"
  "goes_on (resolve_names N O1 F1 u iu authorities)"
  "goes_on (discover_records N P decimal O1 F1 t qt genesis bootnodes authorities)"
  "goes_on (print_step F failing results)"
  unfolding resolve_version_def resolve_genesis_def fetch_authorities_def parse_identity_url_def
    resolve_names_def discover_records_def Let_def
  by (simp_all add: going split: option.split prod.split)
    (auto simp: goes_on_def print_step_def split: prod.splits print_outcome.splits)

lemma goes_progress [going]: "goes_on (progress_steps O1 F1 elapsed n public steps)"
  by (simp add: goes_on_def progress_steps_def emit_ok_def)

lemma goes_check_and_print [going]: "goes_on (check_and_print N P F A u)"
  unfolding check_and_print_def check_connectivity_def Let_def
  by (simp add: going)

lemma check_goes_on: "fst (fst (check_authorities N P F A out)) \<noteq> Stuck"
proof -
  have "check_and_print N P F A u w \<noteq> (Stuck, w')" for u w w'
    using goes_check_and_print [of N P F A u] unfolding goes_on_def by (metis fst_conv)
  then show ?thesis
    by (auto simp: check_authorities_def flush_step_def Let_def
        split: sum.splits prod.splits run.splits option.splits)
qed

text \<open>The other commands.\<close>

lemma goes_prepare [going]: "goes_on (prepare_swarm N D O1 F1 url genesis nodes t)"
  unfolding prepare_swarm_def print_genesis_def
  by (simp add: going split: option.split)

lemma goes_print_authorities [going]: "goes_on (print_authorities T O1 F1 report authorities rep)"
  by (induction authorities arbitrary: rep) (simp_all add: going)

lemma goes_authorities [going]: "goes_on (authorities_command N D E turns blake bs58 T ord iord O1 F1 A)"
  unfolding authorities_command_def discover_authorities_def Let_def
  by (simp add: going)

lemma goes_loops [going]:
  assumes "fresh_query_ids K issued"
  shows "goes_on (unless_stuck (nd_drive_events K turns (network_discovery_new sw)))"
    and "goes_on (unless_stuck (pdc_drive_events K turns (peer_discovery_new target sw)))"
  using network_loop_ends [OF assms, of turns sw] peer_loop_ends [OF assms, of turns target sw]
  by (auto intro: goes_basic)

lemma goes_discovery [going]:
  assumes "fresh_query_ids K issued"
  shows "goes_on (discover_network N D K turns T R is_global city_data lookup_ip O1 F1 A)"
    and "goes_on (discover_peer N D K turns T addr_order details_order parse_target O1 F1 B)"
  unfolding discover_network_def discover_peer_def
  by (simp_all add: going goes_loops [OF assms] split: prod.split)

lemma goes_given_peers [going]: "goes_on (dial_peer_command W A)" "goes_on (verify_command W opts)"
  unfolding dial_peer_command_def verify_command_def say_lines_def
  by (simp_all add: going split: prod.split)

section \<open>Submissions\<close>

definition submission_starts ::
  "('e, 'peer, 'sw, 'isw, 'fl, 'io, 'o, 'f, 'q, 'sig, 'pub, 'key, 're, 'tx) cli_world \<Rightarrow> extrinsic_args
     \<Rightarrow> bool" where
  "submission_starts W A \<longleftrightarrow>
     (\<exists>swarm payload.
        build_swarm (st_parse_multiaddr (cw_start W)) (st_parse_peer (cw_start W))
          (nw_hex_decode (cw_node W)) (st_from_slice (cw_start W)) (st_local_peer (cw_start W))
          (ea_genesis A) (ea_bootnodes A) 15 = Inr (Inr swarm)
        \<and> nw_hex_decode (cw_node W) (trim_start_matches ''0x'' (ea_extrinsics A)) = Inr payload)"

lemma extrinsic_stuck:
  "fst (extrinsic_command W A w) = Stuck \<longleftrightarrow>
     submission_starts W A \<and> length (filter is_notification (cw_notifications W)) \<le> 30"
proof -
  have stuck: "fst (submit_loop payload (cw_notifications W) submission_new) \<longleftrightarrow>
      30 < length (filter is_notification (cw_notifications W))" for payload
    using submit_loop_result [of payload "cw_notifications W"] by auto
  show ?thesis
    unfolding extrinsic_command_def submission_starts_def submit_extrinsics_def and_then_def
      try_panicking_def try_result_def
    by (simp add: case_prod_beta stuck unless_stuck_def not_less split: sum.split)
qed

section \<open>Arguments that are refused\<close>

text \<open>What is wrong with the arguments of a command, before anything is asked of the network.\<close>

definition bad_url ::
  "('e, 'peer, 'sw, 'isw, 'fl, 'io, 'o, 'f, 'q, 'sig, 'pub, 'key, 're, 'tx) cli_world \<Rightarrow> string
     \<Rightarrow> ('io, 'e) command_error option" where
  "bad_url W url = (case nw_parse_url (cw_node W) url of Inl e \<Rightarrow> Some (CallError e) | Inr _ \<Rightarrow> None)"

definition refusal ::
  "('e, 'peer, 'sw, 'isw, 'fl, 'io, 'o, 'f, 'q, 'sig, 'pub, 'key, 're, 'tx) cli_world \<Rightarrow> command
     \<Rightarrow> ('io, 'e) command_error option" where
  "refusal W cmd =
     (case cmd of
        Authorities A \<Rightarrow> bad_url W (aa_url A)
      | AuthorityCheck A \<Rightarrow> bad_url W (arg_url A)
      | DiscoverNetwork A \<Rightarrow> bad_url W (na_url A)
      | DiscoverPeer A \<Rightarrow>
          (case cw_parse_peer W (pa_peer A) of
             Inl e \<Rightarrow> Some (TextError (''Invalid --peer `'' @ pa_peer A @ ''`: '' @ e))
           | Inr _ \<Rightarrow> bad_url W (pa_url A))
      | VerifyBootnodes opts \<Rightarrow>
          (if bno_bootnodes opts \<noteq> [] \<and> bno_chain_spec opts \<noteq> None
           then Some (TextError ''`--bootnodes` is incompatible with `--chain-spec`'') else None)
      | _ \<Rightarrow> None)"

lemmas refusing_defs =
  discover_network_def discover_peer_def prepare_swarm_def authorities_command_def
  check_authorities_def verify_command_def verify_bootnodes_opts_def opts_bootnodes_def
  and_then_def try_result_def try_panicking_def

section \<open>A sample world\<close>

definition sample_cli ::
  "(nat, nat, nat, unit, nat, unit, string, string, nat, bytes, bytes, nat, nat, nat) cli_world" where
  "sample_cli =
     \<lparr>cw_node = sample_node, cw_start = sample_start, cw_text = sample_texts, cw_files = sample_files,
      cw_identify = \<lparr>id_build = (\<lambda>_. Inr ()), id_dial = (\<lambda>_ sw. (None, sw))\<rparr>,
      cw_parse_peer = (\<lambda>s. if s = [] then Inl ''empty'' else Inr 3), cw_parse_addr = (\<lambda>_. Inr []),
      cw_read_file = (\<lambda>_. Inl 2), cw_parse_json = (\<lambda>_. Inl ''json''), cw_is_global = (\<lambda>_. True),
      cw_city_data = Some (\<lambda>_. None), cw_lookup_ip = (\<lambda>_. None),
      cw_swarm = counting_swarm, cw_turns = [], cw_net = sample_net, cw_identify_events = [],
      cw_notifications = [], cw_network_orders = sample_network_orders, cw_addr_order = (\<lambda>xs. xs),
      cw_info_order = (\<lambda>xs. xs), cw_node_order = (\<lambda>xs. xs), cw_node_copy_order = rev,
      cw_blake = (\<lambda>_. [1, 2]), cw_bs58 = (\<lambda>_. ''5x'')\<rparr>"

end
