(* ===== verification/Command_Reports.thy ===== *)
theory Command_Reports
  imports Discovery_Commands
begin

text \<open>
  What the reports of \<open>discover-network\<close> and \<open>authorities\<close> say. The reports are specified here
  from the network events and the results of the discovery, without the functions that compute
  them: quantities are numbers of peers, lists of peers are enumerations of sets, the cities are
  a ranking, and the line of an authority is a relation with one rule for each thing that can be
  said. The theorems relate the terminal after a command to these specifications.
\<close>

section \<open>What has been heard\<close>

text \<open>The last thing that is said in a history, by a reading of its single turns.\<close>

fun last_said :: "('t \<Rightarrow> 'a option) \<Rightarrow> 't list \<Rightarrow> 'a option" where
  "last_said f [] = None"
| "last_said f (t # ts) = (case last_said f ts of Some x \<Rightarrow> Some x | None \<Rightarrow> f t)"

definition says_info :: "'peer \<Rightarrow> ('peer, 'q) swarm_event \<Rightarrow> 'peer identify_info option" where
  "says_info p ev = (case ev of Identified q info \<Rightarrow> if q = p then Some info else None | _ \<Rightarrow> None)"

definition says_role ::
  "(bytes \<Rightarrow> codec_error + u8 \<times> bytes) \<Rightarrow> 'peer \<Rightarrow> ('peer, 'q) swarm_event \<Rightarrow> protocol_role option" where
  "says_role rb p ev =
     (case ev of
        ProtocolOpen q index handshake inbound \<Rightarrow>
          if q = p then (case decode_role rb handshake of Inr (role, _) \<Rightarrow> Some role | Inl _ \<Rightarrow> None) else None
      | _ \<Rightarrow> None)"

text \<open>The turns of the event loop of \<open>discover-network\<close>.\<close>

definition on_swarm :: "(('peer, 'q) swarm_event \<Rightarrow> 'a option) \<Rightarrow> ('peer, 'q) loop_turn \<Rightarrow> 'a option" where
  "on_swarm f t = (case t of OnSwarm ev \<Rightarrow> f ev | _ \<Rightarrow> None)"

definition identified_as :: "('peer, 'q) loop_turn list \<Rightarrow> 'peer \<Rightarrow> 'peer identify_info option" where
  "identified_as turns p = last_said (on_swarm (says_info p)) turns"

definition announced_as ::
  "(bytes \<Rightarrow> codec_error + u8 \<times> bytes) \<Rightarrow> ('peer, 'q) loop_turn list \<Rightarrow> 'peer \<Rightarrow> protocol_role option" where
  "announced_as rb turns p = last_said (on_swarm (says_role rb p)) turns"

definition peers_dialed :: "('peer, 'q) loop_turn list \<Rightarrow> 'peer set" where
  "peers_dialed turns = {p. OnSwarm (Dialing (Some p)) \<in> set turns}"

definition peers_surfaced :: "('peer, 'q) loop_turn list \<Rightarrow> 'peer set" where
  "peers_surfaced turns =
     {p. (\<exists>as. OnSwarm (DiscoveryEvent (RoutingUpdated p as)) \<in> set turns)
       \<or> (\<exists>a. OnSwarm (DiscoveryEvent (RoutablePeer p a)) \<in> set turns)
       \<or> (\<exists>a. OnSwarm (DiscoveryEvent (PendingRoutablePeer p a)) \<in> set turns)}"

text \<open>The four maps of the discovery, and what a turn does to them.\<close>

definition nd_maps ::
  "('peer, 'q, 'sw) network_discovery \<Rightarrow> ('peer, 'peer multiaddr hash_set) hash_map
     \<times> ('peer, 'peer identify_info) hash_map \<times> ('peer, protocol_role) hash_map \<times> ('peer, nat) hash_map" where
  "nd_maps s = (nd_discovered s, nd_peer_details s, nd_peer_role s, nd_dialed_peers s)"

lemma nd_dial_maps [simp]:
  "nd_peer_details (nd_force_dial K p a s) = nd_peer_details s"
  "nd_peer_role (nd_force_dial K p a s) = nd_peer_role s"
  by (simp_all add: nd_force_dial_def Let_def split: prod.splits)

lemma nd_fold_dial_maps [simp]:
  "nd_discovered (fold (nd_force_dial K p) as s) = nd_discovered s"
  "nd_peer_details (fold (nd_force_dial K p) as s) = nd_peer_details s"
  "nd_peer_role (fold (nd_force_dial K p) as s) = nd_peer_role s"
  by (induction as arbitrary: s) simp_all

lemma nd_maps_top_up: "nd_top_up_queries K s = Some s' \<Longrightarrow> nd_maps s' = nd_maps s"
  unfolding nd_top_up_queries_def
  by (erule fill_loop_inv [where I = "\<lambda>t. nd_maps t = nd_maps s"])
    (auto simp: nd_maps_def nd_submit_def split: prod.splits)

lemma nd_maps_turn:
  assumes "nd_turn K t s = Some s'"
  shows "nd_maps s' =
    (case t of
       OnSwarm (Dialing (Some p)) \<Rightarrow>
         (nd_discovered s, nd_peer_details s, nd_peer_role s,
          map_entry p (\<lambda>num. num + 1) 0 (nd_dialed_peers s))
     | OnSwarm (DiscoveryEvent (RoutingUpdated p as)) \<Rightarrow>
         (note_addresses p as (nd_discovered s), nd_peer_details s, nd_peer_role s, nd_dialed_peers s)
     | OnSwarm (DiscoveryEvent (RoutablePeer p a)) \<Rightarrow>
         (note_addresses p [a] (nd_discovered s), nd_peer_details s, nd_peer_role s, nd_dialed_peers s)
     | OnSwarm (DiscoveryEvent (PendingRoutablePeer p a)) \<Rightarrow>
         (note_addresses p [a] (nd_discovered s), nd_peer_details s, nd_peer_role s, nd_dialed_peers s)
     | OnSwarm (Identified p info) \<Rightarrow>
         (nd_discovered s, AList.update p info (nd_peer_details s), nd_peer_role s, nd_dialed_peers s)
     | OnSwarm (ProtocolOpen p i h b) \<Rightarrow>
         (nd_discovered s, nd_peer_details s, note_role (read_byte K) p h (nd_peer_role s), nd_dialed_peers s)
     | _ \<Rightarrow> nd_maps s)"
proof (cases t)
  case (OnSwarm ev)
  show ?thesis
  proof (cases ev)
    case (DiscoveryEvent k)
    show ?thesis
    proof (cases k)
      case (OutboundQueryProgressed i result)
      then show ?thesis
        using assms OnSwarm DiscoveryEvent
          nd_maps_top_up [of K "s\<lparr>nd_queries := set_remove i (nd_queries s)\<rparr>" s']
        by (cases "closest_peers result")
          (simp_all add: nd_turn_def nd_handle_event_def nd_handle_kad_def nd_maps_def)
    qed (use assms OnSwarm DiscoveryEvent in \<open>auto simp: nd_turn_def nd_handle_event_def
        nd_handle_kad_def Let_def nd_maps_def\<close>)
  qed (use assms OnSwarm in \<open>auto simp: nd_turn_def nd_handle_event_def nd_maps_def nd_dialed_peer_def
      split: option.splits\<close>)
next
  case OnResubmit
  with assms nd_maps_top_up [of K s s'] show ?thesis by (simp add: nd_turn_def)
next
  case OnLog
  with assms show ?thesis by (simp add: nd_turn_def)
qed

definition nd_wf :: "('peer, 'q, 'sw) network_discovery \<Rightarrow> bool" where
  "nd_wf s \<longleftrightarrow> wf_map (nd_discovered s) \<and> wf_map (nd_peer_details s) \<and> wf_map (nd_peer_role s)
     \<and> wf_map (nd_dialed_peers s)"

lemma nd_turn_heard:
  assumes "nd_turn K t s = Some s'" and "nd_wf s"
  shows "nd_wf s'
    \<and> map_of (nd_peer_details s') p =
        (case on_swarm (says_info p) t of Some i \<Rightarrow> Some i | None \<Rightarrow> map_of (nd_peer_details s) p)
    \<and> map_of (nd_peer_role s') p =
        (case on_swarm (says_role (read_byte K) p) t of Some r \<Rightarrow> Some r | None \<Rightarrow> map_of (nd_peer_role s) p)
    \<and> fst ` set (nd_dialed_peers s') = fst ` set (nd_dialed_peers s) \<union> peers_dialed [t]
    \<and> fst ` set (nd_discovered s') = fst ` set (nd_discovered s) \<union> peers_surfaced [t]"
proof -
  have keys: "fst ` set (note_addresses q as m) = insert q (fst ` set m)" for q as and m :: "('a, 'a multiaddr hash_set) hash_map"
    by (simp add: note_addresses_def keys_update split: option.splits)
  note heard = on_swarm_def says_info_def says_role_def peers_dialed_def peers_surfaced_def nd_wf_def keys
    update_conv' keys_map_entry nd_maps_def note_role_def
  show ?thesis
  proof (cases t)
    case (OnSwarm ev)
    then show ?thesis
    proof (cases ev)
      case (Dialing q)
      with OnSwarm show ?thesis
        using nd_maps_turn [OF assms(1)] assms(2) by (cases q) (auto simp: heard)
    next
      case (DiscoveryEvent k)
      with OnSwarm show ?thesis
        using nd_maps_turn [OF assms(1)] assms(2) by (cases k) (auto simp: heard)
    next
      case (ProtocolOpen q i h b)
      with OnSwarm show ?thesis
        using nd_maps_turn [OF assms(1)] assms(2)
        by (cases "decode_role (read_byte K) h") (auto simp: heard)
    qed (use nd_maps_turn [OF assms(1)] assms(2) in \<open>auto simp: heard\<close>)
  qed (use nd_maps_turn [OF assms(1)] assms(2) in \<open>auto simp: heard\<close>)
qed

lemma nd_turns_heard:
  "nd_turns K ts s = Some s' \<Longrightarrow> nd_wf s \<Longrightarrow> nd_wf s'
    \<and> map_of (nd_peer_details s') p =
        (case identified_as ts p of Some i \<Rightarrow> Some i | None \<Rightarrow> map_of (nd_peer_details s) p)
    \<and> map_of (nd_peer_role s') p =
        (case announced_as (read_byte K) ts p of Some r \<Rightarrow> Some r | None \<Rightarrow> map_of (nd_peer_role s) p)
    \<and> fst ` set (nd_dialed_peers s') = fst ` set (nd_dialed_peers s) \<union> peers_dialed ts
    \<and> fst ` set (nd_discovered s') = fst ` set (nd_discovered s) \<union> peers_surfaced ts"
proof (induction ts arbitrary: s)
  case Nil
  then show ?case
    by (simp add: identified_as_def announced_as_def peers_dialed_def peers_surfaced_def)
next
  case (Cons t ts)
  then obtain s1 where s1: "nd_turn K t s = Some s1" "nd_turns K ts s1 = Some s'"
    by (auto split: option.splits)
  note turn = nd_turn_heard [OF s1(1) Cons.prems(2), of p]
  have "peers_dialed (t # ts) = peers_dialed [t] \<union> peers_dialed ts"
    "peers_surfaced (t # ts) = peers_surfaced [t] \<union> peers_surfaced ts"
    by (auto simp: peers_dialed_def peers_surfaced_def)
  with turn Cons.IH [OF s1(2)] show ?case
    by (simp add: identified_as_def announced_as_def Un_assoc split: option.splits)
qed

lemma network_heard:
  assumes "nd_drive_events K turns (network_discovery_new sw) = Some s"
  shows "nd_wf s" and "map_of (nd_peer_details s) = identified_as turns"
    and "map_of (nd_peer_role s) = announced_as (read_byte K) turns"
    and "fst ` set (nd_dialed_peers s) = peers_dialed turns"
    and "fst ` set (nd_discovered s) = peers_surfaced turns"
proof -
  obtain s1 where s1: "nd_top_up_queries K (network_discovery_new sw) = Some s1" "nd_turns K turns s1 = Some s"
    using assms by (auto simp: nd_drive_events_def split: option.splits)
  have "nd_maps s1 = ([], [], [], [])"
    using nd_maps_top_up [OF s1(1)] by (simp add: nd_maps_def network_discovery_new_def)
  then have "nd_wf s1" "nd_discovered s1 = []" "nd_peer_details s1 = []" "nd_peer_role s1 = []"
    "nd_dialed_peers s1 = []"
    by (simp_all add: nd_maps_def nd_wf_def)
  with nd_turns_heard [OF s1(2)] show "nd_wf s" and "map_of (nd_peer_details s) = identified_as turns"
    and "map_of (nd_peer_role s) = announced_as (read_byte K) turns"
    and "fst ` set (nd_dialed_peers s) = peers_dialed turns"
    and "fst ` set (nd_discovered s) = peers_surfaced turns"
    by (auto simp: fun_eq_iff split: option.splits)
qed

section \<open>Numbers and lists of peers\<close>

definition enumerates :: "'a list \<Rightarrow> 'a set \<Rightarrow> bool" where
  "enumerates xs A \<longleftrightarrow> distinct xs \<and> set xs = A"

lemma in_map: "wf_map m \<Longrightarrow> (k, v) \<in> set m \<longleftrightarrow> map_of m k = Some v"
  by (simp add: map_of_eq_Some_iff)

lemma keys_dom: "fst ` set m = {k. map_of m k \<noteq> None}"
  using dom_map_of_conv_image_fst [of m] by (auto simp: dom_def)

lemma size_keys: "wf_map m \<Longrightarrow> length m = card (fst ` set m)"
  using distinct_card [of "map fst m"] by simp

lemma size_dom: "wf_map m \<Longrightarrow> length m = card {k. map_of m k \<noteq> None}"
  using distinct_card [of "map fst m"] by (simp add: keys_dom)

lemma wf_filter: "wf_map m \<Longrightarrow> wf_map (filter P m)"
  by (rule distinct_map_filter)

lemma count_entries:
  assumes "wf_map m"
  shows "length (filter P m) = card {k. \<exists>v. map_of m k = Some v \<and> P (k, v)}"
proof -
  have "fst ` set (filter P m) = {k. \<exists>v. map_of m k = Some v \<and> P (k, v)}"
    using in_map [OF assms] by (force simp: image_iff)
  with distinct_card [OF wf_filter [OF assms, of P]] show ?thesis by simp
qed

lemma enumerates_keys:
  assumes "wf_map m" and "permuting order"
  shows "enumerates (map fst (filter P (order m))) {k. \<exists>v. map_of m k = Some v \<and> P (k, v)}"
proof -
  have "distinct (map fst (order m))"
    using assms by (metis permuting_def mset_eq_imp_distinct_iff mset_map)
  then show ?thesis
    using in_map [OF assms(1)] permuting_set [OF assms(2), of m]
    by (force simp: enumerates_def distinct_map_filter image_iff)
qed

text \<open>Peers of the chain, and those of them that say they can be reached from outside.\<close>

definition supporters :: "string \<Rightarrow> ('peer \<Rightarrow> 'peer identify_info option) \<Rightarrow> 'peer set" where
  "supporters genesis I =
     {p. \<exists>info. I p = Some info \<and> (\<exists>proto \<in> set (info_protocols info). sublist genesis proto)}"

definition public_peers :: "(ip_addr \<Rightarrow> bool) \<Rightarrow> ('peer \<Rightarrow> 'peer identify_info option) \<Rightarrow> 'peer set" where
  "public_peers is_global I =
     {p. \<exists>info. I p = Some info \<and> (\<exists>a \<in> set (info_listen_addrs info). is_public_address is_global a)}"

lemma wf_genesis_infos: "wf_map m \<Longrightarrow> wf_map (genesis_infos g m)"
  unfolding genesis_infos_def by (rule wf_filter)

lemma genesis_infos_lookup:
  "wf_map m \<Longrightarrow> map_of (genesis_infos g m) p = (if p \<in> supporters g (map_of m) then map_of m p else None)"
proof -
  assume m: "wf_map m"
  have entry: "map_of (genesis_infos g m) p = Some i \<longleftrightarrow> map_of m p = Some i \<and> supports_genesis g i" for i
  proof -
    have "map_of (genesis_infos g m) p = Some i \<longleftrightarrow> (p, i) \<in> set (genesis_infos g m)"
      by (rule in_map [OF wf_genesis_infos [OF m], symmetric])
    also have "\<dots> \<longleftrightarrow> (p, i) \<in> set m \<and> supports_genesis g i"
      by (simp add: genesis_infos_def)
    also have "(p, i) \<in> set m \<longleftrightarrow> map_of m p = Some i"
      by (rule in_map [OF m])
    finally show ?thesis .
  qed
  have supp: "p \<in> supporters g (map_of m) \<longleftrightarrow> (\<exists>i. map_of m p = Some i \<and> supports_genesis g i)"
    by (simp add: supporters_def supports_genesis_def list_ex_iff str_contains_iff)
  show ?thesis
  proof (cases "map_of (genesis_infos g m) p")
    case None
    with entry supp show ?thesis by fastforce
  next
    case (Some i)
    with entry [of i] supp show ?thesis by auto
  qed
qed

lemma genesis_count: "wf_map m \<Longrightarrow> length (genesis_infos g m) = card (supporters g (map_of m))"
  unfolding genesis_infos_def
  by (subst count_entries) (simp_all add: supporters_def supports_genesis_def list_ex_iff str_contains_iff)

lemma public_count:
  assumes "wf_map m"
  shows "length (public_infos g (genesis_infos gen m)) = card (supporters gen (map_of m) \<inter> public_peers g (map_of m))"
    and "length (genesis_infos gen m) - length (public_infos g (genesis_infos gen m))
      = card (supporters gen (map_of m) - public_peers g (map_of m))"
proof -
  let ?S = "supporters gen (map_of m)" and ?P = "public_peers g (map_of m)"
  have public: "{p. \<exists>info. map_of (genesis_infos gen m) p = Some info
      \<and> list_ex (is_public_address g) (info_listen_addrs info)} = ?S \<inter> ?P"
    by (auto simp: genesis_infos_lookup [OF assms] public_peers_def list_ex_iff split: if_splits)
  show n: "length (public_infos g (genesis_infos gen m)) = card (?S \<inter> ?P)"
    unfolding public_infos_def
    using count_entries [OF wf_genesis_infos [OF assms],
      of "\<lambda>(_, info). list_ex (is_public_address g) (info_listen_addrs info)" gen]
    by (simp only: public prod.case)
  have "finite ?S"
    by (rule finite_subset [of _ "dom (map_of m)"]) (auto simp: supporters_def finite_dom_map_of)
  then have "card (?S - ?P) = card ?S - card (?S \<inter> ?P)"
    by (simp add: card_Diff_subset_Int)
  with n show "length (genesis_infos gen m) - length (public_infos g (genesis_infos gen m)) = card (?S - ?P)"
    by (simp add: genesis_count assms)
qed

section \<open>Where peers are\<close>

text \<open>
  The IP addresses an address leads to, and the place of a peer: the first one the database
  knows, over all its addresses in order.
\<close>

fun leads_to :: "(string \<Rightarrow> ip_addr list option) \<Rightarrow> 'peer multiaddr \<Rightarrow> ip_addr list" where
  "leads_to dns (Ip4 ip # rest) = [IpV4 ip]"
| "leads_to dns (Ip6 ip # rest) = [IpV6 ip]"
| "leads_to dns (Dns name # rest) = (case dns name of Some ips \<Rightarrow> ips | None \<Rightarrow> [])"
| "leads_to dns (Dns4 name # rest) = (case dns name of Some ips \<Rightarrow> ips | None \<Rightarrow> [])"
| "leads_to dns (Dns6 name # rest) = (case dns name of Some ips \<Rightarrow> ips | None \<Rightarrow> [])"
| "leads_to dns other = []"

definition place_of ::
  "(ip_addr \<Rightarrow> 'loc option) \<Rightarrow> (string \<Rightarrow> ip_addr list option) \<Rightarrow> 'peer identify_info \<Rightarrow> 'loc option" where
  "place_of known dns info =
     (case List.map_filter known (concat (map (leads_to dns) (info_listen_addrs info))) of
        [] \<Rightarrow> None | l # _ \<Rightarrow> Some l)"

lemma locate_address_first:
  "locate_address known dns a = (case List.map_filter known (leads_to dns a) of [] \<Rightarrow> None | l # _ \<Rightarrow> Some l)"
  by (cases "(dns, a)" rule: leads_to.cases)
    (auto simp: locate_address_def first_protocol_def Let_def List.map_filter_simps split: option.splits list.splits)

lemma map_filter_append: "List.map_filter f (xs @ ys) = List.map_filter f xs @ List.map_filter f ys"
  by (simp add: List.map_filter_def)

lemma locate_first_place:
  "locate_first (locate_address known dns) (info_listen_addrs info) = place_of known dns info"
proof -
  have "locate_first (locate_address known dns) addrs =
      (case List.map_filter known (concat (map (leads_to dns) addrs)) of [] \<Rightarrow> None | l # _ \<Rightarrow> Some l)" for addrs
    by (induction addrs)
      (auto simp: locate_address_first map_filter_append List.map_filter_simps split: list.splits)
  then show ?thesis by (simp add: place_of_def)
qed

lemma geolocate_Nil: "geolocate located city_of [] = ([], [])"
  by (simp add: geolocate_def)

lemma geolocate_snoc:
  "geolocate located city_of (infos @ [e]) = geolocate_step located city_of e (geolocate located city_of infos)"
  by (simp add: geolocate_def)

text \<open>The two maps of the loop: peers by city, and places by peer.\<close>

lemma geolocate_exact:
  assumes "wf_map infos" and "geolocate located city_of infos = (cities, places)"
  shows "wf_map cities \<and> wf_map places
    \<and> (\<forall>p. map_of places p = Option.bind (map_of infos p) (\<lambda>info. locate_first located (info_listen_addrs info)))
    \<and> (\<forall>c. map_of cities c =
        (if \<exists>p l. map_of places p = Some l \<and> city_of l = c
         then Some (card {p. \<exists>l. map_of places p = Some l \<and> city_of l = c}) else None))"
  using assms
proof (induction infos arbitrary: cities places rule: rev_induct)
  case Nil
  then show ?case by (simp add: geolocate_Nil)
next
  case (snoc e infos)
  obtain q info where e: "e = (q, info)" by (cases e)
  obtain cs ps where before: "geolocate located city_of infos = (cs, ps)" by (cases "geolocate located city_of infos")
  from snoc.prems(1) e have fresh: "map_of infos q = None" and wf: "wf_map infos"
    by (auto simp: map_of_eq_None_iff)
  note IH = snoc.IH [OF wf before]
  have look: "map_of (infos @ [e]) p = (if p = q then Some info else map_of infos p)" for p
    using fresh by (auto simp: e map_add_def split: option.splits)
  have now: "(cities, places) = geolocate_step located city_of e (cs, ps)"
    using snoc.prems(2) by (simp add: geolocate_snoc before)
  show ?case
  proof (cases "locate_first located (info_listen_addrs info)")
    case None
    with now e have "cities = cs" "places = ps" by (simp_all add: geolocate_step_def)
    moreover from IH fresh have "map_of ps q = None" by simp
    ultimately show ?thesis using IH None by (simp add: look del: map_of_append)
  next
    case (Some l)
    have places: "places = AList.update q l ps" and cities: "cities = map_entry (city_of l) (\<lambda>num. num + 1) 1 cs"
      using now e Some by (simp_all add: geolocate_step_def)
    have lookup: "map_of places p = (if p = q then Some l else map_of ps p)" for p
      by (simp add: places update_conv')
    from IH fresh have unplaced: "map_of ps q = None" by simp
    have here: "{p. \<exists>k. map_of places p = Some k \<and> city_of k = c} =
        (if c = city_of l then insert q else id) {p. \<exists>k. map_of ps p = Some k \<and> city_of k = c}" for c
      using unplaced by (auto simp: lookup)
    have fin: "finite {p. \<exists>k. map_of ps p = Some k \<and> city_of k = c}" for c
      by (rule finite_subset [of _ "dom (map_of ps)"]) (auto simp: finite_dom_map_of)
    have ex: "(\<exists>p k. map_of places p = Some k \<and> city_of k = c) \<longleftrightarrow>
        c = city_of l \<or> (\<exists>p k. map_of ps p = Some k \<and> city_of k = c)" for c
      using unplaced unfolding lookup by (metis option.distinct(1) option.inject)
    have count: "map_of cities c =
        (if \<exists>p k. map_of places p = Some k \<and> city_of k = c
         then Some (card {p. \<exists>k. map_of places p = Some k \<and> city_of k = c}) else None)" for c
    proof (cases "c = city_of l")
      case False
      then show ?thesis
        unfolding here ex using IH by (simp add: cities map_of_map_entry)
    next
      case True
      have "q \<notin> {p. \<exists>k. map_of ps p = Some k \<and> city_of k = c}" using unplaced by simp
      moreover have "{p. \<exists>k. map_of ps p = Some k \<and> city_of k = c} = {}"
        if "\<nexists>p k. map_of ps p = Some k \<and> city_of k = c" using that by blast
      ultimately show ?thesis
        unfolding here ex using IH True fin by (auto simp: cities map_of_map_entry)
    qed
    show ?thesis
      using IH Some count unplaced
      by (auto simp: look lookup simp del: map_of_append) (simp_all add: places cities)
  qed
qed

definition located ::
  "(ip_addr \<Rightarrow> 'fl geo_record option) \<Rightarrow> (string \<Rightarrow> ip_addr list option) \<Rightarrow> string
     \<Rightarrow> ('peer \<Rightarrow> 'peer identify_info option) \<Rightarrow> ('peer \<times> 'fl location) set" where
  "located db dns genesis I =
     {(p, l). p \<in> supporters genesis I \<and> (\<exists>info. I p = Some info \<and> place_of (locate db) dns info = Some l)}"

definition residents ::
  "(ip_addr \<Rightarrow> 'fl geo_record option) \<Rightarrow> (string \<Rightarrow> ip_addr list option) \<Rightarrow> string
     \<Rightarrow> ('peer \<Rightarrow> 'peer identify_info option) \<Rightarrow> string \<Rightarrow> 'peer set" where
  "residents db dns genesis I city = {p. \<exists>l. (p, l) \<in> located db dns genesis I \<and> loc_city l = city}"

text \<open>
  The first \<open>k\<close> cities of a ranking by residents: in falling order, each with its number, and
  none left out has more residents than one that is shown.
\<close>

definition ranking :: "(string \<times> nat) list \<Rightarrow> nat \<Rightarrow> (string \<Rightarrow> 'peer set) \<Rightarrow> bool" where
  "ranking shown k R \<longleftrightarrow>
     sorted_wrt (\<ge>) (map snd shown) \<and> distinct (map fst shown) \<and> length shown \<le> k
     \<and> (\<forall>(c, n) \<in> set shown. R c \<noteq> {} \<and> n = card (R c))
     \<and> (\<forall>c. c \<notin> fst ` set shown \<longrightarrow> R c \<noteq> {} \<longrightarrow>
          length shown = k \<and> (\<forall>(c', n) \<in> set shown. card (R c) \<le> n))"

lemma permuted_map:
  assumes "wf_map m" and "permuting order"
  shows "wf_map (order m)" and "map_of (order m) = map_of m"
proof -
  have "mset (map fst (order m)) = mset (map fst m)"
    using assms(2) by (simp add: permuting_def)
  then show wf: "wf_map (order m)"
    using assms(1) mset_eq_imp_distinct_iff by blast
  show "map_of (order m) = map_of m"
    using map_of_inject_set [OF wf assms(1)] by (simp add: permuting_set [OF assms(2)])
qed

lemma top_cities_rank:
  assumes "permuting order" and "wf_map cities"
    and "\<And>c. map_of cities c = (if R c \<noteq> {} then Some (card (R c)) else None)"
  shows "ranking (top_cities order num cities) (case num of Some n \<Rightarrow> n | None \<Rightarrow> 10) R"
proof -
  let ?k = "case num of Some n \<Rightarrow> n | None \<Rightarrow> 10" and ?f = "\<lambda>x :: string \<times> nat. - int (snd x)"
  define ys where "ys = sort_key ?f (order cities)"
  have shown: "top_cities order num cities = take ?k ys"
    by (simp add: top_cities_def ys_def)
  have "mset ys = mset cities"
    using assms(1) by (simp add: ys_def permuting_def)
  then have set_ys: "set ys = set cities" and "mset (map fst ys) = mset (map fst cities)"
    by (metis mset_eq_setD) (simp add: \<open>mset ys = mset cities\<close>)
  then have dist: "distinct (map fst ys)"
    using assms(2) mset_eq_imp_distinct_iff by blast
  have entry: "(c, n) \<in> set ys \<longleftrightarrow> R c \<noteq> {} \<and> n = card (R c)" for c n
    using in_map [OF assms(2), of c n] by (auto simp: set_ys assms(3))
  have "sorted (map ?f (take ?k ys @ drop ?k ys))"
    by (simp add: ys_def)
  then have srt: "sorted (map ?f (take ?k ys))"
      and cut: "\<And>x y. x \<in> set (take ?k ys) \<Longrightarrow> y \<in> set (drop ?k ys) \<Longrightarrow> ?f x \<le> ?f y"
    unfolding map_append sorted_append by auto
  have "sorted_wrt (\<ge>) (map snd (take ?k ys))"
    using srt unfolding sorted_wrt_map by (rule sorted_wrt_mono_rel [rotated]) auto
  moreover have "distinct (map fst (take ?k ys))"
    using dist by (simp add: take_map [symmetric])
  moreover have "length (take ?k ys) = ?k \<and> (\<forall>(c', n) \<in> set (take ?k ys). card (R c) \<le> n)"
    if c: "c \<notin> fst ` set (take ?k ys)" "R c \<noteq> {}" for c
  proof -
    have "(c, card (R c)) \<in> set (take ?k ys @ drop ?k ys)" using entry c(2) by simp
    with c(1) have dropped: "(c, card (R c)) \<in> set (drop ?k ys)" by (auto simp del: append_take_drop_id simp: image_iff)
    then have "?k \<le> length ys" by (metis drop_all empty_iff empty_set nat_le_linear)
    with cut dropped show ?thesis by fastforce
  qed
  moreover have "R c \<noteq> {} \<and> n = card (R c)" if "(c, n) \<in> set (take ?k ys)" for c n
    using that entry [of c n] in_set_takeD [OF that] by simp
  ultimately show ?thesis
    unfolding ranking_def shown by auto
qed

text \<open>The cities and places of a report.\<close>

lemma city_lists:
  assumes "wf_map details" and "permuting infos_order" and "permuting cities_order" and "permuting places_order"
    and g: "geolocate (locate_address (locate db) dns) loc_city (infos_order (genesis_infos g details)) = (cities, places)"
  shows "ranking (top_cities cities_order num cities) (case num of Some n \<Rightarrow> n | None \<Rightarrow> 10)
      (residents db dns g (map_of details))"
    and "enumerates (places_order places) (located db dns g (map_of details))"
proof -
  note infos = permuted_map [OF wf_genesis_infos [OF assms(1), of g] assms(2)]
  note exact = geolocate_exact [OF infos(1) g, unfolded infos(2) locate_first_place]
  from exact have wf: "wf_map cities" "wf_map places"
    and place: "\<And>p. map_of places p = Option.bind (map_of (genesis_infos g details) p) (place_of (locate db) dns)"
    and city: "\<And>c. map_of cities c =
        (if \<exists>p l. map_of places p = Some l \<and> loc_city l = c
         then Some (card {p. \<exists>l. map_of places p = Some l \<and> loc_city l = c}) else None)"
    by blast+
  have places: "map_of places p = Some l \<longleftrightarrow> (p, l) \<in> located db dns g (map_of details)" for p l
    unfolding place genesis_infos_lookup [OF assms(1)] located_def
    by (cases "map_of details p") auto
  have homes: "residents db dns g (map_of details) c = {p. \<exists>l. map_of places p = Some l \<and> loc_city l = c}" for c
    by (simp add: residents_def places)
  show "ranking (top_cities cities_order num cities) (case num of Some n \<Rightarrow> n | None \<Rightarrow> 10)
      (residents db dns g (map_of details))"
  proof (rule top_cities_rank [OF assms(3) wf(1)])
    show "map_of cities c = (if residents db dns g (map_of details) c \<noteq> {}
        then Some (card (residents db dns g (map_of details) c)) else None)" for c
      unfolding city homes by (rule if_cong) auto
  qed
  have "set places = located db dns g (map_of details)"
    using in_map [OF wf(2)] places by auto
  with wf show "enumerates (places_order places) (located db dns g (map_of details))"
    by (simp add: enumerates_def permuting_set [OF assms(4)] permuting_distinct [OF assms(4)] distinct_map)
qed

section \<open>The report of the network\<close>

text \<open>The iteration orders of the maps are rearrangements.\<close>

definition any_orders :: "('peer, 'fl) network_orders \<Rightarrow> bool" where
  "any_orders R \<longleftrightarrow>
     permuting (no_roles R) \<and> permuting (no_details R) \<and> permuting (no_infos R)
     \<and> permuting (no_cities R) \<and> permuting (no_located R)"

lemma concat_lines: "concat (concat (map f xs)) = concat (map (\<lambda>x. concat (f x)) xs)"
  by (induction xs) simp_all

lemma enumerates_entries:
  assumes "wf_map m" and "permuting order"
  shows "enumerates (order m) {(k, v). map_of m k = Some v}"
  using in_map [OF assms(1)] permuting_set [OF assms(2), of m] permuting_distinct [OF assms(2), of m] assms(1)
  by (auto simp: enumerates_def distinct_map)

lemma identified_lines_text:
  "concat (concat (identified_lines T order details announced)) =
     nl @ ''Identified peers (responded to identify) num='' @ show_nat (length details) @ nl
     @ concat (map (\<lambda>(p, info). ''identified='' @ tx_peer T p @ '' version=''
         @ tx_debug_str T (info_agent_version info) @ '' role=''
         @ (case map_of announced p of
              None \<Rightarrow> ''None'' | Some FullNode \<Rightarrow> ''Some(FullNode)''
            | Some LightNode \<Rightarrow> ''Some(LightNode)'' | Some Authority \<Rightarrow> ''Some(Authority)'') @ nl)
         (order details))"
  by (simp add: identified_lines_def concat_lines)
    (auto intro!: arg_cong [where f = concat] simp: debug_option_def debug_role_def
      split: option.splits protocol_role.splits)

lemma authority_lines_text:
  "concat (concat (map (\<lambda>peer. [''authority='', tx_peer T peer, '' version='',
      debug_option (tx_debug_str T) (map_option info_agent_version (map_of details peer)), nl]) ps)) =
   concat (map (\<lambda>p. ''authority='' @ tx_peer T p @ '' version=''
      @ (case map_of details p of
           None \<Rightarrow> ''None''
         | Some info \<Rightarrow> ''Some('' @ tx_debug_str T (info_agent_version info) @ '')'') @ nl) ps)"
  by (simp add: concat_lines)
    (auto intro!: arg_cong [where f = concat] simp: debug_option_def split: option.splits)

lemma network_counts_text:
  assumes "wf_map (nd_dialed_peers s)" and "wf_map (nd_discovered s)" and "wf_map (nd_peer_details s)"
    and "wf_map (nd_peer_role s)"
  shows "concat (concat (network_counts T R is_global g only_authorities identified s)) =
      ''Dialed num='' @ show_nat (card (fst ` set (nd_dialed_peers s))) @ '' peers'' @ nl
      @ ''Discovered num='' @ show_nat (card (fst ` set (nd_discovered s))) @ '' peers'' @ nl
      @ ''Peers with identity num='' @ show_nat (card {p. map_of (nd_peer_details s) p \<noteq> None}) @ nl
      @ ''Peers that support our genesis hash ''
      @ show_nat (card (supporters g (map_of (nd_peer_details s)))) @ nl
      @ ''  Peers with public addresses ''
      @ show_nat (card (supporters g (map_of (nd_peer_details s))
                        \<inter> public_peers is_global (map_of (nd_peer_details s)))) @ nl
      @ ''  Peers with private addresses ''
      @ show_nat (card (supporters g (map_of (nd_peer_details s))
                        - public_peers is_global (map_of (nd_peer_details s)))) @ nl
      @ ''Peers with role associated num='' @ show_nat (card {p. map_of (nd_peer_role s) p \<noteq> None}) @ nl
      @ (if only_authorities then concat (concat (map (\<lambda>peer. [''authority='', tx_peer T peer, '' version='',
           debug_option (tx_debug_str T) (map_option info_agent_version (map_of (nd_peer_details s) peer)), nl])
           (authority_peers (no_roles R (nd_peer_role s))))) else [])
      @ (if identified then concat (concat (identified_lines T (no_details R) (nd_peer_details s) (nd_peer_role s)))
         else [])"
  using public_count(2) [OF assms(3), of g is_global]
  by (simp add: network_counts_def Let_def genesis_count [OF assms(3)] public_count(1) [OF assms(3)]
      size_keys [OF assms(1)] size_keys [OF assms(2)] size_dom [OF assms(3)] size_dom [OF assms(4)])

lemma city_lines_text:
  assumes "geolocate (locate_address (locate db) dns) loc_city (no_infos R (genesis_infos g (nd_peer_details s))) =
      (cities, places)"
  shows "concat (concat (city_lines T R db dns g num raw s)) =
      concat (map (\<lambda>(city, n). ''   City='' @ city @ '' peers='' @ show_nat n @ nl)
        (top_cities (no_cities R) num cities))
      @ (if raw then nl @ concat (map (\<lambda>(p, l). ''   Peer '' @ tx_peer T p @ '': '' @ tx_debug_location T l @ nl)
           (no_located R places)) else [])"
  by (simp add: city_lines_def Let_def assms concat_lines case_prod_unfold)

text \<open>
  C21. \<open>discover-network\<close> reports what happened. When it can build its swarm and the terminal
  keeps what is printed, the command returns for every sequence of network events and timer ticks,
  and the terminal holds, after what is told of the preparation, just this: how many peers were
  dialed, surfaced and identified; how many of them support the genesis hash, and how many of
  these have a public address and how many have none; how many announced a role; on request, each
  peer that last announced itself an authority, with the version it last identified with, and each
  identified peer with its version and role; then the ranking of the cities by the supporting
  peers located there, cut at the requested number, and on request the place of each such peer. A
  peer is located at the first address the database knows. The order within the lists of peers is
  that of the hash maps.
\<close>

theorem network_command_reports:
  assumes "appends O1" and "fresh_query_ids K issued"
    and "swarm_ready N D (na_url A) (na_genesis A) (na_bootnodes A) (na_query_timeout A) g b"
    and "any_orders R"
    and "I = identified_as turns" and "roles_of = announced_as (read_byte K) turns"
  shows "\<exists>authorities identified cities places.
      enumerates authorities {p. roles_of p = Some Authority}
    \<and> enumerates identified {(p, info). I p = Some info}
    \<and> ranking cities (case na_num_cities A of Some k \<Rightarrow> k | None \<Rightarrow> 10) (residents db dns g I)
    \<and> enumerates places (located db dns g I)
    \<and> discover_network N D K turns T R is_global (Some db) dns O1 F1 A (dual_writer_new [] None) =
        (Returned (), dual_writer_new
          (preparation_text N (na_url A) (na_genesis A) g (na_bootnodes A)
           @ ''Dialed num='' @ show_nat (card (peers_dialed turns)) @ '' peers'' @ nl
           @ ''Discovered num='' @ show_nat (card (peers_surfaced turns)) @ '' peers'' @ nl
           @ ''Peers with identity num='' @ show_nat (card {p. I p \<noteq> None}) @ nl
           @ ''Peers that support our genesis hash '' @ show_nat (card (supporters g I)) @ nl
           @ ''  Peers with public addresses '' @ show_nat (card (supporters g I \<inter> public_peers is_global I)) @ nl
           @ ''  Peers with private addresses '' @ show_nat (card (supporters g I - public_peers is_global I)) @ nl
           @ ''Peers with role associated num='' @ show_nat (card {p. roles_of p \<noteq> None}) @ nl
           @ (if na_only_authorities A then
                concat (map (\<lambda>p. ''authority='' @ tx_peer T p @ '' version=''
                  @ (case I p of
                       None \<Rightarrow> ''None''
                     | Some info \<Rightarrow> ''Some('' @ tx_debug_str T (info_agent_version info) @ '')'') @ nl) authorities)
              else [])
           @ (if na_identified A then
                nl @ ''Identified peers (responded to identify) num='' @ show_nat (card {p. I p \<noteq> None}) @ nl
                @ concat (map (\<lambda>(p, info). ''identified='' @ tx_peer T p @ '' version=''
                    @ tx_debug_str T (info_agent_version info) @ '' role=''
                    @ (case roles_of p of
                         None \<Rightarrow> ''None'' | Some FullNode \<Rightarrow> ''Some(FullNode)''
                       | Some LightNode \<Rightarrow> ''Some(LightNode)'' | Some Authority \<Rightarrow> ''Some(Authority)'') @ nl)
                    identified)
              else [])
           @ concat (map (\<lambda>(city, n). ''   City='' @ city @ '' peers='' @ show_nat n @ nl) cities)
           @ (if na_raw_geolocation A then
                nl @ concat (map (\<lambda>(p, l). ''   Peer '' @ tx_peer T p @ '': '' @ tx_debug_location T l @ nl) places)
              else [])) None)"
proof -
  obtain s where s: "nd_drive_events K turns (network_discovery_new (st_swarm D b)) = Some s"
    using network_loop_ends [OF assms(2)] by blast
  note heard = network_heard [OF s, folded assms(5,6)]
  from heard(1) have wf: "wf_map (nd_dialed_peers s)" "wf_map (nd_discovered s)" "wf_map (nd_peer_details s)"
      "wf_map (nd_peer_role s)" by (simp_all add: nd_wf_def)
  from assms(4) have orders: "permuting (no_roles R)" "permuting (no_details R)" "permuting (no_infos R)"
      "permuting (no_cities R)" "permuting (no_located R)" by (simp_all add: any_orders_def)
  have db: "locator_new (Some db) = Inr db"
    by (simp add: locator_new_def)
  obtain cities places where geo: "geolocate (locate_address (locate db) dns) loc_city
      (no_infos R (genesis_infos g (nd_peer_details s))) = (cities, places)"
    by (metis surj_pair)
  let ?counts = "network_counts T R is_global g (na_only_authorities A) (na_identified A) s"
    and ?lines = "city_lines T R db dns g (na_num_cities A) (na_raw_geolocation A) s"
  have "prints (discover_network N D K turns T R is_global (Some db) dns O1 F1 A)
      (preparation_text N (na_url A) (na_genesis A) g (na_bootnodes A)
       @ [] @ concat (concat ?counts) @ [] @ concat (concat ?lines)) ()"
    unfolding discover_network_def
    by (rule prints_and_then [OF prints_prepare [OF assms(1,3)]], unfold prod.case)
      (intro prints_and_then [OF prints_stuck [OF s]] prints_and_then [OF prints_say [OF assms(1)]]
        prints_and_then [OF prints_unless [OF db]] prints_say [OF assms(1)])
  then have run: "discover_network N D K turns T R is_global (Some db) dns O1 F1 A (dual_writer_new [] None) =
      (Returned (), dual_writer_new (preparation_text N (na_url A) (na_genesis A) g (na_bootnodes A)
         @ concat (concat ?counts) @ concat (concat ?lines)) None)"
    by (simp add: prints_def)
  have "enumerates (authority_peers (no_roles R (nd_peer_role s))) {p. roles_of p = Some Authority}"
    using enumerates_keys [OF wf(4) orders(1), of "\<lambda>(_, role). role = Authority"]
    by (simp add: authority_peers_def heard(3))
  moreover have "enumerates (no_details R (nd_peer_details s)) {(p, info). I p = Some info}"
    using enumerates_entries [OF wf(3) orders(2)] by (simp add: heard(2))
  moreover note city_lists(1) [where num = "na_num_cities A", OF wf(3) orders(3,4,5) geo, unfolded heard(2)]
    city_lists(2) [OF wf(3) orders(3,4,5) geo, unfolded heard(2)]
  ultimately show ?thesis
    unfolding run network_counts_text [OF wf] city_lines_text [OF geo] authority_lines_text identified_lines_text
    unfolding heard(2-5) size_dom [OF wf(3)]
    by (intro exI conjI) (assumption+, simp only: append_assoc)
qed

theorem network_command_reports_witness:
  "\<exists>rest. discover_network sample_node sample_start counting_swarm
      [OnSwarm (Dialing (Some 4)), OnResubmit, OnSwarm (Dialing (Some 4))] sample_texts sample_network_orders
      (\<lambda>_. True) (Some (\<lambda>_. None)) (\<lambda>_. None) memory_file memory_file sample_network_args
      (dual_writer_new [] None) =
    (Returned (), dual_writer_new (preparation_text sample_node ''ws://localhost'' (Some ''91'') ''91'' [''/p2p/a'']
       @ ''Dialed num='' @ show_nat 1 @ '' peers'' @ nl @ rest) None)"
proof -
  let ?turns = "[OnSwarm (Dialing (Some 4)), OnResubmit, OnSwarm (Dialing (Some 4))] :: (nat, nat) loop_turn list"
  obtain b where b: "swarm_ready sample_node sample_start (na_url sample_network_args)
      (na_genesis sample_network_args) (na_bootnodes sample_network_args)
      (na_query_timeout sample_network_args) ''91'' b"
    using sample_ready by (auto simp: sample_network_args_def)
  have orders: "any_orders sample_network_orders"
    by (simp add: any_orders_def sample_network_orders_def)
  have dialed: "card (peers_dialed ?turns) = 1"
    by (simp add: peers_dialed_def)
  have args: "na_url sample_network_args = ''ws://localhost''" "na_genesis sample_network_args = Some ''91''"
      "na_bootnodes sample_network_args = [''/p2p/a'']"
    by (simp_all add: sample_network_args_def)
  show ?thesis
    using network_command_reports [OF memory_file_appends counting_swarm_fresh b orders refl refl,
        of ?turns "\<lambda>_. None" "\<lambda>_. None" sample_texts "\<lambda>_. True" memory_file]
    unfolding dialed args by blast
qed

section \<open>The report of the authorities\<close>

text \<open>The peers that have identified themselves before the discovery was left.\<close>

definition on_ad_swarm :: "(('peer, 'q) swarm_event \<Rightarrow> 'a option) \<Rightarrow> ('peer, 'q) ad_turn \<Rightarrow> 'a option" where
  "on_ad_swarm f t = (case t of AdSwarm ev \<Rightarrow> f ev | _ \<Rightarrow> None)"

definition identified_before_exit :: "('peer, 'q) ad_turn list \<Rightarrow> 'peer \<Rightarrow> 'peer identify_info option" where
  "identified_before_exit turns p = last_said (on_ad_swarm (says_info p)) (takeWhile (\<lambda>t. t \<noteq> AdExit) turns)"

lemma peer_info_advance [simp]:
  "ad_peer_info (advance_dht_queries E s) = ad_peer_info s"
  "ad_peer_info (resubmit_remaining_dht_queries E s) = ad_peer_info s"
  by (simp_all add: advance_dht_queries_def resubmit_remaining_dht_queries_def backfill_remaining_def Let_def)

lemma peer_info_outcome [simp]: "ad_peer_info (set_outcome a out s) = ad_peer_info s"
  by (simp add: set_outcome_def)

lemma peer_info_dials [simp]: "ad_peer_info (fold (ad_dial K) as s) = ad_peer_info s"
  by (induction as arbitrary: s) (simp_all add: ad_dial_def Let_def split: prod.splits option.splits)

lemma peer_info_dial_error [simp]: "ad_peer_info (on_dial_error err s) = ad_peer_info s"
proof -
  have "ad_peer_info (fold (\<lambda>(addr, e). set_outcome addr (DialFailed (''transport: '' @ error_message e))) as s)
      = ad_peer_info s" for as
    by (induction as arbitrary: s) (simp_all add: case_prod_beta)
  then show ?thesis unfolding on_dial_error_def by (auto split: dial_error.splits)
qed

lemma peer_info_handle:
  "ad_peer_info (handle_swarm E ev s) =
     (case ev of Identified p info \<Rightarrow> AList.update p info (ad_peer_info s) | _ \<Rightarrow> ad_peer_info s)"
  by (auto simp: handle_swarm_def on_get_record_def record_accepted_def Let_def
      split: swarm_event.splits kademlia_event.splits query_result.splits option.splits sum.splits)

lemma peer_info_loop:
  "wf_map (ad_peer_info s) \<Longrightarrow> wf_map (ad_peer_info (ad_loop E ts s))
    \<and> map_of (ad_peer_info (ad_loop E ts s)) p =
        (case identified_before_exit ts p of Some i \<Rightarrow> Some i | None \<Rightarrow> map_of (ad_peer_info s) p)"
proof (induction ts arbitrary: s)
  case Nil
  then show ?case by (simp add: identified_before_exit_def)
next
  case (Cons t ts)
  show ?case
  proof (cases t)
    case (AdSwarm ev)
    have "wf_map (ad_peer_info (handle_swarm E ev s))"
      using Cons.prems by (simp add: peer_info_handle split: swarm_event.splits)
    moreover have "map_of (ad_peer_info (handle_swarm E ev s)) p =
        (case says_info p ev of Some i \<Rightarrow> Some i | None \<Rightarrow> map_of (ad_peer_info s) p)"
      by (auto simp: peer_info_handle says_info_def update_conv' split: swarm_event.splits)
    ultimately show ?thesis
      using Cons.IH [of "handle_swarm E ev s"] AdSwarm
      by (simp add: identified_before_exit_def on_ad_swarm_def split: option.splits)
  qed (use Cons in \<open>simp_all add: identified_before_exit_def on_ad_swarm_def split: option.splits\<close>)
qed

lemma peers_identified:
  "wf_map (ad_peer_info (discover E turns (authority_discovery_new sw authorities)))"
  "map_of (ad_peer_info (discover E turns (authority_discovery_new sw authorities))) = identified_before_exit turns"
  using peer_info_loop [of "advance_dht_queries E (authority_discovery_new sw authorities)" E turns]
  by (auto simp: discover_def authority_discovery_new_def fun_eq_iff split: option.splits)

text \<open>
  What can be said of an authority: \<open>D\<close> are the addresses found for the authorities, \<open>iter\<close> the
  order in which a set of addresses is iterated, \<open>I\<close> the identified peers, and \<open>names\<close> relates an
  authority to its name. The version text of the peer follows the word \<open>addresses\<close>, and the
  addresses the word \<open>version\<close>.
\<close>

inductive authority_says ::
  "('peer, 'fl) text_ops \<Rightarrow> (authority \<Rightarrow> string \<Rightarrow> bool) \<Rightarrow> ('peer multiaddr list \<Rightarrow> 'peer multiaddr list)
     \<Rightarrow> (authority \<Rightarrow> 'peer multiaddr hash_set option) \<Rightarrow> ('peer \<Rightarrow> 'peer identify_info option)
     \<Rightarrow> authority \<Rightarrow> string \<Rightarrow> bool"
  for T names iter D I a where
  no_response: "names a name \<Longrightarrow> D a = None \<Longrightarrow>
    authority_says T names iter D I a (''authority='' @ tx_debug_str T name @ '' - No dht response'' @ nl)"
| no_addresses: "names a name \<Longrightarrow> D a = Some [] \<Longrightarrow>
    authority_says T names iter D I a
      (''authority='' @ tx_debug_str T name @ '' - No addresses found in DHT record'' @ nl)"
| reached: "names a name \<Longrightarrow> D a = Some addrs \<Longrightarrow> iter addrs = (front @ [P2p p]) # others \<Longrightarrow> I p = Some info \<Longrightarrow>
    authority_says T names iter D I a
      (''authority='' @ tx_debug_str T name @ '' peer_id='' @ tx_debug_peer T p
       @ '' addresses='' @ tx_debug_str T (info_agent_version info)
       @ '' version='' @ tx_debug_addrs T addrs @ '' '' @ nl)"
| unreached: "names a name \<Longrightarrow> D a = Some addrs \<Longrightarrow> iter addrs = (front @ [P2p p]) # others \<Longrightarrow> I p = None \<Longrightarrow>
    authority_says T names iter D I a
      (''authority='' @ tx_debug_str T name @ '' peer_id='' @ tx_debug_peer T p
       @ '' addresses='' @ tx_debug_addrs T addrs @ '' - Cannot be reached'' @ nl)"

text \<open>An address that names no peer comes first; and the identified peer the first address names.\<close>

definition names_no_peer ::
  "('peer multiaddr list \<Rightarrow> 'peer multiaddr list) \<Rightarrow> (authority \<Rightarrow> 'peer multiaddr hash_set option) \<Rightarrow> authority \<Rightarrow> bool" where
  "names_no_peer iter D a \<longleftrightarrow>
     (\<exists>addrs addr others. D a = Some addrs \<and> iter addrs = addr # others \<and> (\<forall>front p. addr \<noteq> front @ [P2p p]))"

definition reached_as ::
  "('peer multiaddr list \<Rightarrow> 'peer multiaddr list) \<Rightarrow> (authority \<Rightarrow> 'peer multiaddr hash_set option)
     \<Rightarrow> ('peer \<Rightarrow> 'peer identify_info option) \<Rightarrow> authority \<Rightarrow> 'peer identify_info \<Rightarrow> bool" where
  "reached_as iter D I a info \<longleftrightarrow>
     (\<exists>addrs front p others. D a = Some addrs \<and> iter addrs = (front @ [P2p p]) # others \<and> I p = Some info)"

lemma report_authority_says:
  fixes s :: "('peer, 'q, 'sw) authority_discovery" and bs58 :: "bytes \<Rightarrow> string" and version :: u16
  assumes "\<forall>d. 2 \<le> length (blake d)" and "permuting iter"
  defines "D \<equiv> map_of (ad_authority_to_details s)" and "I \<equiv> map_of (ad_peer_info s)"
    and "names \<equiv> \<lambda>a name. to_ss58 blake bs58 a version = Inr name"
  shows "names_no_peer iter D a \<Longrightarrow>
      report_authority blake bs58 iter version s a rep = Inl (UnwrapNone ''All must have valid peerIDs'')"
    and "\<not> names_no_peer iter D a \<Longrightarrow> \<exists>line. report_authority blake bs58 iter version s a rep =
        Inr \<lparr>rep_lines = rep_lines rep @ [line],
             rep_reached = rep_reached rep + (if \<exists>info. reached_as iter D I a info then 1 else 0),
             rep_litep2p = rep_litep2p rep +
               (if \<exists>info. reached_as iter D I a info \<and> sublist ''litep2p'' (info_agent_version info) then 1 else 0)\<rparr>
      \<and> authority_says T names iter D I a (concat (report_text T line))"
proof -
  obtain name where name: "to_ss58 blake bs58 a version = Inr name"
    using to_ss58_total [of blake] assms(1) by blast
  show "names_no_peer iter D a \<Longrightarrow>
      report_authority blake bs58 iter version s a rep = Inl (UnwrapNone ''All must have valid peerIDs'')"
  proof -
    assume "names_no_peer iter D a"
    then obtain addrs addr others where at: "D a = Some addrs" "iter addrs = addr # others"
        and bare: "\<forall>front p. addr \<noteq> front @ [P2p p]" by (auto simp: names_no_peer_def)
    from bare have "get_peer_id addr = None" by (simp add: get_peer_id_None)
    with at show ?thesis by (simp add: D_def report_authority_def name)
  qed
  assume good: "\<not> names_no_peer iter D a"
  let ?thesis = "\<exists>line. report_authority blake bs58 iter version s a rep =
        Inr \<lparr>rep_lines = rep_lines rep @ [line],
             rep_reached = rep_reached rep + (if \<exists>info. reached_as iter D I a info then 1 else 0),
             rep_litep2p = rep_litep2p rep +
               (if \<exists>info. reached_as iter D I a info \<and> sublist ''litep2p'' (info_agent_version info) then 1 else 0)\<rparr>
      \<and> authority_says T names iter D I a (concat (report_text T line))"
  show ?thesis
  proof (cases "D a")
    case None
    then show ?thesis
      using authority_says.no_response [of names a name D T iter I] name
      by (intro exI [of _ "NoDhtResponse name"])
        (simp add: report_authority_def D_def names_def reached_as_def report_text_def)
  next
    case (Some addrs)
    show ?thesis
    proof (cases "iter addrs")
      case Nil
      with permuting_length [OF assms(2), of addrs] have "addrs = []" by simp
      with Some Nil show ?thesis
        using authority_says.no_addresses [of names a name D T iter I] name
        by (intro exI [of _ "NoAddresses name"])
          (simp add: report_authority_def D_def names_def reached_as_def report_text_def)
    next
      case (Cons addr others)
      with good Some obtain front p where addr: "addr = front @ [P2p p]"
        by (auto simp: names_no_peer_def)
      then have peer: "get_peer_id addr = Some p" by (auto simp: get_peer_id_Some)
      have only: "reached_as iter D I a info \<longleftrightarrow> I p = Some info" for info
        using Some Cons addr by (auto simp: reached_as_def)
      show ?thesis
      proof (cases "I p")
        case None
        then have "report_authority blake bs58 iter version s a rep = Inr (rep\<lparr>rep_lines :=
            rep_lines rep @ [UnreachedAuthority name p addrs]\<rparr>)"
          using name Some Cons peer by (simp add: report_authority_def D_def I_def)
        moreover have "\<not> reached_as iter D I a info" for info
          using only None by simp
        moreover have "authority_says T names iter D I a (concat (report_text T (UnreachedAuthority name p addrs)))"
          using authority_says.unreached [of names a name D addrs iter front p others I T] name Some Cons addr None
          by (simp add: names_def report_text_def)
        ultimately show ?thesis by (intro exI [of _ "UnreachedAuthority name p addrs"]) simp
      next
        case info: (Some info)
        let ?line = "ReachedAuthority name p (info_agent_version info) addrs"
        have "report_authority blake bs58 iter version s a rep = Inr (rep\<lparr>rep_lines := rep_lines rep @ [?line],
            rep_reached := rep_reached rep + 1, rep_litep2p := rep_litep2p rep +
              (if sublist ''litep2p'' (info_agent_version info) then 1 else 0)\<rparr>)"
          using info name Some Cons peer by (simp add: report_authority_def D_def I_def str_contains_iff)
        moreover have "reached_as iter D I a i \<longleftrightarrow> i = info" for i
          using only info by auto
        moreover have "authority_says T names iter D I a (concat (report_text T ?line))"
          using authority_says.reached [of names a name D addrs iter front p others I info T] name Some Cons addr info
          by (simp add: names_def report_text_def)
        ultimately show ?thesis by (intro exI [of _ ?line]) simp
      qed
    qed
  qed
qed

text \<open>The loop over the authorities, up to the first whose address names no peer.\<close>

lemma print_authorities_says:
  fixes s :: "('peer, 'q, 'sw) authority_discovery" and bs58 :: "bytes \<Rightarrow> string" and version :: u16
    and O1 :: "('io, string) file_ops" and F1 :: "('io, 'f) file_ops" and T :: "('peer, 'fl) text_ops"
  assumes "appends O1" and blake: "\<forall>d. 2 \<le> length (blake d)" and "permuting iter"
  defines "D \<equiv> map_of (ad_authority_to_details s)" and "I \<equiv> map_of (ad_peer_info s)"
    and "names \<equiv> \<lambda>a name. to_ss58 blake bs58 a version = Inr name"
    and "run \<equiv> print_authorities T O1 F1 (\<lambda>rep a. report_authority blake bs58 iter version s a rep)
      :: _ \<Rightarrow> _ \<Rightarrow> ('io, 'e, string, 'f, 'peer authority_report) step"
  shows "\<exists>texts. list_all2 (authority_says T names iter D I)
        (takeWhile (\<lambda>a. \<not> names_no_peer iter D a) authorities) texts
    \<and> (if \<exists>a \<in> set authorities. names_no_peer iter D a
       then panics (run authorities rep) (concat texts) (UnwrapNone ''All must have valid peerIDs'')
       else \<exists>lines. prints (run authorities rep) (concat texts)
         \<lparr>rep_lines = rep_lines rep @ lines,
          rep_reached = rep_reached rep
            + length (filter (\<lambda>a. \<exists>info. reached_as iter D I a info) authorities),
          rep_litep2p = rep_litep2p rep
            + length (filter (\<lambda>a. \<exists>info. reached_as iter D I a info
                \<and> sublist ''litep2p'' (info_agent_version info)) authorities)\<rparr>)"
proof (induction authorities arbitrary: rep)
  case Nil
  have "prints (run [] rep) [] \<lparr>rep_lines = rep_lines rep @ [], rep_reached = rep_reached rep + 0,
      rep_litep2p = rep_litep2p rep + 0\<rparr>"
    by (cases rep) (simp add: run_def prints_give)
  then have "\<exists>lines. prints (run [] rep) [] \<lparr>rep_lines = rep_lines rep @ lines,
      rep_reached = rep_reached rep + 0, rep_litep2p = rep_litep2p rep + 0\<rparr>" by (rule exI)
  then show ?case by (intro exI [of _ "[]"]) simp
next
  case (Cons a authorities)
  note one = report_authority_says [OF blake assms(3), where s = s and ?bs58.0 = bs58 and version = version and a = a
      and rep = rep, folded D_def I_def names_def]
  show ?case
  proof (cases "names_no_peer iter D a")
    case True
    from one(1) [OF this] have "panics (run (a # authorities) rep) [] (UnwrapNone ''All must have valid peerIDs'')"
      unfolding run_def print_authorities.simps by (intro panics_first panics_unless)
    with True show ?thesis by (auto intro!: exI [of _ "[]"])
  next
    case False
    from one(2) [OF this, where T = T] obtain line rep1 where
      rep1: "report_authority blake bs58 iter version s a rep = Inr rep1"
        "rep1 = \<lparr>rep_lines = rep_lines rep @ [line],
             rep_reached = rep_reached rep + (if \<exists>info. reached_as iter D I a info then 1 else 0),
             rep_litep2p = rep_litep2p rep +
               (if \<exists>info. reached_as iter D I a info \<and> sublist ''litep2p'' (info_agent_version info) then 1 else 0)\<rparr>"
      and said: "authority_says T names iter D I a (concat (report_text T line))" by blast
    have step: "run (a # authorities) rep = and_then (unless_panic (Inr rep1)) (\<lambda>rep'.
        and_then (say O1 F1 [report_text T (last (rep_lines rep'))]) (\<lambda>_. run authorities rep'))"
      by (simp add: run_def rep1(1))
    have line: "last (rep_lines rep1) = line"
      by (simp add: rep1(2))
    obtain texts where texts: "list_all2 (authority_says T names iter D I)
        (takeWhile (\<lambda>a. \<not> names_no_peer iter D a) authorities) texts"
      and rest: "if \<exists>a \<in> set authorities. names_no_peer iter D a
       then panics (run authorities rep1) (concat texts) (UnwrapNone ''All must have valid peerIDs'')
       else \<exists>lines. prints (run authorities rep1) (concat texts)
         \<lparr>rep_lines = rep_lines rep1 @ lines,
          rep_reached = rep_reached rep1
            + length (filter (\<lambda>a. \<exists>info. reached_as iter D I a info) authorities),
          rep_litep2p = rep_litep2p rep1
            + length (filter (\<lambda>a. \<exists>info. reached_as iter D I a info
                \<and> sublist ''litep2p'' (info_agent_version info)) authorities)\<rparr>"
      using Cons.IH [of rep1] by blast
    show ?thesis
    proof (intro exI [of _ "concat (report_text T line) # texts"] conjI)
      show "list_all2 (authority_says T names iter D I)
          (takeWhile (\<lambda>a. \<not> names_no_peer iter D a) (a # authorities)) (concat (report_text T line) # texts)"
        using False said texts by simp
      show "if \<exists>a \<in> set (a # authorities). names_no_peer iter D a
       then panics (run (a # authorities) rep) (concat (concat (report_text T line) # texts))
         (UnwrapNone ''All must have valid peerIDs'')
       else \<exists>lines. prints (run (a # authorities) rep) (concat (concat (report_text T line) # texts))
         \<lparr>rep_lines = rep_lines rep @ lines,
          rep_reached = rep_reached rep
            + length (filter (\<lambda>a. \<exists>info. reached_as iter D I a info) (a # authorities)),
          rep_litep2p = rep_litep2p rep
            + length (filter (\<lambda>a. \<exists>info. reached_as iter D I a info
                \<and> sublist ''litep2p'' (info_agent_version info)) (a # authorities))\<rparr>"
      proof (cases "\<exists>a \<in> set authorities. names_no_peer iter D a")
        case True
        with rest have "panics (run authorities rep1) (concat texts) (UnwrapNone ''All must have valid peerIDs'')"
          by simp
        then have "panics (run (a # authorities) rep)
            ([] @ concat (concat [report_text T (last (rep_lines rep1))]) @ concat texts)
            (UnwrapNone ''All must have valid peerIDs'')"
          unfolding step by (intro panics_later [OF prints_unless [OF refl]] panics_later [OF prints_say [OF assms(1)]])
        with True show ?thesis by (simp add: line)
      next
        case none: False
        with rest obtain lines where "prints (run authorities rep1) (concat texts)
         \<lparr>rep_lines = rep_lines rep1 @ lines,
          rep_reached = rep_reached rep1
            + length (filter (\<lambda>a. \<exists>info. reached_as iter D I a info) authorities),
          rep_litep2p = rep_litep2p rep1
            + length (filter (\<lambda>a. \<exists>info. reached_as iter D I a info
                \<and> sublist ''litep2p'' (info_agent_version info)) authorities)\<rparr>" by auto
        note prints_and_then [OF prints_say [OF assms(1)] this]
        then have "prints (run (a # authorities) rep)
            ([] @ concat (concat [report_text T (last (rep_lines rep1))]) @ concat texts)
           \<lparr>rep_lines = rep_lines rep1 @ lines,
            rep_reached = rep_reached rep1
              + length (filter (\<lambda>a. \<exists>info. reached_as iter D I a info) authorities),
            rep_litep2p = rep_litep2p rep1
              + length (filter (\<lambda>a. \<exists>info. reached_as iter D I a info
                  \<and> sublist ''litep2p'' (info_agent_version info)) authorities)\<rparr>"
          unfolding step by (intro prints_and_then [OF prints_unless [OF refl]])
        moreover have counts: "rep_reached rep1 + length (filter (\<lambda>a. \<exists>info. reached_as iter D I a info) authorities)
            = rep_reached rep + length (filter (\<lambda>a. \<exists>info. reached_as iter D I a info) (a # authorities))"
          "rep_litep2p rep1 + length (filter (\<lambda>a. \<exists>info. reached_as iter D I a info
                \<and> sublist ''litep2p'' (info_agent_version info)) authorities)
            = rep_litep2p rep + length (filter (\<lambda>a. \<exists>info. reached_as iter D I a info
                \<and> sublist ''litep2p'' (info_agent_version info)) (a # authorities))"
          by (simp_all add: rep1(2))
        moreover have "rep_lines rep1 = rep_lines rep @ [line]"
          by (simp add: rep1(2))
        moreover have bad: "\<not> (\<exists>x \<in> set (a # authorities). names_no_peer iter D x)"
          using none False by simp
        ultimately show ?thesis
          unfolding if_not_P [OF bad] counts by (intro exI [of _ "line # lines"]) simp
      qed
    qed
  qed
qed

text \<open>The summary after the lines.\<close>

lemma authorities_summary_text:
  assumes "wf_map (ad_peer_info s)" and "permuting order"
  shows "\<exists>peers. enumerates peers {(p, info). map_of (ad_peer_info s) p = Some info}
    \<and> concat (concat (authorities_summary T order raw s authorities rep)) =
       nl @ nl @ ''  Discovered '' @ show_nat (rep_reached rep) @ ''/'' @ show_nat (length authorities)
       @ '' authorities'' @ nl
       @ '' Discovered peers '' @ show_nat (card {p. map_of (ad_peer_info s) p \<noteq> None}) @ nl
       @ (if raw then
            nl @ '' Raw output of the discovered peers:'' @ nl
            @ concat (map (\<lambda>(p, info). ''peer_id='' @ tx_debug_peer T p @ '' info='' @ tx_debug_info T info @ nl) peers)
          else [])
       @ '' Litep2p authorities '' @ show_nat (rep_litep2p rep) @ nl"
  by (intro exI conjI, rule enumerates_entries [OF assms])
    (simp add: authorities_summary_def concat_lines case_prod_unfold size_dom [OF assms(1)])

text \<open>
  C40. \<open>authorities\<close> reports on every authority of the runtime. With a known address format, an
  answering node and a swarm, and a hash of at least two bytes, the terminal holds one line for
  each authority in the order of the runtime: that the DHT did not answer, that its record has no
  addresses, that the peer its first address names has identified itself, with the version and
  the addresses, or that this peer cannot be reached. The summary follows: the number of
  authorities whose peer has identified itself out of all, the number of identified peers, on
  request each of them with what it said, and the number of authorities whose peer's version
  mentions litep2p. The command then gives back its discovery. But if an address that names no
  peer comes first for some authority, it panics there, after the lines of the authorities before
  it. A peer has identified itself with what it said last before the discovery was left.
\<close>

theorem authorities_command_reports:
  fixes T :: "('peer, 'fl) text_ops" and N :: "'e node_world"
    and O1 :: "('io, string) file_ops" and F1 :: "('io, 'f) file_ops"
  assumes "appends O1" and "\<forall>d. 2 \<le> length (blake d)" and "permuting iter" and "permuting info_order"
    and "nw_parse_format N (aa_address_format A) = Inr version"
    and "nw_parse_url N (aa_url A) = Inr u"
    and "runtime_api_autorities (nw_request N u) (nw_hex_decode N) (nw_scale_decode N) =
      Inr (Inr authorities)"
    and "build_swarm (st_parse_multiaddr D) (st_parse_peer D) (nw_hex_decode N) (st_from_slice D)
      (st_local_peer D) (aa_genesis A) (aa_bootnodes A) (aa_query_timeout A) = Inr (Inr b)"
    and "s = discover E turns (authority_discovery_new (st_swarm D b) authorities)"
    and "found = map_of (ad_authority_to_details s)" and "I = identified_before_exit turns"
  shows "\<exists>texts peers.
      list_all2 (authority_says T (\<lambda>a name. to_ss58 blake bs58 a version = Inr name) iter found I)
        (takeWhile (\<lambda>a. \<not> names_no_peer iter found a) authorities) texts
    \<and> enumerates peers {(p, info). I p = Some info}
    \<and> discover_authorities N D E turns blake bs58 T iter info_order O1 F1 A (dual_writer_new [] None) =
       (if \<exists>a \<in> set authorities. names_no_peer iter found a
        then (Panicked (UnwrapNone ''All must have valid peerIDs''), dual_writer_new (concat texts) None)
        else (Returned (s, authorities), dual_writer_new (concat texts
          @ nl @ nl @ ''  Discovered ''
          @ show_nat (length (filter (\<lambda>a. \<exists>info. reached_as iter found I a info) authorities))
          @ ''/'' @ show_nat (length authorities) @ '' authorities'' @ nl
          @ '' Discovered peers '' @ show_nat (card {p. I p \<noteq> None}) @ nl
          @ (if aa_raw_output A then
               nl @ '' Raw output of the discovered peers:'' @ nl
               @ concat (map (\<lambda>(p, info). ''peer_id='' @ tx_debug_peer T p @ '' info=''
                   @ tx_debug_info T info @ nl) peers)
             else [])
          @ '' Litep2p authorities ''
          @ show_nat (length (filter (\<lambda>a. \<exists>info. reached_as iter found I a info
              \<and> sublist ''litep2p'' (info_agent_version info)) authorities)) @ nl) None))"
proof -
  let ?rep0 = "\<lparr>rep_lines = [], rep_reached = 0, rep_litep2p = 0\<rparr> :: 'peer authority_report"
  let ?cmd = "discover_authorities N D E turns blake bs58 T iter info_order O1 F1 A"
  note start = prints_try [OF assms(5)] prints_try [OF assms(6)] prints_panicking [OF assms(7)]
    prints_panicking [OF assms(8)]
  have info: "wf_map (ad_peer_info s)" "map_of (ad_peer_info s) = I"
    by (simp_all add: assms(9,11) peers_identified)
  obtain texts where texts: "list_all2 (authority_says T (\<lambda>a name. to_ss58 blake bs58 a version = Inr name) iter found I)
        (takeWhile (\<lambda>a. \<not> names_no_peer iter found a) authorities) texts"
    and loop: "if \<exists>a \<in> set authorities. names_no_peer iter found a
       then panics (print_authorities T O1 F1 (\<lambda>rep a. report_authority blake bs58 iter version s a rep)
         authorities ?rep0 :: ('io, 'e, string, 'f, 'peer authority_report) step) (concat texts)
         (UnwrapNone ''All must have valid peerIDs'')
       else \<exists>lines. prints (print_authorities T O1 F1 (\<lambda>rep a. report_authority blake bs58 iter version s a rep)
         authorities ?rep0 :: ('io, 'e, string, 'f, 'peer authority_report) step) (concat texts)
         \<lparr>rep_lines = rep_lines ?rep0 @ lines,
          rep_reached = rep_reached ?rep0
            + length (filter (\<lambda>a. \<exists>info. reached_as iter found I a info) authorities),
          rep_litep2p = rep_litep2p ?rep0
            + length (filter (\<lambda>a. \<exists>info. reached_as iter found I a info
                \<and> sublist ''litep2p'' (info_agent_version info)) authorities)\<rparr>"
    using print_authorities_says [OF assms(1-3), where s = s and ?bs58.0 = bs58
        and version = version and T = T and ?F1.0 = F1 and authorities = authorities and rep = ?rep0,
        folded assms(10), unfolded info(2)] by blast
  show ?thesis
  proof (cases "\<exists>a \<in> set authorities. names_no_peer iter found a")
    case True
    with loop have bad: "panics (print_authorities T O1 F1 (\<lambda>rep a. report_authority blake bs58 iter version s a rep)
         authorities ?rep0 :: ('io, 'e, string, 'f, 'peer authority_report) step) (concat texts)
         (UnwrapNone ''All must have valid peerIDs'')" by simp
    have "panics ?cmd ([] @ [] @ [] @ [] @ concat texts) (UnwrapNone ''All must have valid peerIDs'')"
      unfolding discover_authorities_def Let_def
      by (rule panics_later [OF start(1)], rule panics_later [OF start(2)],
          rule panics_later [OF start(3)], rule panics_later [OF start(4)])
        (unfold assms(9) [symmetric], rule panics_first, rule bad)
    with True texts show ?thesis
      using enumerates_entries [OF info(1) assms(4)] by (auto simp: panics_def info(2))
  next
    case False
    with loop obtain rep where printed: "prints (print_authorities T O1 F1
          (\<lambda>rep a. report_authority blake bs58 iter version s a rep)
          authorities ?rep0 :: ('io, 'e, string, 'f, 'peer authority_report) step) (concat texts) rep"
      and counts: "rep_reached rep = length (filter (\<lambda>a. \<exists>info. reached_as iter found I a info) authorities)"
        "rep_litep2p rep = length (filter (\<lambda>a. \<exists>info. reached_as iter found I a info
                \<and> sublist ''litep2p'' (info_agent_version info)) authorities)"
      by auto
    have "prints ?cmd ([] @ [] @ [] @ [] @ concat texts
          @ concat (concat (authorities_summary T info_order (aa_raw_output A) s authorities rep)) @ [])
        (s, authorities)"
      unfolding discover_authorities_def Let_def
      by (rule prints_and_then [OF start(1)], rule prints_and_then [OF start(2)],
          rule prints_and_then [OF start(3)], rule prints_and_then [OF start(4)])
        (unfold assms(9) [symmetric], intro prints_and_then [OF printed] prints_and_then [OF prints_say [OF assms(1)]] prints_give)
    then have run: "?cmd (dual_writer_new [] None) = (Returned (s, authorities), dual_writer_new (concat texts
        @ concat (concat (authorities_summary T info_order (aa_raw_output A) s authorities rep))) None)"
      by (simp add: prints_def)
    obtain peers where "enumerates peers {(p, info). I p = Some info}"
      and "concat (concat (authorities_summary T info_order (aa_raw_output A) s authorities rep)) =
       nl @ nl @ ''  Discovered '' @ show_nat (rep_reached rep) @ ''/'' @ show_nat (length authorities)
       @ '' authorities'' @ nl
       @ '' Discovered peers '' @ show_nat (card {p. I p \<noteq> None}) @ nl
       @ (if aa_raw_output A then
            nl @ '' Raw output of the discovered peers:'' @ nl
            @ concat (map (\<lambda>(p, info). ''peer_id='' @ tx_debug_peer T p @ '' info='' @ tx_debug_info T info @ nl) peers)
          else [])
       @ '' Litep2p authorities '' @ show_nat (rep_litep2p rep) @ nl"
      using authorities_summary_text [OF info(1) assms(4), of T "aa_raw_output A" authorities rep]
      unfolding info(2) by blast
    with run texts show ?thesis
      unfolding if_not_P [OF False] counts by (intro exI [of _ texts] exI [of _ peers]) (simp only: simp_thms)
  qed
qed

theorem authorities_command_reports_witness:
  "\<exists>s line5 line6. discover_authorities sample_node sample_start sample_ad_env [AdExit] (\<lambda>_. [1, 2])
        (map (\<lambda>b. char_of (unat b))) sample_texts rev rev memory_file memory_file
        sample_authorities_args (dual_writer_new [] None) =
      (Returned (s, [[5], [6]]), dual_writer_new (line5 @ line6
        @ nl @ nl @ ''  Discovered '' @ show_nat 0 @ ''/'' @ show_nat 2 @ '' authorities'' @ nl
        @ '' Discovered peers '' @ show_nat 0 @ nl
        @ nl @ '' Raw output of the discovered peers:'' @ nl
        @ '' Litep2p authorities '' @ show_nat 0 @ nl) None)"
proof -
  obtain b where b: "build_swarm (st_parse_multiaddr sample_start) (st_parse_peer sample_start)
      (nw_hex_decode sample_node) (st_from_slice sample_start) (st_local_peer sample_start)
      (aa_genesis sample_authorities_args) (aa_bootnodes sample_authorities_args)
      (aa_query_timeout sample_authorities_args) = Inr (Inr b)"
    using sample_build by (auto simp: sample_authorities_args_def)
  have format: "nw_parse_format sample_node (aa_address_format sample_authorities_args) = Inr 42"
    by (simp add: sample_node_def)
  have runtime: "runtime_api_autorities (nw_request sample_node sample_url) (nw_hex_decode sample_node)
     (nw_scale_decode sample_node) = Inr (Inr [[5], [6]])"
    by code_simp
  define s where "s = discover sample_ad_env [AdExit] (authority_discovery_new (st_swarm sample_start b) [[5], [6]])"
  have found: "map_of (ad_authority_to_details s) = (\<lambda>_. None)"
    by (simp add: s_def discover_def authority_discovery_new_def)
  have nobody: "identified_before_exit [AdExit] p = None" for p
    by (simp add: identified_before_exit_def)
  have unreached: "reached_as rev (\<lambda>_. None) (identified_before_exit [AdExit] :: nat \<Rightarrow> nat identify_info option) a
      = (\<lambda>_. False)" for a
    by (simp add: fun_eq_iff reached_as_def)
  have blake: "\<forall>d :: bytes. 2 \<le> length ((\<lambda>_. [1, 2 :: u8]) d)" by simp
  note res = authorities_command_reports [where info_order = rev and iter = rev and ?bs58.0 = "map (\<lambda>b. char_of (unat b))"
      and T = sample_texts and ?F1.0 = memory_file, OF memory_file_appends blake permuting_rev permuting_rev format
        sample_parse runtime b s_def refl refl]
  have "\<exists>texts. list_all2 (authority_says sample_texts (\<lambda>a name. to_ss58 (\<lambda>_. [1, 2])
        (map (\<lambda>b. char_of (unat b))) a 42 = Inr name) rev (\<lambda>_. None)
        (identified_before_exit ([AdExit] :: (nat, nat) ad_turn list))) [[5], [6]] texts
    \<and> discover_authorities sample_node sample_start sample_ad_env [AdExit] (\<lambda>_. [1, 2])
        (map (\<lambda>b. char_of (unat b))) sample_texts rev rev memory_file memory_file
        sample_authorities_args (dual_writer_new [] None) =
      (Returned (s, [[5], [6]]), dual_writer_new (concat texts
        @ nl @ nl @ ''  Discovered '' @ show_nat 0 @ ''/'' @ show_nat 2 @ '' authorities'' @ nl
        @ '' Discovered peers '' @ show_nat 0 @ nl
        @ nl @ '' Raw output of the discovered peers:'' @ nl
        @ '' Litep2p authorities '' @ show_nat 0 @ nl) None)"
    using res by (rule ex_forward) (elim exE conjE, simp add: found nobody enumerates_def names_no_peer_def
        unreached sample_authorities_args_def numeral_2_eq_2 del: append_Cons append.simps(2))
  then obtain t5 t6 where run: "discover_authorities sample_node sample_start sample_ad_env [AdExit] (\<lambda>_. [1, 2])
        (map (\<lambda>b. char_of (unat b))) sample_texts rev rev memory_file memory_file
        sample_authorities_args (dual_writer_new [] None) =
      (Returned (s, [[5], [6]]), dual_writer_new (concat [t5, t6]
        @ nl @ nl @ ''  Discovered '' @ show_nat 0 @ ''/'' @ show_nat 2 @ '' authorities'' @ nl
        @ '' Discovered peers '' @ show_nat 0 @ nl
        @ nl @ '' Raw output of the discovered peers:'' @ nl
        @ '' Litep2p authorities '' @ show_nat 0 @ nl) None)"
    by (auto simp only: list_all2_Cons1 list.rel_inject list_all2_Nil)
  from run show ?thesis by (intro exI [of _ s] exI [of _ t5] exI [of _ t6]) (simp only: concat.simps append_assoc append_Nil2 append_Nil)
qed

end
