(* ===== verification/Spec2Isabelle.thy ===== *)
theory Spec2Isabelle
  imports Notification_System Ss58 Network_Discovery Peer_Discovery Authorities_Command Rpc Swarm_Builder
    Authority_Check Identity_Names Bench_Discovery Peer_Commands Check_Command Cli_Main Command_Reports
begin

text \<open>
  A verification of subp2p-explorer, an explorer of the peer-to-peer networks of Substrate
  chains.

  \<^bold>\<open>The program.\<close> The library \<open>subp2p-explorer\<close> implements the notification protocols of
  Substrate on top of \<open>libp2p\<close>: a network behaviour, a handler for each connection, and the
  two-way handshake of a substream; beside it are a behaviour for ping and identify, the
  builders of a swarm, and the formats of addresses, accounts and signed DHT records. The
  program \<open>cli\<close> drives such a swarm in its commands: it crawls the network
  (\<open>discover-network\<close>), hunts one peer (\<open>discover-peer\<close>), collects the addresses the
  authorities of a chain publish (\<open>authorities\<close>), checks that they can be reached and reports
  it (\<open>authority-check\<close>), verifies bootnodes, dials peers and submits extrinsics. The library
  \<open>subp2p-explorer-core\<close> hides two network stacks, \<open>libp2p\<close> and \<open>litep2p\<close>, behind one
  interface, and \<open>bench-cli\<close> compares them.

  \<^bold>\<open>How code is modelled.\<close> A struct is a record, an enum a datatype, a \<open>HashMap\<close> an
  association list (so that the order of iteration, which Rust leaves open, can be an argument),
  a byte an \<open>8 word\<close> and a string its UTF-8 bytes. A method that changes its object returns the
  new object. A \<open>Result\<close> is a sum with the error on the left, and a panic is a value of its
  own: an \<open>unwrap\<close>, \<open>expect\<close>, index or slice of the source is a branch with a result of type
  \<open>panic\<close>. A future is its \<open>poll\<close>, and what the runtime, the swarm, a socket or a channel
  answers is an argument or a step of a relation. Code of other crates is an argument of the
  definitions that call it; what the theorems need of it is stated in named predicates
  (\<open>answers\<close>, \<open>permuting\<close>, \<open>lite_distinct\<close> and others) that say what its documentation says,
  and for each there is an instance.

  \<^bold>\<open>Foundations.\<close> \<open>Prelude\<close> has machine integers, \<open>Poll\<close>, panics and lemmas on association
  lists; \<open>Rust_Str\<close> the methods of \<open>str\<close> the program uses; \<open>Event_Source\<close> the interface of an
  object whose operations queue events and whose poll hands them out, interpreted for the
  handler and for the behaviour.

  \<^bold>\<open>Notification protocols\<close> (\<open>subp2p-explorer/src/notifications\<close>).
  \<^item> \<open>Messages\<close>: \<open>messages.rs\<close>, the handshake of block announces and the codec of roles.
  \<^item> \<open>Combine_Upgrades\<close>: \<open>upgrades/combine_upgrades.rs\<close>, the choice among several upgrades.
  \<^item> \<open>Handshake\<close>: \<open>upgrades/handshake.rs\<close>, both ends of a substream over sockets that may be
    pending, fail or end. A handshake is sent at most once, neither end reads more than was
    announced nor accepts more than the limit, and the two ends exchange what each one sent.
  \<^item> \<open>Handler\<close>: \<open>handler.rs\<close>, the state machine of each protocol of a connection. The handler
    refines an abstract machine with one phase per protocol; at most one substream request is
    outstanding, each answer has its open command, a protocol opens only after its handshake,
    messages of the user are forwarded in order, and a poll returns.
  \<^item> \<open>Notifications\<close>: \<open>behavior.rs\<close>. Every call leads to the events it should, in order, no
    wake-up is lost, and the connections tracked are those established and not closed.
  \<^item> \<open>Notification_System\<close>: the behaviour with all handlers under a swarm, as a step relation.
    In every reachable state handlers and tracked connections agree, the commands to open the
    protocols were carried out or are queued, and no command or answer handed to a handler panics.

  \<^bold>\<open>Formats and construction\<close> (\<open>subp2p-explorer/src\<close>).
  \<^item> \<open>Ss58\<close>: \<open>util/ss58.rs\<close>, the text of an account; the prefix can be read back.
  \<^item> \<open>Addresses\<close>: \<open>util/p2p.rs\<close> and parts of \<open>cli/src/utils.rs\<close>.
  \<^item> \<open>Authority_Records\<close>: \<open>util/authorities.rs\<close> and \<open>util/crypto.rs\<close>. A record is accepted
    exactly if both signatures verify and its addresses name one peer.
  \<^item> \<open>Swarm_Builder\<close>: \<open>discovery.rs\<close>, \<open>transport.rs\<close> and \<open>build_swarm\<close> of \<open>cli/src/utils.rs\<close>;
    \<open>Library_Swarm\<close>: the other uses of the swarm builder, with their settings and panics.
  \<^item> \<open>Peer_Behaviour\<close>: \<open>peer_behavior.rs\<close>, the wrapper of ping and identify.

  \<^bold>\<open>Discovery\<close> (\<open>cli/src/commands\<close>).
  \<^item> \<open>Swarm\<close>: the operations of a swarm the commands call, and the interface of a loop that
    keeps a pool of queries full, interpreted for the two discoveries below.
  \<^item> \<open>Network_Discovery\<close> (\<open>discovery.rs\<close>) and \<open>Peer_Discovery\<close> (\<open>discover_peer.rs\<close>): the pool
    is full whenever the loop waits, an address is dialed once, and the summary of the peer
    that was looked for is what the events said.
  \<^item> \<open>Authority_Discovery\<close>: \<open>AuthorityDiscovery\<close> of \<open>authorities.rs\<close>. The addresses it returns
    come from records verified for their authority, and no authority is forgotten by the queue
    of queries.
  \<^item> \<open>Rpc\<close>: the RPC queries and the resolution of bootnodes at the top of \<open>authorities.rs\<close>.
  \<^item> \<open>Identity\<close> and \<open>Identity_Names\<close>: \<open>identity.rs\<close>, the decoding of a registration and the
    names of the authorities, which are those the chain holds, direct or of the parent account.
  \<^item> \<open>Connectivity\<close>: the connectivity checks of \<open>authority_check.rs\<close>, in batches.

  \<^bold>\<open>Commands.\<close> \<open>Dual_Writer\<close> is the writer to a terminal and a log file, and
  \<open>Command_Steps\<close> the steps commands are made of: a step writes, then returns, fails or panics.
  \<^item> \<open>Authority_Check\<close>: the results of \<open>authority_check.rs\<close> and the text of its report.
  \<^item> \<open>Check_Command\<close>: \<open>check_authorities\<close> as a whole. It returns whatever the network does if
    the node answers and files accept writes; its JSON report has one entry per authority, with
    addresses of verified records only; its counts of dials add up.
  \<^item> \<open>Authorities_Command\<close> and \<open>Discovery_Commands\<close>: the report of \<open>authorities\<close>, and the
    commands \<open>discover-network\<close>, \<open>discover-peer\<close> and \<open>authorities\<close> with all they print on
    the terminal. The lines \<open>discover-peer\<close> prints during its loop are kept in the state of
    \<open>Peer_Discovery\<close> and written when the loop is over, which gives the same terminal. The
    progress line of \<open>discover\<close>, which only \<open>authority-check\<close> turns on, is modelled beside the
    loop (\<open>discover_shown\<close>) and is not part of the terminal of \<open>Check_Command\<close>.
  \<^item> \<open>Command_Reports\<close>: what is on the terminal after \<open>discover-network\<close> and \<open>authorities\<close>,
    specified from the events of the network without the functions that compute it: numbers of
    peers, enumerations of sets, the ranking of the cities, and one rule for each line an
    authority can get.
  \<^item> \<open>Peer_Commands\<close>: \<open>bootnodes.rs\<close>, \<open>dial_peer.rs\<close> and \<open>extrinsics.rs\<close>.
  \<^item> \<open>Cli_Options\<close>: the parser of durations and the \<open>Authorities\<close> branch of \<open>main\<close>;
    \<open>Cli_Main\<close>: the commands with their options and \<open>main\<close> over all of them. That every command
    ends, and that wrong arguments are refused, is stated at the end of this theory.

  \<^bold>\<open>Backends and benchmark.\<close>
  \<^item> \<open>Core_Types\<close>: \<open>subp2p-explorer-core/src/types\<close>, addresses and identities between the two
    network stacks; which of them come back unchanged, and which panic.
  \<^item> \<open>Libp2p_Backend\<close> and \<open>Litep2p_Backend\<close>: \<open>libp2p.rs\<close> and \<open>litep2p.rs\<close>, with an interface
    of issuers of queries interpreted for both.
  \<^item> \<open>Bench_Discovery\<close>: the loop of \<open>discovery_backends.rs\<close> over either backend, the network of
    \<open>discovery_local.rs\<close>, the data set, and \<open>main\<close> of \<open>bench-cli\<close>.

  \<^bold>\<open>Loops and bounds.\<close> A loop over data is a function with a termination proof. A loop that
  waits for others is a \<open>partial_function\<close> whose value \<open>None\<close> means that it does not return
  (\<open>forward_loop\<close>, \<open>poll_ping\<close>, \<open>poll_identify\<close>, \<open>fill_loop\<close>, \<open>bd_fill\<close>, \<open>bd_loop\<close>), and that
  it returns is proved, from what is assumed of the channel or swarm. The loops of the commands
  run until a deadline; the events the swarm gave before it are a list, and the theorems hold
  for every list, so no bound on the time is chosen.

  \<^bold>\<open>Not modelled.\<close> The declarations for the argument parser and the set-up of the log; what
  goes to the standard error stream and to the log of a run; the inside of the builders of the
  libraries, which are given records of settings; accessors and calls passed on to a wrapped
  value; the build script and the record types it generates; module files; tests. Time is seen
  only in the order of events and deadlines, and tasks that share no state with the rest are
  not interleaved.
\<close>

section \<open>The program as a whole\<close>

text \<open>
  C22. Every command ends. If the swarm numbers its queries apart, \<open>main\<close> returns, fails or
  panics for every command with all its options, whatever the node answers and whatever happens
  on the network before the time limits, with one exception, which is exact: \<open>send-extrinisic\<close>
  waits for ever if it got to its loop and at most thirty notifications arrive.
\<close>

theorem commands_end:
  assumes "fresh_query_ids (cw_swarm W) issued"
  shows "fst (fst (main W cmd out)) = Stuck \<longleftrightarrow>
     (\<exists>A. cmd = SendExtrinisic A \<and> submission_starts W A
        \<and> length (filter is_notification (cw_notifications W)) \<le> 30)"
proof (cases cmd)
  case (Authorities A)
  then show ?thesis by (simp add: main_def Let_def not_stuck [OF goes_authorities])
next
  case (AuthorityCheck A)
  then show ?thesis by (simp add: main_def Let_def check_goes_on)
next
  case (DialPeer A)
  then show ?thesis by (simp add: main_def Let_def not_stuck [OF goes_given_peers(1)])
next
  case (SendExtrinisic A)
  then show ?thesis by (simp add: main_def Let_def extrinsic_stuck)
next
  case (DiscoverNetwork A)
  then show ?thesis by (simp add: main_def Let_def not_stuck [OF goes_discovery(1) [OF assms]])
next
  case (DiscoverPeer A)
  then show ?thesis by (simp add: main_def Let_def not_stuck [OF goes_discovery(2) [OF assms]])
next
  case (VerifyBootnodes opts)
  then show ?thesis by (simp add: main_def Let_def not_stuck [OF goes_given_peers(2)])
qed

theorem commands_end_witness:
  "fst (fst (main sample_cli (DiscoverNetwork sample_network_args) [])) \<noteq> Stuck
   \<and> fst (fst (main sample_cli (SendExtrinisic \<lparr>ea_genesis = ''91'', ea_bootnodes = [''/p2p/a''],
        ea_extrinsics = ''0x00''\<rparr>) [])) = Stuck"
proof -
  have fresh: "fresh_query_ids (cw_swarm sample_cli) (\<lambda>n. {0..<n})"
    by (simp add: sample_cli_def counting_swarm_fresh)
  have "submission_starts sample_cli \<lparr>ea_genesis = ''91'', ea_bootnodes = [''/p2p/a''], ea_extrinsics = ''0x00''\<rparr>"
    by (simp add: submission_starts_def sample_cli_def sample_node_def sample_start_def build_swarm_def
        parse_bootnode_def discovery_build_def Let_def)
  then show ?thesis
    using commands_end [OF fresh] by (simp add: sample_cli_def)
qed

text \<open>
  C23. Wrong arguments are refused at once. A URL that cannot be read, a peer that cannot be
  read, or bootnodes beside a chain specification end the program with exactly that error,
  whatever the node and the network do; nothing is printed and no file is written.
\<close>

theorem bad_arguments_refused:
  assumes "refusal W cmd = Some err"
  shows "main W cmd out = ((Errored err, dual_writer_new out None), None)"
  using assms
  by (cases cmd)
    (auto simp: refusal_def bad_url_def main_def refusing_defs Let_def split: sum.splits if_splits)

theorem bad_arguments_refused_witness:
  "main sample_cli (DiscoverPeer (sample_peer_args\<lparr>pa_peer := []\<rparr>)) ''> '' =
     ((Errored (TextError ''Invalid --peer ``: empty''), dual_writer_new ''> '' None), None)"
  by (rule bad_arguments_refused) (simp add: refusal_def sample_cli_def sample_peer_args_def)

end
